(* ===== verification/Prelude.thy ===== *)
theory Prelude
  imports Main "HOL-Library.Word"
begin

text \<open>
  The vocabulary shared by every component of the indexer: Rust's fixed-width integers and their
  casts, \<open>Result\<close> values and the \<open>?\<close> operator, stateful operations that may fail, and
  the few iterator functions (\<open>collect\<close>, \<open>chunks\<close>, \<open>for\<close>) the crates use.

  Signed integers (\<open>i16\<close>, \<open>i32\<close>, \<open>i64\<close>) are mathematical integers; each operation that
  can leave the type's range (saturating subtraction, \<open>as\<close> casts, \<open>try_from\<close>) writes its
  behaviour at the bounds out. Unsigned integers are words of their width.
\<close>

named_theorems rust_arith
named_theorems io_simps
named_theorems keeps_intros

type_synonym u8 = "8 word"
type_synonym u32 = "32 word"
type_synonym u64 = "64 word"
type_synonym u128 = "128 word"
type_synonym u256 = "256 word"
type_synonym i64 = int
type_synonym i32 = int
type_synonym i16 = int

section \<open>Integers\<close>

definition i64_min :: i64 where "i64_min = - (2 ^ 63)"
definition i64_max :: i64 where "i64_max = 2 ^ 63 - 1"
definition i32_max :: i32 where "i32_max = 2 ^ 31 - 1"

definition in_i64 :: "int \<Rightarrow> bool" where
  "in_i64 x \<longleftrightarrow> i64_min \<le> x \<and> x \<le> i64_max"

definition saturating_sub_i64 :: "i64 \<Rightarrow> i64 \<Rightarrow> i64" where
  "saturating_sub_i64 a b = max i64_min (min i64_max (a - b))"

definition saturating_add_i64 :: "i64 \<Rightarrow> i64 \<Rightarrow> i64" where
  "saturating_add_i64 a b = max i64_min (min i64_max (a + b))"

text \<open>\<open>v as i64\<close> of a \<open>u64\<close> reads the same bits as two's complement; \<open>v as u64\<close> is the inverse.\<close>

definition u64_as_i64 :: "u64 \<Rightarrow> i64" where
  "u64_as_i64 v = sint v"

definition i64_as_u64 :: "i64 \<Rightarrow> u64" where
  "i64_as_u64 v = word_of_int v"

definition u64_try_from_i64 :: "i64 \<Rightarrow> u64 option" where
  "u64_try_from_i64 v = (if v < 0 then None else Some (word_of_int v))"

definition i64_try_from_u64 :: "u64 \<Rightarrow> i64 option" where
  "i64_try_from_u64 v = (if uint v \<le> i64_max then Some (uint v) else None)"

definition i32_try_from_u64 :: "u64 \<Rightarrow> i32 option" where
  "i32_try_from_u64 v = (if uint v \<le> i32_max then Some (uint v) else None)"

definition i32_try_from_usize :: "nat \<Rightarrow> i32 option" where
  "i32_try_from_usize n = (if int n \<le> i32_max then Some (int n) else None)"

lemmas [rust_arith] = i64_min_def i64_max_def i32_max_def in_i64_def
  saturating_sub_i64_def saturating_add_i64_def

lemma saturating_sub_i64_in [simp]: "in_i64 (saturating_sub_i64 a b)"
  by (simp add: rust_arith)

lemma saturating_sub_i64_exact:
  "in_i64 a \<Longrightarrow> 0 \<le> b \<Longrightarrow> i64_min \<le> a - b \<Longrightarrow> saturating_sub_i64 a b = a - b"
  by (simp add: rust_arith)

lemma saturating_sub_i64_le: "in_i64 a \<Longrightarrow> 0 \<le> b \<Longrightarrow> saturating_sub_i64 a b \<le> a"
  by (simp add: rust_arith)

lemma u64_as_i64_in [simp]: "in_i64 (u64_as_i64 v)"
  using sint_range_size [of v] by (simp add: rust_arith u64_as_i64_def word_size)

lemma u64_i64_cast_roundtrip [simp]: "i64_as_u64 (u64_as_i64 v) = v"
  by (simp add: i64_as_u64_def u64_as_i64_def)

lemma u64_as_i64_small: "uint v \<le> i64_max \<Longrightarrow> u64_as_i64 v = uint v"
  using order_trans [OF _ uint_ge_0 [of v], of "- 9223372036854775808"]
  by (simp add: u64_as_i64_def sint_uint i64_max_def signed_take_bit_int_eq_self_iff)

section \<open>Results\<close>

text \<open>
  \<open>Result<T, E>\<close> is \<open>'e + 'a\<close> with \<open>Inl\<close> for \<open>Err\<close>. \<open>bind_result\<close> is the \<open>?\<close> operator,
  \<open>collect_results\<close> is \<open>iter.map(f).collect::<Result<Vec<_>, _>>()\<close>: the first error wins.
\<close>

definition bind_result :: "'e + 'a \<Rightarrow> ('a \<Rightarrow> 'e + 'b) \<Rightarrow> 'e + 'b" where
  "bind_result r f = (case r of Inl e \<Rightarrow> Inl e | Inr x \<Rightarrow> f x)"

definition map_err :: "('e \<Rightarrow> 'f) \<Rightarrow> 'e + 'a \<Rightarrow> 'f + 'a" where
  "map_err g r = (case r of Inl e \<Rightarrow> Inl (g e) | Inr x \<Rightarrow> Inr x)"

definition ok_or :: "'e \<Rightarrow> 'a option \<Rightarrow> 'e + 'a" where
  "ok_or e v = (case v of None \<Rightarrow> Inl e | Some x \<Rightarrow> Inr x)"

primrec collect_results :: "('a \<Rightarrow> 'e + 'b) \<Rightarrow> 'a list \<Rightarrow> 'e + 'b list" where
  "collect_results f [] = Inr []"
| "collect_results f (x # xs) =
     bind_result (f x) (\<lambda>y. bind_result (collect_results f xs) (\<lambda>ys. Inr (y # ys)))"

lemma bind_result_simps [simp]:
  "bind_result (Inl e) f = Inl e" "bind_result (Inr x) f = f x"
  by (simp_all add: bind_result_def)

lemma map_err_simps [simp]: "map_err g (Inl e) = Inl (g e)" "map_err g (Inr x) = Inr x"
  by (simp_all add: map_err_def)

lemma ok_or_simps [simp]: "ok_or e None = Inl e" "ok_or e (Some x) = Inr x"
  by (simp_all add: ok_or_def)

lemma bind_result_Inr: "bind_result r f = Inr y \<longleftrightarrow> (\<exists>x. r = Inr x \<and> f x = Inr y)"
  by (cases r) simp_all

lemma map_err_Inr [simp]: "map_err g r = Inr y \<longleftrightarrow> r = Inr y"
  by (cases r) simp_all

lemma ok_or_Inr [simp]: "ok_or e v = Inr y \<longleftrightarrow> v = Some y"
  by (cases v) simp_all

lemma collect_results_Inr:
  "collect_results f xs = Inr ys \<longleftrightarrow> list_all2 (\<lambda>x y. f x = Inr y) xs ys"
proof (induction xs arbitrary: ys)
  case Nil
  then show ?case by auto
next
  case (Cons x xs)
  then show ?case by (cases ys) (auto simp: bind_result_Inr)
qed

lemma collect_results_length: "collect_results f xs = Inr ys \<Longrightarrow> length ys = length xs"
  by (simp add: collect_results_Inr list_all2_lengthD)

lemma collect_results_set:
  "collect_results f xs = Inr ys \<Longrightarrow> y \<in> set ys \<Longrightarrow> \<exists>x\<in>set xs. f x = Inr y"
  by (auto simp: collect_results_Inr list_all2_conv_all_nth in_set_conv_nth) (metis nth_mem)

section \<open>Operations on a state that may fail\<close>

text \<open>
  An async function of the crates is a function of the world it acts on (database, channels,
  outcomes of network calls) to a result and the next world.
\<close>

type_synonym ('w, 'e, 'a) io = "'w \<Rightarrow> ('e + 'a) \<times> 'w"

definition ret_io :: "'a \<Rightarrow> ('w, 'e, 'a) io" where
  "ret_io x w = (Inr x, w)"

definition fail_io :: "'e \<Rightarrow> ('w, 'e, 'a) io" where
  "fail_io e w = (Inl e, w)"

definition lift_io :: "'e + 'a \<Rightarrow> ('w, 'e, 'a) io" where
  "lift_io r w = (r, w)"

definition bind_io :: "('w, 'e, 'a) io \<Rightarrow> ('a \<Rightarrow> ('w, 'e, 'b) io) \<Rightarrow> ('w, 'e, 'b) io" where
  "bind_io m f w = (case m w of (Inl e, w') \<Rightarrow> (Inl e, w') | (Inr x, w') \<Rightarrow> f x w')"

definition map_err_io :: "('e \<Rightarrow> 'f) \<Rightarrow> ('w, 'e, 'a) io \<Rightarrow> ('w, 'f, 'a) io" where
  "map_err_io g m w = (case m w of (r, w') \<Rightarrow> (map_err g r, w'))"

text \<open>\<open>for x in xs { f(x)?; }\<close>: stops at the first failure and keeps the effects so far.\<close>

primrec for_io :: "('a \<Rightarrow> ('w, 'e, unit) io) \<Rightarrow> 'a list \<Rightarrow> ('w, 'e, unit) io" where
  "for_io f [] = ret_io ()"
| "for_io f (x # xs) = bind_io (f x) (\<lambda>_. for_io f xs)"

lemma io_basic [io_simps]:
  "ret_io x w = (Inr x, w)" "fail_io e w = (Inl e, w)" "lift_io r w = (r, w)"
  by (simp_all add: ret_io_def fail_io_def lift_io_def)

lemma bind_io_Inr:
  "bind_io m f w = (Inr y, w2) \<longleftrightarrow> (\<exists>x w1. m w = (Inr x, w1) \<and> f x w1 = (Inr y, w2))"
  by (auto simp: bind_io_def split: prod.splits sum.splits)

lemma map_err_io_Inr: "map_err_io g m w = (Inr x, w') \<longleftrightarrow> m w = (Inr x, w')"
  by (auto simp: map_err_io_def split: prod.splits)

lemma bind_io_InrE:
  assumes "bind_io m f w = (Inr y, w2)"
  obtains x w1 where "m w = (Inr x, w1)" "f x w1 = (Inr y, w2)"
  using assms by (auto simp: bind_io_Inr)

lemma bind_io_Inl_cases:
  assumes "bind_io m f w = (Inl e, w2)"
  obtains (first) "m w = (Inl e, w2)"
    | (second) x w1 where "m w = (Inr x, w1)" "f x w1 = (Inl e, w2)"
  using assms by (auto simp: bind_io_def split: prod.splits sum.splits)

lemma bind_io_run [io_simps]:
  "m w = (Inr x, w') \<Longrightarrow> bind_io m f w = f x w'"
  "m w = (Inl e, w') \<Longrightarrow> bind_io m f w = (Inl e, w')"
  by (simp_all add: bind_io_def)

text \<open>
  \<open>keeps P m\<close>: from a world with \<open>P\<close>, the operation ends in a world with \<open>P\<close>, whether it
  succeeds or fails. Preservation proofs of the components are built from these rules.
\<close>

definition keeps :: "('w \<Rightarrow> bool) \<Rightarrow> ('w, 'e, 'a) io \<Rightarrow> bool" where
  "keeps P m \<longleftrightarrow> (\<forall>w. P w \<longrightarrow> P (snd (m w)))"

lemma keepsI: "(\<And>w. P w \<Longrightarrow> P (snd (m w))) \<Longrightarrow> keeps P m"
  by (simp add: keeps_def)

lemma keepsD: "keeps P m \<Longrightarrow> P w \<Longrightarrow> P (snd (m w))"
  by (simp add: keeps_def)

lemma keeps_run: "keeps P m \<Longrightarrow> P w \<Longrightarrow> m w = (r, w') \<Longrightarrow> P w'"
  by (auto dest: keepsD)

lemma keeps_ret [keeps_intros]: "keeps P (ret_io x)"
  by (simp add: keeps_def ret_io_def)

lemma keeps_fail [keeps_intros]: "keeps P (fail_io e)"
  by (simp add: keeps_def fail_io_def)

lemma keeps_lift [keeps_intros]: "keeps P (lift_io r)"
  by (simp add: keeps_def lift_io_def)

lemma keeps_bind [keeps_intros]:
  "keeps P m \<Longrightarrow> (\<And>x. keeps P (f x)) \<Longrightarrow> keeps P (bind_io m f)"
  by (auto simp: keeps_def bind_io_def split: prod.splits sum.splits)

lemma keeps_map_err [keeps_intros]: "keeps P m \<Longrightarrow> keeps P (map_err_io g m)"
  by (auto simp: keeps_def map_err_io_def split: prod.splits)

lemma keeps_for [keeps_intros]: "(\<And>x. x \<in> set xs \<Longrightarrow> keeps P (f x)) \<Longrightarrow> keeps P (for_io f xs)"
  by (induction xs) (auto intro!: keeps_intros)

section \<open>Iterators\<close>

text \<open>\<open>slice.chunks(n)\<close>; the crates only use a positive constant (\<open>chunks(0)\<close> panics).\<close>

function chunks :: "nat \<Rightarrow> 'a list \<Rightarrow> 'a list list" where
  "chunks n xs = (if xs = [] \<or> n = 0 then [] else take n xs # chunks n (drop n xs))"
  by pat_completeness auto
termination
  by (relation "measure (\<lambda>(n, xs). length xs)") auto

declare chunks.simps [simp del]

lemma concat_chunks: "0 < n \<Longrightarrow> concat (chunks n xs) = xs"
proof (induction n xs rule: chunks.induct)
  case (1 n xs)
  then show ?case by (subst chunks.simps) auto
qed

lemma length_chunk: "c \<in> set (chunks n xs) \<Longrightarrow> length c \<le> n"
proof (induction n xs rule: chunks.induct)
  case (1 n xs)
  then show ?case by (subst (asm) chunks.simps) (auto split: if_splits)
qed

lemma set_chunk: "c \<in> set (chunks n xs) \<Longrightarrow> set c \<subseteq> set xs"
proof (induction n xs rule: chunks.induct)
  case (1 n xs)
  then show ?case
    by (subst (asm) chunks.simps) (auto split: if_splits dest: in_set_takeD in_set_dropD)
qed

end
