(* ===== verification/Domain.thy ===== *)
theory Domain
  imports Prelude "HOL-Library.Product_Lexorder"
begin

text \<open>
  The crate \<open>indexer-domain\<close>: the newtypes of \<open>ids.rs\<close> and \<open>wei.rs\<close> and the row types of
  \<open>block.rs\<close>, \<open>transaction.rs\<close>, \<open>log.rs\<close> and \<open>token_transfer.rs\<close>. Field names carry a prefix
  (\<open>b_\<close>, \<open>t_\<close>, \<open>l_\<close>, \<open>tt_\<close>) because record fields share one name space.
\<close>

section \<open>Newtypes\<close>

datatype block_height = BlockHeight (height_val: i64)
datatype tx_index = TxIndex (tx_index_val: i32)
datatype log_index = LogIndex (log_index_val: i32)
datatype wei = Wei (wei_val: u256)

text \<open>The derived \<open>Ord\<close> of a newtype is the order of its field.\<close>

instantiation block_height :: linorder
begin

definition less_eq_block_height :: "block_height \<Rightarrow> block_height \<Rightarrow> bool" where
  "less_eq_block_height a b \<longleftrightarrow> height_val a \<le> height_val b"

definition less_block_height :: "block_height \<Rightarrow> block_height \<Rightarrow> bool" where
  "less_block_height a b \<longleftrightarrow> height_val a < height_val b"

instance
  by standard (auto simp: less_eq_block_height_def less_block_height_def block_height.expand)

end

instantiation tx_index :: linorder
begin

definition less_eq_tx_index :: "tx_index \<Rightarrow> tx_index \<Rightarrow> bool" where
  "less_eq_tx_index a b \<longleftrightarrow> tx_index_val a \<le> tx_index_val b"

definition less_tx_index :: "tx_index \<Rightarrow> tx_index \<Rightarrow> bool" where
  "less_tx_index a b \<longleftrightarrow> tx_index_val a < tx_index_val b"

instance
  by standard (auto simp: less_eq_tx_index_def less_tx_index_def tx_index.expand)

end

instantiation log_index :: linorder
begin

definition less_eq_log_index :: "log_index \<Rightarrow> log_index \<Rightarrow> bool" where
  "less_eq_log_index a b \<longleftrightarrow> log_index_val a \<le> log_index_val b"

definition less_log_index :: "log_index \<Rightarrow> log_index \<Rightarrow> bool" where
  "less_log_index a b \<longleftrightarrow> log_index_val a < log_index_val b"

instance
  by standard (auto simp: less_eq_log_index_def less_log_index_def log_index.expand)

end

instantiation wei :: linorder
begin

definition less_eq_wei :: "wei \<Rightarrow> wei \<Rightarrow> bool" where
  "less_eq_wei a b \<longleftrightarrow> wei_val a \<le> wei_val b"

definition less_wei :: "wei \<Rightarrow> wei \<Rightarrow> bool" where
  "less_wei a b \<longleftrightarrow> wei_val a < wei_val b"

instance
  by standard (auto simp: less_eq_wei_def less_wei_def wei.expand)

end

lemma block_height_order [simp]:
  "BlockHeight a \<le> BlockHeight b \<longleftrightarrow> a \<le> b" "BlockHeight a < BlockHeight b \<longleftrightarrow> a < b"
  by (simp_all add: less_eq_block_height_def less_block_height_def)

lemma height_le_iff: "a \<le> b \<longleftrightarrow> height_val a \<le> height_val b"
  and height_less_iff: "a < b \<longleftrightarrow> height_val a < height_val b"
  by (simp_all add: less_eq_block_height_def less_block_height_def)

text \<open>\<open>BlockHeight::as_u64\<close> and \<open>From<u64> for BlockHeight\<close>.\<close>

definition as_u64 :: "block_height \<Rightarrow> u64 option" where
  "as_u64 h = u64_try_from_i64 (height_val h)"

definition block_height_from_u64 :: "u64 \<Rightarrow> block_height" where
  "block_height_from_u64 v = BlockHeight (u64_as_i64 v)"

definition wei_zero :: wei where
  "wei_zero = Wei 0"

definition wei_from_u64 :: "u64 \<Rightarrow> wei" where
  "wei_from_u64 v = Wei (ucast v)"

section \<open>Rows\<close>

type_synonym address = string
type_synonym hash = string

record block =
  b_height :: block_height
  b_hash :: hash
  b_parent_hash :: hash
  b_timestamp :: i64
  b_validator :: string
  b_gas_used :: i64
  b_gas_limit :: i64
  b_base_fee :: "wei option"
  b_tx_count :: i32
  b_state_root :: "hash option"
  b_round :: i32
  b_justification_signers :: "string list"

datatype tx_type = Native | Evm | System | Coinbase

fun tx_type_as_str :: "tx_type \<Rightarrow> string" where
  "tx_type_as_str Native = ''native''"
| "tx_type_as_str Evm = ''evm''"
| "tx_type_as_str System = ''system''"
| "tx_type_as_str Coinbase = ''coinbase''"

record transaction =
  t_hash :: hash
  t_block_height :: block_height
  t_tx_index :: tx_index
  t_from_addr :: address
  t_to_addr :: "address option"
  t_value :: wei
  t_gas_limit :: i64
  t_gas_used :: "i64 option"
  t_gas_price :: "wei option"
  t_fee :: wei
  t_nonce :: i64
  t_data :: "string option"
  t_status :: i16
  t_contract_address :: "address option"
  t_tx_type :: tx_type

record log =
  l_block_height :: block_height
  l_tx_hash :: hash
  l_log_index :: log_index
  l_address :: address
  l_topic0 :: "hash option"
  l_topic1 :: "hash option"
  l_topic2 :: "hash option"
  l_topic3 :: "hash option"
  l_data :: "string option"

datatype token_standard = Erc20 | Erc721 | Erc1155

fun token_standard_as_str :: "token_standard \<Rightarrow> string" where
  "token_standard_as_str Erc20 = ''erc20''"
| "token_standard_as_str Erc721 = ''erc721''"
| "token_standard_as_str Erc1155 = ''erc1155''"

record token_transfer =
  tt_id :: "i64 option"
  tt_block_height :: block_height
  tt_tx_hash :: hash
  tt_log_index :: log_index
  tt_contract :: address
  tt_standard :: token_standard
  tt_from_addr :: address
  tt_to_addr :: address
  tt_token_id :: "wei option"
  tt_amount :: wei

section \<open>Facts\<close>

lemma as_u64_from_u64: "uint v \<le> i64_max \<Longrightarrow> as_u64 (block_height_from_u64 v) = Some v"
  by (simp add: as_u64_def block_height_from_u64_def u64_as_i64_small u64_try_from_i64_def)

lemma as_u64_None_iff: "as_u64 h = None \<longleftrightarrow> height_val h < 0"
  by (simp add: as_u64_def u64_try_from_i64_def)

lemma tx_type_as_str_inj: "tx_type_as_str a = tx_type_as_str b \<longleftrightarrow> a = b"
  by (cases a; cases b) simp_all

lemma token_standard_as_str_inj: "token_standard_as_str a = token_standard_as_str b \<longleftrightarrow> a = b"
  by (cases a; cases b) simp_all

end
