(* ===== verification/Rust_Text.thy ===== *)
theory Rust_Text
  imports Domain
begin

text \<open>
  The string functions of Rust's standard library that the crates use. A \<open>string\<close> is the byte
  list of a Rust \<open>&str\<close>; case folding and trimming are modelled on ASCII, which is what hashes,
  addresses, URLs and query parameters are made of.

  Decimal text of integers: \<open>to_string\<close> and \<open>str::parse\<close> (optional sign, at least one digit,
  \<open>Err\<close> outside the type's range), with their round trips.
\<close>

section \<open>Decimal numbers\<close>

definition digit_char :: "nat \<Rightarrow> char" where
  "digit_char d = char_of (48 + d)"

definition digit_val :: "char \<Rightarrow> nat option" where
  "digit_val c = (let k = of_char c in if 48 \<le> k \<and> k \<le> (57::nat) then Some (k - 48) else None)"

fun dec_nat :: "nat \<Rightarrow> string" where
  "dec_nat n = (if n < 10 then [digit_char n] else dec_nat (n div 10) @ [digit_char (n mod 10)])"

declare dec_nat.simps [simp del]

primrec parse_acc :: "string \<Rightarrow> nat \<Rightarrow> nat option" where
  "parse_acc [] acc = Some acc"
| "parse_acc (c # cs) acc =
     (case digit_val c of None \<Rightarrow> None | Some d \<Rightarrow> parse_acc cs (10 * acc + d))"

definition parse_digits :: "string \<Rightarrow> nat option" where
  "parse_digits s = (if s = [] then None else parse_acc s 0)"

definition i64_to_string :: "i64 \<Rightarrow> string" where
  "i64_to_string v = (if v < 0 then CHR ''-'' # dec_nat (nat (- v)) else dec_nat (nat v))"

text \<open>\<open>s.parse::<i64>()\<close>\<close>

definition parse_i64 :: "string \<Rightarrow> i64 option" where
  "parse_i64 s =
     (case s of
        [] \<Rightarrow> None
      | c # cs \<Rightarrow>
          (if c = CHR ''-''
           then (case parse_digits cs of None \<Rightarrow> None
                 | Some n \<Rightarrow> if i64_min \<le> - int n then Some (- int n) else None)
           else (case parse_digits (if c = CHR ''+'' then cs else s) of None \<Rightarrow> None
                 | Some n \<Rightarrow> if int n \<le> i64_max then Some (int n) else None)))"

text \<open>\<open>s.parse::<usize>()\<close> on a 64-bit target.\<close>

definition parse_usize :: "string \<Rightarrow> nat option" where
  "parse_usize s =
     (case s of
        [] \<Rightarrow> None
      | c # cs \<Rightarrow>
          (case parse_digits (if c = CHR ''+'' then cs else s) of None \<Rightarrow> None
           | Some n \<Rightarrow> if n < 2 ^ 64 then Some n else None))"

lemma digit_val_char [simp]: "d < 10 \<Longrightarrow> digit_val (digit_char d) = Some d"
  by (simp add: digit_val_def digit_char_def)

lemma digit_char_not_sign: "d < 10 \<Longrightarrow> digit_char d \<noteq> CHR ''-'' \<and> digit_char d \<noteq> CHR ''+''"
  using digit_val_char [of d] by (auto simp: digit_val_def)

lemma parse_acc_append:
  "parse_acc (xs @ ys) acc = (case parse_acc xs acc of None \<Rightarrow> None | Some n \<Rightarrow> parse_acc ys n)"
  by (induction xs arbitrary: acc) (auto split: option.splits)

lemma parse_acc_dec_nat: "parse_acc (dec_nat n) 0 = Some n"
proof (induction n rule: dec_nat.induct)
  case (1 n)
  show ?case
  proof (cases "n < 10")
    case True
    then show ?thesis by (subst dec_nat.simps) simp
  next
    case False
    with 1 show ?thesis by (subst dec_nat.simps) (simp add: parse_acc_append)
  qed
qed

lemma dec_nat_Cons: "\<exists>d cs. d < 10 \<and> dec_nat n = digit_char d # cs"
proof (induction n rule: dec_nat.induct)
  case (1 n)
  show ?case
  proof (cases "n < 10")
    case True
    then show ?thesis by (subst dec_nat.simps) auto
  next
    case False
    with 1 obtain d cs where "d < 10" "dec_nat (n div 10) = digit_char d # cs" by blast
    with False show ?thesis by (subst dec_nat.simps) auto
  qed
qed

lemma dec_nat_not_Nil [simp]: "dec_nat n \<noteq> []"
  using dec_nat_Cons [of n] by auto

lemma parse_digits_dec_nat [simp]: "parse_digits (dec_nat n) = Some n"
  by (simp add: parse_digits_def parse_acc_dec_nat)

lemma dec_nat_inj: "dec_nat m = dec_nat n \<longleftrightarrow> m = n"
  by (metis option.inject parse_digits_dec_nat)

lemma parse_i64_to_string:
  assumes "in_i64 v"
  shows "parse_i64 (i64_to_string v) = Some v"
proof (cases "v < 0")
  case True
  with assms show ?thesis by (simp add: parse_i64_def i64_to_string_def in_i64_def)
next
  case False
  obtain d cs where d: "d < 10" and cs: "dec_nat (nat v) = digit_char d # cs"
    using dec_nat_Cons by blast
  from cs have "parse_digits (digit_char d # cs) = Some (nat v)"
    by (metis parse_digits_dec_nat)
  with False assms cs digit_char_not_sign [OF d] show ?thesis
    by (simp add: parse_i64_def i64_to_string_def in_i64_def)
qed

lemma parse_i64_range: "parse_i64 s = Some v \<Longrightarrow> in_i64 v"
  by (auto simp: parse_i64_def rust_arith split: list.splits if_splits option.splits)

lemma i64_to_string_inj:
  "in_i64 a \<Longrightarrow> in_i64 b \<Longrightarrow> i64_to_string a = i64_to_string b \<longleftrightarrow> a = b"
  by (metis option.inject parse_i64_to_string)

section \<open>Prefixes, case and splitting\<close>

definition starts_with :: "string \<Rightarrow> string \<Rightarrow> bool" where
  "starts_with p s \<longleftrightarrow> take (length p) s = p"

definition strip_prefix :: "string \<Rightarrow> string \<Rightarrow> string option" where
  "strip_prefix p s = (if starts_with p s then Some (drop (length p) s) else None)"

text \<open>\<open>s.trim_start_matches("0x")\<close> removes every leading \<open>0x\<close>, not only the first.\<close>

fun trim_start_0x :: "string \<Rightarrow> string" where
  "trim_start_0x (a # b # cs) =
     (if a = CHR ''0'' \<and> b = CHR ''x'' then trim_start_0x cs else a # b # cs)"
| "trim_start_0x s = s"

definition lower_char :: "char \<Rightarrow> char" where
  "lower_char c = (let k = of_char c in
     if 65 \<le> k \<and> k \<le> (90::nat) then char_of (k + 32) else c)"

definition to_lowercase :: "string \<Rightarrow> string" where
  "to_lowercase s = map lower_char s"

definition is_space :: "char \<Rightarrow> bool" where
  "is_space c = (let k = of_char c in k = (32::nat) \<or> (9 \<le> k \<and> k \<le> 13))"

definition trim :: "string \<Rightarrow> string" where
  "trim s = rev (dropWhile is_space (rev (dropWhile is_space s)))"

definition trim_end_slash :: "string \<Rightarrow> string" where
  "trim_end_slash s = rev (dropWhile (\<lambda>c. c = CHR ''/'') (rev s))"

text \<open>\<open>s.split(sep)\<close>: one piece more than separators, so never empty.\<close>

fun split_on :: "char \<Rightarrow> string \<Rightarrow> string list" where
  "split_on sep [] = [[]]"
| "split_on sep (c # cs) =
     (if c = sep then [] # split_on sep cs
      else (case split_on sep cs of [] \<Rightarrow> [[c]] | p # ps \<Rightarrow> (c # p) # ps))"

lemma starts_with_append [simp]: "starts_with p (p @ s)"
  by (simp add: starts_with_def)

lemma strip_prefix_append [simp]: "strip_prefix p (p @ s) = Some s"
  by (simp add: strip_prefix_def)

lemma lower_char_idem [simp]: "lower_char (lower_char c) = lower_char c"
proof (cases "65 \<le> (of_char c :: nat) \<and> (of_char c :: nat) \<le> 90")
  case True
  then show ?thesis by (simp add: lower_char_def Let_def)
next
  case False
  then show ?thesis by (auto simp: lower_char_def Let_def)
qed

lemma to_lowercase_idem [simp]: "to_lowercase (to_lowercase s) = to_lowercase s"
  by (simp add: to_lowercase_def)

lemma length_to_lowercase [simp]: "length (to_lowercase s) = length s"
  by (simp add: to_lowercase_def)

lemma trim_start_0x_prefixed [simp]: "trim_start_0x (''0x'' @ s) = trim_start_0x s"
  by simp

lemma trim_start_0x_id:
  "\<not> starts_with ''0x'' s \<Longrightarrow> trim_start_0x s = s"
  by (cases s rule: trim_start_0x.cases) (auto simp: starts_with_def)

end
