(* ===== verification/Externals.thy ===== *)
theory Externals
  imports Rust_Text
begin

text \<open>
  Functions of third-party crates that the indexer calls. They are parameters of the model: every
  definition that uses one takes the record \<open>ext\<close>. What the code relies on is collected in
  \<open>hex_laws\<close>, \<open>be_laws\<close> and \<open>dec_laws\<close>; \<open>ext_ref\<close> is a concrete instance that satisfies them,
  used where a theorem is applied to concrete data.

  \<^item> \<open>hex_encode\<close>, \<open>hex_decode\<close>: \<open>hex::encode\<close> and \<open>hex::decode(..).ok()\<close>;
  \<^item> \<open>u256_from_be_slice\<close>: \<open>U256::from_be_slice\<close> on at most 32 bytes;
  \<^item> \<open>u256_to_string\<close>, \<open>u256_from_dec\<close>: the \<open>Display\<close> of \<open>U256\<close> and
    \<open>U256::from_str_radix(s, 10)\<close>.
\<close>

record ext =
  hex_encode :: "u8 list \<Rightarrow> string"
  hex_decode :: "string \<Rightarrow> u8 list option"
  u256_from_be_slice :: "u8 list \<Rightarrow> u256"
  u256_to_string :: "u256 \<Rightarrow> string"
  u256_from_dec :: "string \<Rightarrow> string + u256"

text \<open>Big-endian bytes of a number, as the EVM encodes a 256-bit word.\<close>

primrec be_bytes :: "nat \<Rightarrow> nat \<Rightarrow> u8 list" where
  "be_bytes 0 v = []"
| "be_bytes (Suc k) v = be_bytes k (v div 256) @ [of_nat (v mod 256)]"

definition be_nat :: "u8 list \<Rightarrow> nat" where
  "be_nat bs = foldl (\<lambda>n b. 256 * n + unat b) 0 bs"

definition u256_to_be_bytes :: "u256 \<Rightarrow> u8 list" where
  "u256_to_be_bytes w = be_bytes 32 (unat w)"

definition is_lower_hex :: "char \<Rightarrow> bool" where
  "is_lower_hex c \<longleftrightarrow> c \<in> set ''0123456789abcdef''"

text \<open>Two lowercase hex digits per byte, in order, and decoding undoes encoding.\<close>

definition hex_laws :: "ext \<Rightarrow> bool" where
  "hex_laws x \<longleftrightarrow>
     (\<forall>bs. hex_decode x (hex_encode x bs) = Some bs) \<and>
     (\<forall>bs. length (hex_encode x bs) = 2 * length bs) \<and>
     (\<forall>bs. list_all is_lower_hex (hex_encode x bs)) \<and>
     (\<forall>as bs. hex_encode x (as @ bs) = hex_encode x as @ hex_encode x bs)"

definition be_laws :: "ext \<Rightarrow> bool" where
  "be_laws x \<longleftrightarrow> (\<forall>w. u256_from_be_slice x (u256_to_be_bytes w) = w)"

definition dec_laws :: "ext \<Rightarrow> bool" where
  "dec_laws x \<longleftrightarrow>
     (\<forall>w. u256_to_string x w = dec_nat (unat w)) \<and>
     (\<forall>w. u256_from_dec x (dec_nat (unat w)) = Inr w)"

section \<open>A reference instance\<close>

definition nibble_char :: "nat \<Rightarrow> char" where
  "nibble_char n = ''0123456789abcdef'' ! n"

definition nibble_val :: "char \<Rightarrow> nat option" where
  "nibble_val c = (let k = of_char c in
     if 48 \<le> k \<and> k \<le> (57::nat) then Some (k - 48)
     else if 97 \<le> k \<and> k \<le> 102 then Some (k - 87)
     else if 65 \<le> k \<and> k \<le> 70 then Some (k - 55) else None)"

definition hex_byte :: "u8 \<Rightarrow> string" where
  "hex_byte b = [nibble_char (unat b div 16), nibble_char (unat b mod 16)]"

fun hex_decode_ref :: "string \<Rightarrow> u8 list option" where
  "hex_decode_ref [] = Some []"
| "hex_decode_ref [c] = None"
| "hex_decode_ref (c # d # cs) =
     (case (nibble_val c, nibble_val d, hex_decode_ref cs) of
        (Some h, Some l, Some bs) \<Rightarrow> Some (of_nat (16 * h + l) # bs)
      | _ \<Rightarrow> None)"

definition u256_from_dec_ref :: "string \<Rightarrow> string + u256" where
  "u256_from_dec_ref s =
     (case parse_digits s of
        None \<Rightarrow> Inl ''invalid digit''
      | Some n \<Rightarrow> if n < 2 ^ 256 then Inr (of_nat n) else Inl ''number too large'')"

definition ext_ref :: ext where
  "ext_ref = \<lparr>hex_encode = (\<lambda>bs. concat (map hex_byte bs)), hex_decode = hex_decode_ref,
     u256_from_be_slice = (\<lambda>bs. of_nat (be_nat bs)), u256_to_string = (\<lambda>w. dec_nat (unat w)),
     u256_from_dec = u256_from_dec_ref\<rparr>"

lemma nibble_cases: "n < 16 \<Longrightarrow> n \<in> {0,1,2,3,4,5,6,7,8,9,10,11,12,13,14,15::nat}"
  by (simp, arith)

lemma nibble_roundtrip: "n < 16 \<Longrightarrow> nibble_val (nibble_char n) = Some n"
  by (drule nibble_cases) (auto simp: nibble_val_def nibble_char_def)

lemma nibble_lower: "n < 16 \<Longrightarrow> is_lower_hex (nibble_char n)"
  by (drule nibble_cases) (auto simp: is_lower_hex_def nibble_char_def)

lemma unat_u8_bound: "unat (b :: u8) < 256"
  using unsigned_less [where ?'a = nat, of b] by simp

lemma byte_nibbles: "unat (b :: u8) div 16 < 16" "unat (b :: u8) mod 16 < 16"
  using unat_u8_bound [of b] by auto

lemma byte_recombine: "(of_nat (16 * (unat (b::u8) div 16) + unat b mod 16) :: u8) = b"
proof -
  have "16 * (unat b div 16) + unat b mod 16 = unat b"
    by simp
  then show ?thesis
    by simp
qed

lemma hex_decode_ref_encode: "hex_decode_ref (concat (map hex_byte bs)) = Some bs"
  by (induction bs) (simp_all add: hex_byte_def nibble_roundtrip byte_nibbles byte_recombine
      del: of_nat_add of_nat_mult)

lemma ext_ref_hex: "hex_laws ext_ref"
  unfolding hex_laws_def
proof (intro conjI allI)
  fix bs :: "u8 list"
  show "hex_decode ext_ref (hex_encode ext_ref bs) = Some bs"
    by (simp add: ext_ref_def hex_decode_ref_encode)
  show "length (hex_encode ext_ref bs) = 2 * length bs"
    by (simp add: ext_ref_def length_concat hex_byte_def comp_def sum_list_triv)
  show "list_all is_lower_hex (hex_encode ext_ref bs)"
    by (auto simp: ext_ref_def list_all_iff hex_byte_def intro: nibble_lower byte_nibbles)
  show "hex_encode ext_ref (as @ bs) = hex_encode ext_ref as @ hex_encode ext_ref bs" for as
    by (simp add: ext_ref_def)
qed

lemma unat_of_nat_mod_256: "unat (of_nat (v mod 256) :: u8) = v mod 256"
  by (simp add: unat_of_nat)

lemma be_nat_be_bytes: "be_nat (be_bytes k v) = v mod 256 ^ k"
proof (induction k arbitrary: v)
  case 0
  then show ?case by (simp add: be_nat_def)
next
  case (Suc k)
  have "be_nat (be_bytes (Suc k) v) = 256 * be_nat (be_bytes k (v div 256)) + v mod 256"
    by (simp add: be_nat_def unat_of_nat_mod_256)
  also have "\<dots> = v mod (256 * 256 ^ k)"
    by (simp add: Suc.IH mod_mult2_eq)
  finally show ?case by simp
qed

lemma length_be_bytes [simp]: "length (be_bytes k v) = k"
  by (induction k arbitrary: v) simp_all

lemma unat_u256_bound: "unat (w :: u256) < 2 ^ 256"
  using unsigned_less [where ?'a = nat, of w] by simp

lemma ext_ref_be: "be_laws ext_ref"
proof -
  have "be_nat (u256_to_be_bytes w) = unat w" for w
    using unat_u256_bound [of w] by (simp add: u256_to_be_bytes_def be_nat_be_bytes)
  then show ?thesis
    by (simp add: be_laws_def ext_ref_def)
qed

lemma ext_ref_dec: "dec_laws ext_ref"
  using unat_u256_bound by (simp add: dec_laws_def ext_ref_def u256_from_dec_ref_def)

section \<open>Consequences of the laws\<close>

lemma hex_decode_encode: "hex_laws x \<Longrightarrow> hex_decode x (hex_encode x bs) = Some bs"
  and length_hex_encode: "hex_laws x \<Longrightarrow> length (hex_encode x bs) = 2 * length bs"
  and hex_encode_append: "hex_laws x \<Longrightarrow> hex_encode x (as @ bs) = hex_encode x as @ hex_encode x bs"
  and hex_encode_lower: "hex_laws x \<Longrightarrow> c \<in> set (hex_encode x bs) \<Longrightarrow> is_lower_hex c"
  by (auto simp: hex_laws_def list_all_iff)

lemma hex_encode_inj: "hex_laws x \<Longrightarrow> hex_encode x as = hex_encode x bs \<longleftrightarrow> as = bs"
  by (metis hex_decode_encode option.inject)

lemma hex_encode_no_0x:
  assumes "hex_laws x"
  shows "trim_start_0x (hex_encode x bs) = hex_encode x bs"
proof (rule trim_start_0x_id)
  show "\<not> starts_with ''0x'' (hex_encode x bs)"
  proof
    assume "starts_with ''0x'' (hex_encode x bs)"
    then have "CHR ''x'' \<in> set (hex_encode x bs)"
      by (cases "hex_encode x bs" rule: trim_start_0x.cases) (auto simp: starts_with_def)
    with assms have "is_lower_hex CHR ''x''" by (rule hex_encode_lower)
    then show False by (simp add: is_lower_hex_def)
  qed
qed

lemma length_u256_to_be_bytes [simp]: "length (u256_to_be_bytes w) = 32"
  by (simp add: u256_to_be_bytes_def)

end
