(* ===== verification/Postgres.thy ===== *)
theory Postgres
  imports Externals
begin

text \<open>
  The database the indexer writes: the tables of \<open>crates/db/migrations\<close> as lists of rows, the
  constraint checks a statement runs into, and the way a statement, a transaction and a commit can
  fail from the client's point of view.

  A statement is a function of the database. It fails as a whole: only the identity sequences keep
  what a failed statement or a rolled-back transaction drew from them. Transactions run one after
  the other; the order in which several writers commit is the order of the model's steps.

  Lengths of \<open>varchar(n)\<close> columns are counted in bytes; no value written here ends in spaces, so
  PostgreSQL's truncation of trailing spaces is left out. The columns \<open>balance_cached\<close> and
  \<open>nonce\<close> of \<open>addresses\<close> and the tables \<open>validators\<close>, \<open>epochs\<close> and \<open>contracts\<close> are never
  written by the code.
\<close>

section \<open>Rows\<close>

datatype json =
    JNull | JBool bool | JNumber int | JString string
  | JArray "json list" | JObject "(string \<times> json) list"

record block_row =
  br_height :: i64
  br_hash :: string
  br_parent_hash :: string
  br_timestamp :: i64
  br_validator :: string
  br_gas_used :: i64
  br_gas_limit :: i64
  br_base_fee :: "int option"
  br_tx_count :: i32
  br_state_root :: "string option"
  br_round :: i32
  br_signers :: json

record tx_row =
  tr_hash :: string
  tr_block_height :: i64
  tr_tx_index :: i32
  tr_from_addr :: string
  tr_to_addr :: "string option"
  tr_value :: int
  tr_gas_limit :: i64
  tr_gas_used :: "i64 option"
  tr_gas_price :: "int option"
  tr_fee :: int
  tr_nonce :: i64
  tr_data :: "string option"
  tr_status :: i16
  tr_contract_address :: "string option"
  tr_tx_type :: string

record log_row =
  lr_block_height :: i64
  lr_tx_hash :: string
  lr_log_index :: i32
  lr_address :: string
  lr_topic0 :: "string option"
  lr_topic1 :: "string option"
  lr_topic2 :: "string option"
  lr_topic3 :: "string option"
  lr_data :: "string option"

record transfer_row =
  fr_id :: i64
  fr_block_height :: i64
  fr_tx_hash :: string
  fr_log_index :: i32
  fr_contract :: string
  fr_standard :: string
  fr_from_addr :: string
  fr_to_addr :: string
  fr_token_id :: "int option"
  fr_amount :: int

record address_row =
  ar_address :: string
  ar_first_seen :: i64
  ar_last_seen :: i64
  ar_is_contract :: bool
  ar_code_hash :: "string option"

record meta_row =
  mr_key :: string
  mr_value :: string
  mr_updated_at :: i64

record cb_token_row =
  ct_curve :: string
  ct_token :: string
  ct_owner :: string
  ct_name :: string
  ct_symbol :: string
  ct_supply :: int
  ct_threshold :: int
  ct_graduated :: bool
  ct_created_block :: i64
  ct_created_tx :: string
  ct_volume :: int
  ct_trade_count :: i32
  ct_last_price :: int

record cb_trade_row =
  cr_id :: i64
  cr_curve :: string
  cr_token :: "string option"
  cr_type :: string
  cr_trader :: string
  cr_srx :: int
  cr_tokens :: int
  cr_fee :: int
  cr_block :: i64
  cr_tx_hash :: string
  cr_log_index :: i32

record db =
  tbl_blocks :: "block_row list"
  tbl_txs :: "tx_row list"
  tbl_logs :: "log_row list"
  tbl_transfers :: "transfer_row list"
  tbl_addresses :: "address_row list"
  tbl_meta :: "meta_row list"
  tbl_cb_tokens :: "cb_token_row list"
  tbl_cb_trades :: "cb_trade_row list"
  transfers_seq :: nat
  trades_seq :: nat

definition empty_db :: db where
  "empty_db = \<lparr>tbl_blocks = [], tbl_txs = [], tbl_logs = [], tbl_transfers = [], tbl_addresses = [],
     tbl_meta = [], tbl_cb_tokens = [], tbl_cb_trades = [], transfers_seq = 0, trades_seq = 0\<rparr>"

section \<open>Errors\<close>

datatype pg_error =
    StringTruncation | UniqueViolation | ForeignKeyViolation | NumericOutOfRange
  | CardinalityViolation | InvalidTextRepresentation | InvalidLimit

datatype sqlx_error = SqlxDatabase pg_error | SqlxDecode string | SqlxIo

datatype db_error = DbSqlx sqlx_error | DbMigrate string

section \<open>Statements\<close>

definition varchar_fits :: "nat \<Rightarrow> string \<Rightarrow> bool" where
  "varchar_fits n s \<longleftrightarrow> length s \<le> n"

definition opt_fits :: "nat \<Rightarrow> string option \<Rightarrow> bool" where
  "opt_fits n v = (case v of None \<Rightarrow> True | Some s \<Rightarrow> varchar_fits n s)"

definition numeric_fits :: "int \<Rightarrow> bool" where
  "numeric_fits v \<longleftrightarrow> \<bar>v\<bar> < 10 ^ 78"

text \<open>
  One row of \<open>INSERT .. ON CONFLICT (..) DO NOTHING\<close>: the row is built (length checks), a row that
  hits the arbiter index is skipped, any other unique index raises, foreign keys are checked on the
  row that was added. The flag tells whether a row was added.
\<close>

definition insert_do_nothing :: "('r \<Rightarrow> bool) \<Rightarrow> ('r \<Rightarrow> 'r \<Rightarrow> bool) \<Rightarrow> ('r \<Rightarrow> 'r \<Rightarrow> bool) \<Rightarrow>
    ('r \<Rightarrow> bool) \<Rightarrow> 'r \<Rightarrow> 'r list \<Rightarrow> pg_error + ('r list \<times> bool)" where
  "insert_do_nothing fits arbiter unique fk r rows =
     (if \<not> fits r then Inl StringTruncation
      else if list_ex (arbiter r) rows then Inr (rows, False)
      else if list_ex (unique r) rows then Inl UniqueViolation
      else if \<not> fk r then Inl ForeignKeyViolation
      else Inr (rows @ [r], True))"

text \<open>A failed statement or a rollback restores every table and leaves the sequences advanced.\<close>

definition restore :: "db \<Rightarrow> db \<Rightarrow> db" where
  "restore old new = old\<lparr>transfers_seq := transfers_seq new, trades_seq := trades_seq new\<rparr>"

definition statement :: "(db, 'e, 'a) io \<Rightarrow> (db, 'e, 'a) io" where
  "statement m d = (case m d of (Inl e, d') \<Rightarrow> (Inl e, restore d d') | (Inr x, d') \<Rightarrow> (Inr x, d'))"

section \<open>The client's view\<close>

text \<open>
  Every request to the server (a statement, \<open>BEGIN\<close>, \<open>COMMIT\<close>) consumes one outcome of the
  connection: \<open>Done\<close>, \<open>Refused\<close> (it did not reach the server) or \<open>AckLost\<close> (it ran, but the
  client sees an I/O error). An exhausted list means that every further request is answered.
\<close>

datatype pg_outcome = Done | Refused | AckLost

record world =
  w_db :: db
  w_net :: "pg_outcome list"

definition request :: "(db, sqlx_error, 'a) io \<Rightarrow> ('z world_scheme, sqlx_error, 'a) io" where
  "request m w =
     (case w_net w of
        Refused # ns \<Rightarrow> (Inl SqlxIo, w\<lparr>w_net := ns\<rparr>)
      | AckLost # ns \<Rightarrow> (Inl SqlxIo, w\<lparr>w_db := snd (statement m (w_db w)), w_net := ns\<rparr>)
      | ns \<Rightarrow> (case statement m (w_db w) of (r, d) \<Rightarrow> (r, w\<lparr>w_db := d, w_net := tl ns\<rparr>)))"

text \<open>
  \<open>pool.begin()\<close>, the body, \<open>tx.commit()\<close>. An error of the body drops the transaction, which rolls
  back; so does a commit that never reached the server. A commit whose answer is lost is durable,
  although the caller gets an error.
\<close>

definition finish :: "(sqlx_error \<Rightarrow> 'e) \<Rightarrow> ('z world_scheme, 'e, 'a) io \<Rightarrow>
    ('z world_scheme, 'e, 'a) io" where
  "finish from body w =
     (case body w of
        (Inl e, w') \<Rightarrow> (Inl e, w'\<lparr>w_db := restore (w_db w) (w_db w')\<rparr>)
      | (Inr x, w') \<Rightarrow>
          (case w_net w' of
             Refused # ns \<Rightarrow>
               (Inl (from SqlxIo), w'\<lparr>w_db := restore (w_db w) (w_db w'), w_net := ns\<rparr>)
           | AckLost # ns \<Rightarrow> (Inl (from SqlxIo), w'\<lparr>w_net := ns\<rparr>)
           | ns \<Rightarrow> (Inr x, w'\<lparr>w_net := tl ns\<rparr>)))"

definition transaction :: "(sqlx_error \<Rightarrow> 'e) \<Rightarrow> ('z world_scheme, 'e, 'a) io \<Rightarrow>
    ('z world_scheme, 'e, 'a) io" where
  "transaction from body = bind_io (map_err_io from (request (ret_io ()))) (\<lambda>_. finish from body)"

section \<open>Facts\<close>

lemma insert_do_nothing_Inr:
  "insert_do_nothing fits arb uniq fk r rows = Inr (rows', ins) \<longleftrightarrow>
     fits r \<and> (if list_ex (arb r) rows then rows' = rows \<and> \<not> ins
               else \<not> list_ex (uniq r) rows \<and> fk r \<and> rows' = rows @ [r] \<and> ins)"
  by (auto simp: insert_do_nothing_def)

lemma restore_tables [simp]:
  "tbl_blocks (restore d d') = tbl_blocks d" "tbl_txs (restore d d') = tbl_txs d"
  "tbl_logs (restore d d') = tbl_logs d" "tbl_transfers (restore d d') = tbl_transfers d"
  "tbl_addresses (restore d d') = tbl_addresses d" "tbl_meta (restore d d') = tbl_meta d"
  "tbl_cb_tokens (restore d d') = tbl_cb_tokens d" "tbl_cb_trades (restore d d') = tbl_cb_trades d"
  by (simp_all add: restore_def)

lemma restore_restore [simp]: "restore (restore a b) c = restore a c" "restore a (restore b c) = restore a c"
  by (simp_all add: restore_def)

lemma restore_self [simp]: "restore d d = d"
  by (simp add: restore_def)

lemma statement_Inr: "statement m d = (Inr x, d') \<longleftrightarrow> m d = (Inr x, d')"
  by (auto simp: statement_def split: prod.splits sum.splits)

lemma statement_Inl: "statement m d = (Inl e, d') \<Longrightarrow> \<exists>d1. m d = (Inl e, d1) \<and> d' = restore d d1"
  by (auto simp: statement_def split: prod.splits sum.splits)

lemma request_Inr:
  assumes "request m w = (Inr x, w')"
  shows "m (w_db w) = (Inr x, w_db w')" "w' = w\<lparr>w_db := w_db w', w_net := tl (w_net w)\<rparr>"
  using assms
  by (auto simp: request_def statement_def
      split: list.splits pg_outcome.splits prod.splits sum.splits)

lemma request_no_faults [io_simps]:
  assumes "w_net w = []"
  shows "request m w = (fst (statement m (w_db w)), w\<lparr>w_db := snd (statement m (w_db w))\<rparr>)"
  using assms by (cases "statement m (w_db w)") (simp add: request_def)

text \<open>
  A property of the database that only reads the tables survives rollbacks; then it survives a
  statement and a transaction whose parts keep it. This is how every invariant of the schema is
  carried from single rows to whole operations.
\<close>

locale db_invariant =
  fixes Q :: "db \<Rightarrow> bool"
  assumes restored: "Q d \<Longrightarrow> Q (restore d d')"
begin

lemma keeps_statement: "keeps Q m \<Longrightarrow> keeps Q (statement m)"
  by (auto simp: keeps_def statement_def restored split: prod.splits sum.splits)

lemma keeps_request:
  assumes "keeps Q m"
  shows "keeps (\<lambda>w. Q (w_db w)) (request m)"
proof (rule keepsI)
  fix w :: "'b world_scheme"
  assume "Q (w_db w)"
  with keepsD [OF keeps_statement [OF assms]] have "Q (snd (statement m (w_db w)))" .
  then show "Q (w_db (snd (request m w)))"
    using \<open>Q (w_db w)\<close>
    by (auto simp: request_def split: list.splits pg_outcome.splits prod.splits)
qed

lemma keeps_transaction:
  fixes body :: "('b world_scheme, 'e, 'a) io"
  assumes "keeps (\<lambda>w. Q (w_db w)) body"
  shows "keeps (\<lambda>w. Q (w_db w)) (transaction from body)"
proof -
  have "keeps (\<lambda>w. Q (w_db w)) (finish from body)"
  proof (rule keepsI)
    fix w :: "'b world_scheme"
    assume Q: "Q (w_db w)"
    obtain r w' where b: "body w = (r, w')"
      by fastforce
    then have "Q (w_db w')"
      using keepsD [OF assms Q] by simp
    with Q b show "Q (w_db (snd (finish from body w)))"
      by (auto simp: finish_def restored split: sum.splits list.splits pg_outcome.splits)
  qed
  then show ?thesis
    unfolding transaction_def
    by (intro keeps_bind keeps_map_err keeps_request keeps_ret)
qed

end

text \<open>What a transaction leaves behind, from its result alone.\<close>

lemma finish_cases:
  assumes "finish from body w = (r, w')"
  obtains (rolled_back) d' where "w_db w' = restore (w_db w) d'" "\<exists>e. r = Inl e"
    | (committed) x w1 where "body w = (Inr x, w1)" "w_db w' = w_db w1"
        "r = Inr x \<or> (\<exists>e. r = Inl e)"
proof -
  obtain rb w1 where body: "body w = (rb, w1)"
    by fastforce
  consider e where "rb = Inl e" | x ns where "rb = Inr x" "w_net w1 = Refused # ns"
    | x where "rb = Inr x" "\<forall>ns. w_net w1 \<noteq> Refused # ns"
    by (cases rb) auto
  then show thesis
  proof cases
    case (1 e)
    with assms body show thesis
      by (intro rolled_back [of "w_db w1"]) (auto simp: finish_def)
  next
    case (2 x ns)
    with assms body show thesis
      by (intro rolled_back [of "w_db w1"]) (auto simp: finish_def)
  next
    case (3 x)
    with assms body show thesis
      by (intro committed [of x w1])
        (auto simp: finish_def split: list.splits pg_outcome.splits)
  qed
qed

lemma begin_Inr:
  assumes "request (ret_io ()) w = (Inr u, w0)"
  shows "w0 = w\<lparr>w_net := tl (w_net w)\<rparr>"
proof -
  have "w_db w0 = w_db w"
    using request_Inr(1) [OF assms] by (simp add: ret_io_def)
  with request_Inr(2) [OF assms] show ?thesis
    by simp
qed

lemma begin_Inl: "request (ret_io ()) w = (Inl e, w0) \<Longrightarrow> w_db w0 = w_db w"
  by (auto simp: request_def statement_def ret_io_def split: list.splits pg_outcome.splits)

lemma transaction_cases:
  assumes "transaction from body w = (r, w')"
  obtains (rolled_back) d' where "w_db w' = restore (w_db w) d'" "\<exists>e. r = Inl e"
    | (committed) x w1 where "body (w\<lparr>w_net := tl (w_net w)\<rparr>) = (Inr x, w1)" "w_db w' = w_db w1"
        "r = Inr x \<or> (\<exists>e. r = Inl e)"
proof -
  obtain r0 w0 where start: "request (ret_io ()) w = (r0, w0)"
    by fastforce
  show thesis
  proof (cases r0)
    case (Inl e)
    with start have "w_db w0 = w_db w" by (auto dest: begin_Inl)
    with assms start Inl show thesis
      by (intro rolled_back [of "w_db w"]) (auto simp: transaction_def bind_io_def map_err_io_def)
  next
    case (Inr u)
    with start have w0: "w0 = w\<lparr>w_net := tl (w_net w)\<rparr>" by (simp add: begin_Inr)
    from assms start Inr have "finish from body w0 = (r, w')"
      by (simp add: transaction_def bind_io_def map_err_io_def)
    then show thesis
    proof (cases rule: finish_cases)
      case (rolled_back d')
      with w0 that(1) show thesis by simp
    next
      case (committed x w1)
      with w0 that(2) show thesis by simp
    qed
  qed
qed

lemma transaction_Inr:
  assumes "transaction from body w = (Inr x, w')"
  shows "\<exists>w1. body (w\<lparr>w_net := tl (w_net w)\<rparr>) = (Inr x, w1) \<and> w_db w' = w_db w1"
  using assms by (cases rule: transaction_cases) auto

lemma transaction_no_faults:
  assumes "w_net w = []" "body w = (Inr x, w1)" "w_net w1 = []"
  shows "transaction from body w = (Inr x, w1)"
  using assms
  by (simp add: transaction_def finish_def bind_io_def map_err_io_def request_no_faults
      statement_def ret_io_def)

section \<open>Operations against their specification\<close>

text \<open>
  \<open>implements m a\<close>: the client operation \<open>m\<close>, with everything that can happen on the wire, does
  what the database program \<open>a\<close> says. If \<open>m\<close> returns, \<open>a\<close> returns the same value and leaves the
  same database; if the connection has no faults left, whatever \<open>a\<close> returns \<open>m\<close> returns.
\<close>

named_theorems implements_intros

definition implements :: "('z world_scheme, 'e, 'a) io \<Rightarrow> (db, 'e, 'a) io \<Rightarrow> bool" where
  "implements m a \<longleftrightarrow>
     (\<forall>w x w'. m w = (Inr x, w') \<longrightarrow>
        a (w_db w) = (Inr x, w_db w') \<and> w' = w\<lparr>w_db := w_db w', w_net := w_net w'\<rparr>) \<and>
     (\<forall>w x d. w_net w = [] \<longrightarrow> a (w_db w) = (Inr x, d) \<longrightarrow> m w = (Inr x, w\<lparr>w_db := d\<rparr>))"

lemma implementsD:
  assumes "implements m a" "m w = (Inr x, w')"
  shows "a (w_db w) = (Inr x, w_db w')" "w' = w\<lparr>w_db := w_db w', w_net := w_net w'\<rparr>"
  using assms by (auto simp: implements_def)

lemma implements_complete:
  "implements m a \<Longrightarrow> w_net w = [] \<Longrightarrow> a (w_db w) = (Inr x, d) \<Longrightarrow> m w = (Inr x, w\<lparr>w_db := d\<rparr>)"
  unfolding implements_def by blast

lemma implements_ret [implements_intros]: "implements (ret_io x) (ret_io x)"
  by (simp add: implements_def ret_io_def)

lemma implements_lift [implements_intros]: "implements (lift_io r) (lift_io r)"
  by (simp add: implements_def lift_io_def)

lemma implements_request [implements_intros]:
  "implements (request m :: ('z world_scheme, sqlx_error, 'a) io) m"
  unfolding implements_def
proof (intro conjI allI impI)
  fix w w' :: "'z world_scheme" and x
  assume r: "request m w = (Inr x, w')"
  show "m (w_db w) = (Inr x, w_db w')"
    by (rule request_Inr(1) [OF r])
  have "w_net w' = tl (w_net w)"
    using r by (auto simp: request_def split: list.splits pg_outcome.splits prod.splits)
  with request_Inr(2) [OF r] show "w' = w\<lparr>w_db := w_db w', w_net := w_net w'\<rparr>"
    by simp
next
  fix w :: "'z world_scheme" and x d
  assume "w_net w = []" "m (w_db w) = (Inr x, d)"
  then show "request m w = (Inr x, w\<lparr>w_db := d\<rparr>)"
    by (simp add: request_no_faults statement_def)
qed

lemma implements_map_err [implements_intros]:
  "implements m a \<Longrightarrow> implements (map_err_io g m) (map_err_io g a)"
  unfolding implements_def map_err_io_def by (auto split: prod.splits)

lemma implements_bind [implements_intros]:
  fixes m :: "('z world_scheme, 'e, 'a) io" and f :: "'a \<Rightarrow> ('z world_scheme, 'e, 'b) io"
  assumes m: "implements m a" and f: "\<And>x. implements (f x) (b x)"
  shows "implements (bind_io m f) (bind_io a b)"
  unfolding implements_def
proof (intro conjI allI impI)
  fix w w' :: "'z world_scheme" and y
  assume "bind_io m f w = (Inr y, w')"
  then obtain x w1 where 1: "m w = (Inr x, w1)" and 2: "f x w1 = (Inr y, w')"
    by (rule bind_io_InrE)
  show "bind_io a b (w_db w) = (Inr y, w_db w')"
    by (simp add: bind_io_def implementsD(1) [OF m 1] implementsD(1) [OF f 2])
  show "w' = w\<lparr>w_db := w_db w', w_net := w_net w'\<rparr>"
    using implementsD(2) [OF m 1] implementsD(2) [OF f 2]
    by (metis (no_types) world.surjective world.update_convs(1,2) world.select_convs)
next
  fix w :: "'z world_scheme" and y d
  assume net: "w_net w = []" and "bind_io a b (w_db w) = (Inr y, d)"
  then obtain x d1 where 1: "a (w_db w) = (Inr x, d1)" and 2: "b x d1 = (Inr y, d)"
    by (auto simp: bind_io_Inr)
  have "m w = (Inr x, w\<lparr>w_db := d1\<rparr>)"
    by (rule implements_complete [OF m net 1])
  moreover have "f x (w\<lparr>w_db := d1\<rparr>) = (Inr y, w\<lparr>w_db := d\<rparr>)"
    using implements_complete [OF f, of "w\<lparr>w_db := d1\<rparr>"] net 2 by simp
  ultimately show "bind_io m f w = (Inr y, w\<lparr>w_db := d\<rparr>)"
    by (simp add: bind_io_def)
qed

lemma implements_for [implements_intros]:
  "(\<And>x. implements (f x) (g x)) \<Longrightarrow> implements (for_io f xs) (for_io g xs)"
  by (induction xs) (auto intro!: implements_intros)

text \<open>A transaction whose body implements a program: all of it or nothing.\<close>

lemma transaction_atomic:
  assumes body: "implements body a"
  shows "(\<exists>d'. w_db (snd (transaction from body w)) = restore (w_db w) d' \<and>
            (\<exists>e. fst (transaction from body w) = Inl e))
       \<or> (\<exists>x. a (w_db w) = (Inr x, w_db (snd (transaction from body w))) \<and>
            (fst (transaction from body w) = Inr x \<or> (\<exists>e. fst (transaction from body w) = Inl e)))"
proof -
  obtain r w' where t: "transaction from body w = (r, w')"
    by fastforce
  then show ?thesis
  proof (cases rule: transaction_cases)
    case (rolled_back d')
    with t show ?thesis by auto
  next
    case (committed x w1)
    with t implementsD(1) [OF body committed(1)] show ?thesis by auto
  qed
qed

lemma transaction_complete:
  assumes "implements body a" "w_net w = []" "a (w_db w) = (Inr x, d)"
  shows "transaction from body w = (Inr x, w\<lparr>w_db := d\<rparr>)"
  using implements_complete [OF assms] assms(2) by (simp add: transaction_no_faults)

lemma transaction_Inr_spec:
  assumes "implements body a" "transaction from body w = (Inr x, w')"
  shows "a (w_db w) = (Inr x, w_db w')"
  using transaction_atomic [OF assms(1)] assms(2) by (metis fst_conv snd_conv Inl_Inr_False Inr_inject)

end
