(* ===== verification/Tables.thy ===== *)
theory Tables
  imports Postgres
begin

text \<open>
  The statements of the crate \<open>indexer-db\<close> that the sync core uses: \<open>blocks.rs\<close>,
  \<open>transactions.rs\<close>, \<open>logs.rs\<close>, \<open>token_transfers.rs\<close>, \<open>addresses.rs\<close> and \<open>meta.rs\<close>. A definition
  ending in \<open>_stmt\<close> is the SQL statement as a function of the database; the one without the
  suffix is the Rust function that sends it. The locale \<open>insert_table\<close> states what every
  \<open>ON CONFLICT DO NOTHING\<close> table promises and derives the laws of replaying inserts.
\<close>

section \<open>Columns\<close>

text \<open>
  \<open>Wei\<close> in a \<open>numeric(78, 0)\<close> column: its value; reading rejects negative values and values above
  the range of \<open>U256\<close>.
\<close>

definition wei_encode :: "wei \<Rightarrow> int" where
  "wei_encode v = uint (wei_val v)"

definition wei_decode :: "int \<Rightarrow> sqlx_error + wei" where
  "wei_decode v =
     (if v < 0 then Inl (SqlxDecode (''Wei is unsigned; got negative '' @ dec_nat (nat (- v))))
      else if v < 2 ^ 256 then Inr (Wei (word_of_int v))
      else Inl (SqlxDecode ''number too large to fit in target type''))"

definition wei_decode_opt :: "int option \<Rightarrow> sqlx_error + wei option" where
  "wei_decode_opt c =
     (case c of None \<Rightarrow> Inr None | Some v \<Rightarrow> bind_result (wei_decode v) (\<lambda>w. Inr (Some w)))"

definition signers_to_json :: "string list \<Rightarrow> json" where
  "signers_to_json ss = JArray (map JString ss)"

fun json_string :: "json \<Rightarrow> string option" where
  "json_string (JString s) = Some s"
| "json_string _ = None"

fun signers_of_json :: "json \<Rightarrow> string list" where
  "signers_of_json (JArray vs) = List.map_filter json_string vs"
| "signers_of_json _ = []"

definition block_to_row :: "block \<Rightarrow> block_row" where
  "block_to_row b = \<lparr>br_height = height_val (b_height b), br_hash = b_hash b,
     br_parent_hash = b_parent_hash b, br_timestamp = b_timestamp b, br_validator = b_validator b,
     br_gas_used = b_gas_used b, br_gas_limit = b_gas_limit b,
     br_base_fee = map_option wei_encode (b_base_fee b), br_tx_count = b_tx_count b,
     br_state_root = b_state_root b, br_round = b_round b,
     br_signers = signers_to_json (b_justification_signers b)\<rparr>"

definition row_to_block :: "block_row \<Rightarrow> sqlx_error + block" where
  "row_to_block r =
     bind_result (wei_decode_opt (br_base_fee r)) (\<lambda>base_fee.
       Inr \<lparr>b_height = BlockHeight (br_height r), b_hash = br_hash r,
         b_parent_hash = br_parent_hash r, b_timestamp = br_timestamp r,
         b_validator = br_validator r, b_gas_used = br_gas_used r, b_gas_limit = br_gas_limit r,
         b_base_fee = base_fee, b_tx_count = br_tx_count r, b_state_root = br_state_root r,
         b_round = br_round r, b_justification_signers = signers_of_json (br_signers r)\<rparr>)"

definition tx_to_row :: "transaction \<Rightarrow> tx_row" where
  "tx_to_row t = \<lparr>tr_hash = t_hash t, tr_block_height = height_val (t_block_height t),
     tr_tx_index = tx_index_val (t_tx_index t), tr_from_addr = t_from_addr t,
     tr_to_addr = t_to_addr t, tr_value = wei_encode (t_value t), tr_gas_limit = t_gas_limit t,
     tr_gas_used = t_gas_used t, tr_gas_price = map_option wei_encode (t_gas_price t),
     tr_fee = wei_encode (t_fee t), tr_nonce = t_nonce t, tr_data = t_data t,
     tr_status = t_status t, tr_contract_address = t_contract_address t,
     tr_tx_type = tx_type_as_str (t_tx_type t)\<rparr>"

definition tx_type_of_str :: "string \<Rightarrow> sqlx_error + tx_type" where
  "tx_type_of_str s =
     (if s = ''native'' then Inr Native
      else if s = ''evm'' then Inr Evm
      else if s = ''system'' then Inr System
      else if s = ''coinbase'' then Inr Coinbase
      else Inl (SqlxDecode (''unknown tx_type: '' @ s)))"

definition row_to_tx :: "tx_row \<Rightarrow> sqlx_error + transaction" where
  "row_to_tx r =
     bind_result (tx_type_of_str (tr_tx_type r)) (\<lambda>ty.
     bind_result (wei_decode (tr_value r)) (\<lambda>value.
     bind_result (wei_decode_opt (tr_gas_price r)) (\<lambda>gas_price.
     bind_result (wei_decode (tr_fee r)) (\<lambda>fee.
       Inr \<lparr>t_hash = tr_hash r, t_block_height = BlockHeight (tr_block_height r),
         t_tx_index = TxIndex (tr_tx_index r), t_from_addr = tr_from_addr r,
         t_to_addr = tr_to_addr r, t_value = value, t_gas_limit = tr_gas_limit r,
         t_gas_used = tr_gas_used r, t_gas_price = gas_price, t_fee = fee, t_nonce = tr_nonce r,
         t_data = tr_data r, t_status = tr_status r,
         t_contract_address = tr_contract_address r, t_tx_type = ty\<rparr>))))"

definition log_to_row :: "log \<Rightarrow> log_row" where
  "log_to_row l = \<lparr>lr_block_height = height_val (l_block_height l), lr_tx_hash = l_tx_hash l,
     lr_log_index = log_index_val (l_log_index l), lr_address = l_address l,
     lr_topic0 = l_topic0 l, lr_topic1 = l_topic1 l, lr_topic2 = l_topic2 l,
     lr_topic3 = l_topic3 l, lr_data = l_data l\<rparr>"

definition row_to_log :: "log_row \<Rightarrow> log" where
  "row_to_log r = \<lparr>l_block_height = BlockHeight (lr_block_height r), l_tx_hash = lr_tx_hash r,
     l_log_index = LogIndex (lr_log_index r), l_address = lr_address r,
     l_topic0 = lr_topic0 r, l_topic1 = lr_topic1 r, l_topic2 = lr_topic2 r,
     l_topic3 = lr_topic3 r, l_data = lr_data r\<rparr>"

text \<open>The identity column is drawn from the sequence when the row is built.\<close>

definition transfer_to_row :: "token_transfer \<Rightarrow> i64 \<Rightarrow> transfer_row" where
  "transfer_to_row t i = \<lparr>fr_id = i, fr_block_height = height_val (tt_block_height t),
     fr_tx_hash = tt_tx_hash t, fr_log_index = log_index_val (tt_log_index t),
     fr_contract = tt_contract t, fr_standard = token_standard_as_str (tt_standard t),
     fr_from_addr = tt_from_addr t, fr_to_addr = tt_to_addr t,
     fr_token_id = map_option wei_encode (tt_token_id t), fr_amount = wei_encode (tt_amount t)\<rparr>"

definition token_standard_of_str :: "string \<Rightarrow> sqlx_error + token_standard" where
  "token_standard_of_str s =
     (if s = ''erc20'' then Inr Erc20
      else if s = ''erc721'' then Inr Erc721
      else if s = ''erc1155'' then Inr Erc1155
      else Inl (SqlxDecode (''unknown token standard: '' @ s)))"

definition row_to_transfer :: "transfer_row \<Rightarrow> sqlx_error + token_transfer" where
  "row_to_transfer r =
     bind_result (token_standard_of_str (fr_standard r)) (\<lambda>st.
     bind_result (wei_decode_opt (fr_token_id r)) (\<lambda>token_id.
     bind_result (wei_decode (fr_amount r)) (\<lambda>amount.
       Inr \<lparr>tt_id = Some (fr_id r), tt_block_height = BlockHeight (fr_block_height r),
         tt_tx_hash = fr_tx_hash r, tt_log_index = LogIndex (fr_log_index r),
         tt_contract = fr_contract r, tt_standard = st, tt_from_addr = fr_from_addr r,
         tt_to_addr = fr_to_addr r, tt_token_id = token_id, tt_amount = amount\<rparr>)))"

section \<open>Inserts\<close>

definition block_fits :: "block_row \<Rightarrow> bool" where
  "block_fits r \<longleftrightarrow> varchar_fits 66 (br_hash r) \<and> varchar_fits 66 (br_parent_hash r) \<and>
     varchar_fits 42 (br_validator r) \<and> opt_fits 66 (br_state_root r)"

definition tx_fits :: "tx_row \<Rightarrow> bool" where
  "tx_fits r \<longleftrightarrow> varchar_fits 66 (tr_hash r) \<and> varchar_fits 42 (tr_from_addr r) \<and>
     opt_fits 42 (tr_to_addr r) \<and> opt_fits 42 (tr_contract_address r) \<and>
     varchar_fits 24 (tr_tx_type r)"

definition log_fits :: "log_row \<Rightarrow> bool" where
  "log_fits r \<longleftrightarrow> varchar_fits 66 (lr_tx_hash r) \<and> varchar_fits 42 (lr_address r) \<and>
     opt_fits 66 (lr_topic0 r) \<and> opt_fits 66 (lr_topic1 r) \<and> opt_fits 66 (lr_topic2 r) \<and>
     opt_fits 66 (lr_topic3 r)"

definition transfer_fits :: "transfer_row \<Rightarrow> bool" where
  "transfer_fits r \<longleftrightarrow> varchar_fits 66 (fr_tx_hash r) \<and> varchar_fits 42 (fr_contract r) \<and>
     varchar_fits 12 (fr_standard r) \<and> varchar_fits 42 (fr_from_addr r) \<and>
     varchar_fits 42 (fr_to_addr r)"

definition log_key :: "log_row \<Rightarrow> i64 \<times> i32" where
  "log_key r = (lr_block_height r, lr_log_index r)"

definition transfer_key :: "transfer_row \<Rightarrow> string \<times> i32" where
  "transfer_key r = (fr_tx_hash r, fr_log_index r)"

definition has_block :: "db \<Rightarrow> i64 \<Rightarrow> bool" where
  "has_block d h \<longleftrightarrow> list_ex (\<lambda>r. br_height r = h) (tbl_blocks d)"

definition has_tx :: "db \<Rightarrow> string \<Rightarrow> bool" where
  "has_tx d h \<longleftrightarrow> list_ex (\<lambda>r. tr_hash r = h) (tbl_txs d)"

definition block_row_insert :: "block_row \<Rightarrow> (db, sqlx_error, bool) io" where
  "block_row_insert r d =
     (case insert_do_nothing block_fits (\<lambda>x y. br_height x = br_height y)
             (\<lambda>x y. br_hash x = br_hash y) (\<lambda>_. True) r (tbl_blocks d) of
        Inl e \<Rightarrow> (Inl (SqlxDatabase e), d)
      | Inr (rows, ins) \<Rightarrow> (Inr ins, d\<lparr>tbl_blocks := rows\<rparr>))"

definition tx_row_insert :: "tx_row \<Rightarrow> (db, sqlx_error, bool) io" where
  "tx_row_insert r d =
     (case insert_do_nothing tx_fits (\<lambda>x y. tr_hash x = tr_hash y) (\<lambda>_ _. False)
             (\<lambda>x. has_block d (tr_block_height x)) r (tbl_txs d) of
        Inl e \<Rightarrow> (Inl (SqlxDatabase e), d)
      | Inr (rows, ins) \<Rightarrow> (Inr ins, d\<lparr>tbl_txs := rows\<rparr>))"

definition log_row_insert :: "log_row \<Rightarrow> (db, sqlx_error, bool) io" where
  "log_row_insert r d =
     (case insert_do_nothing log_fits (\<lambda>x y. log_key x = log_key y) (\<lambda>_ _. False)
             (\<lambda>x. has_block d (lr_block_height x) \<and> has_tx d (lr_tx_hash x)) r (tbl_logs d) of
        Inl e \<Rightarrow> (Inl (SqlxDatabase e), d)
      | Inr (rows, ins) \<Rightarrow> (Inr ins, d\<lparr>tbl_logs := rows\<rparr>))"

definition transfer_row_insert :: "(i64 \<Rightarrow> transfer_row) \<Rightarrow> (db, sqlx_error, bool) io" where
  "transfer_row_insert mk d =
     (let i = Suc (transfers_seq d); d1 = d\<lparr>transfers_seq := i\<rparr> in
      case insert_do_nothing transfer_fits (\<lambda>x y. transfer_key x = transfer_key y) (\<lambda>_ _. False)
             (\<lambda>_. True) (mk (int i)) (tbl_transfers d) of
        Inl e \<Rightarrow> (Inl (SqlxDatabase e), d1)
      | Inr (rows, ins) \<Rightarrow> (Inr ins, d1\<lparr>tbl_transfers := rows\<rparr>))"

definition exec :: "(db, sqlx_error, 'a) io \<Rightarrow> (db, sqlx_error, unit) io" where
  "exec m = bind_io m (\<lambda>_. ret_io ())"

definition blocks_insert_stmt :: "block \<Rightarrow> (db, sqlx_error, unit) io" where
  "blocks_insert_stmt b = exec (block_row_insert (block_to_row b))"

definition transactions_insert_stmt :: "transaction \<Rightarrow> (db, sqlx_error, unit) io" where
  "transactions_insert_stmt t = exec (tx_row_insert (tx_to_row t))"

definition logs_insert_stmt :: "log \<Rightarrow> (db, sqlx_error, unit) io" where
  "logs_insert_stmt l = exec (log_row_insert (log_to_row l))"

definition token_transfers_insert_stmt :: "token_transfer \<Rightarrow> (db, sqlx_error, unit) io" where
  "token_transfers_insert_stmt t = exec (transfer_row_insert (transfer_to_row t))"

text \<open>The Rust functions: one statement per call; a batch of no rows sends nothing.\<close>

definition blocks_insert :: "block \<Rightarrow> ('z world_scheme, db_error, unit) io" where
  "blocks_insert b = map_err_io DbSqlx (request (blocks_insert_stmt b))"

definition transactions_insert :: "transaction \<Rightarrow> ('z world_scheme, db_error, unit) io" where
  "transactions_insert t = map_err_io DbSqlx (request (transactions_insert_stmt t))"

definition logs_insert :: "log \<Rightarrow> ('z world_scheme, db_error, unit) io" where
  "logs_insert l = map_err_io DbSqlx (request (logs_insert_stmt l))"

definition token_transfers_insert :: "token_transfer \<Rightarrow> ('z world_scheme, db_error, unit) io" where
  "token_transfers_insert t = map_err_io DbSqlx (request (token_transfers_insert_stmt t))"

definition blocks_insert_batch :: "block list \<Rightarrow> ('z world_scheme, db_error, unit) io" where
  "blocks_insert_batch bs =
     (if bs = [] then ret_io () else map_err_io DbSqlx (request (for_io blocks_insert_stmt bs)))"

definition transactions_insert_batch :: "transaction list \<Rightarrow> ('z world_scheme, db_error, unit) io" where
  "transactions_insert_batch ts =
     (if ts = [] then ret_io ()
      else map_err_io DbSqlx (request (for_io transactions_insert_stmt ts)))"

definition logs_insert_batch :: "log list \<Rightarrow> ('z world_scheme, db_error, unit) io" where
  "logs_insert_batch ls =
     (if ls = [] then ret_io () else map_err_io DbSqlx (request (for_io logs_insert_stmt ls)))"

definition token_transfers_insert_batch ::
    "token_transfer list \<Rightarrow> ('z world_scheme, db_error, unit) io" where
  "token_transfers_insert_batch ts =
     (if ts = [] then ret_io ()
      else map_err_io DbSqlx (request (for_io token_transfers_insert_stmt ts)))"

section \<open>Addresses\<close>

text \<open>
  \<open>INSERT .. ON CONFLICT (address) DO UPDATE SET last_seen_block = GREATEST(..)\<close>. A statement that
  names an address twice is refused ("cannot affect row a second time").
\<close>

definition upsert_address_row :: "string \<times> i64 \<Rightarrow> address_row list \<Rightarrow> address_row list" where
  "upsert_address_row s rows =
     (if list_ex (\<lambda>r. ar_address r = fst s) rows
      then map (\<lambda>r. if ar_address r = fst s
                    then r\<lparr>ar_last_seen := max (ar_last_seen r) (snd s)\<rparr> else r) rows
      else rows @ [\<lparr>ar_address = fst s, ar_first_seen = snd s, ar_last_seen = snd s,
                    ar_is_contract = False, ar_code_hash = None\<rparr>])"

definition upsert_batch_stmt :: "(string \<times> i64) list \<Rightarrow> (db, sqlx_error, unit) io" where
  "upsert_batch_stmt seen d =
     (if \<not> list_all (\<lambda>s. varchar_fits 42 (fst s)) seen then (Inl (SqlxDatabase StringTruncation), d)
      else if \<not> distinct (map fst seen) then (Inl (SqlxDatabase CardinalityViolation), d)
      else (Inr (), d\<lparr>tbl_addresses := fold upsert_address_row seen (tbl_addresses d)\<rparr>))"

definition addresses_upsert_batch :: "(string \<times> i64) list \<Rightarrow> ('z world_scheme, db_error, unit) io" where
  "addresses_upsert_batch seen =
     (if seen = [] then ret_io () else map_err_io DbSqlx (request (upsert_batch_stmt seen)))"

definition classify_stmt :: "string \<Rightarrow> bool \<Rightarrow> string \<Rightarrow> (db, sqlx_error, unit) io" where
  "classify_stmt a is_contract code_hash d =
     (if list_ex (\<lambda>r. ar_address r = a) (tbl_addresses d) \<and> \<not> varchar_fits 66 code_hash
      then (Inl (SqlxDatabase StringTruncation), d)
      else (Inr (), d\<lparr>tbl_addresses :=
              map (\<lambda>r. if ar_address r = a
                       then r\<lparr>ar_is_contract := is_contract, ar_code_hash := Some code_hash\<rparr>
                       else r) (tbl_addresses d)\<rparr>))"

definition addresses_classify :: "string \<Rightarrow> bool \<Rightarrow> string \<Rightarrow> ('z world_scheme, db_error, unit) io" where
  "addresses_classify a is_contract code_hash =
     map_err_io DbSqlx (request (classify_stmt a is_contract code_hash))"

text \<open>\<open>LIMIT n\<close>; PostgreSQL refuses a negative limit.\<close>

definition limit_rows :: "i64 \<Rightarrow> 'r list \<Rightarrow> sqlx_error + 'r list" where
  "limit_rows n rows =
     (if n < 0 then Inl (SqlxDatabase InvalidLimit) else Inr (take (nat n) rows))"

definition query :: "(db \<Rightarrow> sqlx_error + 'a) \<Rightarrow> ('z world_scheme, db_error, 'a) io" where
  "query f = map_err_io DbSqlx (request (\<lambda>d. (f d, d)))"

definition unclassified_batch :: "i64 \<Rightarrow> ('z world_scheme, db_error, string list) io" where
  "unclassified_batch limit =
     query (\<lambda>d. limit_rows limit
       (map ar_address (filter (\<lambda>r. ar_code_hash r = None) (tbl_addresses d))))"

section \<open>The key/value table\<close>

definition meta_row_of :: "db \<Rightarrow> string \<Rightarrow> meta_row option" where
  "meta_row_of d key = find (\<lambda>r. mr_key r = key) (tbl_meta d)"

definition meta_get :: "string \<Rightarrow> ('z world_scheme, db_error, string option) io" where
  "meta_get key = query (\<lambda>d. Inr (map_option mr_value (meta_row_of d key)))"

text \<open>
  \<open>INSERT .. ON CONFLICT (key) DO UPDATE\<close>: \<open>merge\<close> computes the new value from the stored and the
  excluded one and may fail (the \<open>::int8\<close> casts of the cursor).
\<close>

definition meta_upsert :: "(string \<Rightarrow> string \<Rightarrow> pg_error + string) \<Rightarrow> string \<Rightarrow> string \<Rightarrow> i64 \<Rightarrow>
    (db, sqlx_error, unit) io" where
  "meta_upsert merge key v ts d =
     (if \<not> varchar_fits 64 key then (Inl (SqlxDatabase StringTruncation), d)
      else case meta_row_of d key of
        None \<Rightarrow> (Inr (), d\<lparr>tbl_meta := tbl_meta d @ [\<lparr>mr_key = key, mr_value = v, mr_updated_at = ts\<rparr>]\<rparr>)
      | Some r \<Rightarrow>
          (case merge (mr_value r) v of
             Inl e \<Rightarrow> (Inl (SqlxDatabase e), d)
           | Inr v' \<Rightarrow> (Inr (), d\<lparr>tbl_meta :=
               map (\<lambda>r. if mr_key r = key then r\<lparr>mr_value := v', mr_updated_at := ts\<rparr> else r)
                 (tbl_meta d)\<rparr>)))"

definition meta_set :: "string \<Rightarrow> string \<Rightarrow> i64 \<Rightarrow> ('z world_scheme, db_error, unit) io" where
  "meta_set key v ts = map_err_io DbSqlx (request (meta_upsert (\<lambda>_ new. Inr new) key v ts))"

definition meta_get_i64 :: "string \<Rightarrow> ('z world_scheme, db_error, i64 option) io" where
  "meta_get_i64 key =
     bind_io (meta_get key) (\<lambda>v.
       case v of
         None \<Rightarrow> ret_io None
       | Some s \<Rightarrow>
           (case parse_i64 s of
              Some n \<Rightarrow> ret_io (Some n)
            | None \<Rightarrow> fail_io (DbSqlx (SqlxDecode (''_meta['' @ key @ ''] not i64'')))))"

definition meta_set_i64 :: "string \<Rightarrow> i64 \<Rightarrow> i64 \<Rightarrow> ('z world_scheme, db_error, unit) io" where
  "meta_set_i64 key v ts = meta_set key (i64_to_string v) ts"

section \<open>Reads and deletes\<close>

definition blocks_get_by_height :: "block_height \<Rightarrow> ('z world_scheme, db_error, block option) io" where
  "blocks_get_by_height h =
     query (\<lambda>d. case find (\<lambda>r. br_height r = height_val h) (tbl_blocks d) of
                  None \<Rightarrow> Inr None
                | Some r \<Rightarrow> bind_result (row_to_block r) (\<lambda>b. Inr (Some b)))"

text \<open>
  \<open>DELETE FROM blocks WHERE ..\<close> with \<open>ON DELETE CASCADE\<close>: transactions of a deleted block go, then
  logs of a deleted block or of a deleted transaction. The result is the number of blocks deleted.
\<close>

definition delete_blocks_where :: "(block_row \<Rightarrow> bool) \<Rightarrow> (db, sqlx_error, nat) io" where
  "delete_blocks_where p d =
     (let gone_h = map br_height (filter p (tbl_blocks d));
          gone_tx = map tr_hash (filter (\<lambda>t. tr_block_height t \<in> set gone_h) (tbl_txs d))
      in (Inr (length gone_h),
          d\<lparr>tbl_blocks := filter (\<lambda>b. \<not> p b) (tbl_blocks d),
            tbl_txs := filter (\<lambda>t. tr_block_height t \<notin> set gone_h) (tbl_txs d),
            tbl_logs := filter (\<lambda>l. lr_block_height l \<notin> set gone_h \<and> lr_tx_hash l \<notin> set gone_tx)
                          (tbl_logs d)\<rparr>))"

definition delete_from :: "block_height \<Rightarrow> ('z world_scheme, db_error, nat) io" where
  "delete_from h =
     map_err_io DbSqlx (request (delete_blocks_where (\<lambda>r. height_val h \<le> br_height r)))"

definition delete_at :: "block_height \<Rightarrow> ('z world_scheme, db_error, nat) io" where
  "delete_at h =
     map_err_io DbSqlx (request (delete_blocks_where (\<lambda>r. br_height r = height_val h)))"

end
