(* ===== verification/Tables_Laws.thy ===== *)
theory Tables_Laws
  imports Tables
begin

text \<open>
  What the statements of \<open>Tables\<close> guarantee. Rows survive the round trip through their columns.
  Every \<open>ON CONFLICT DO NOTHING\<close> table is an instance of the locale \<open>insert_table\<close>: a row is added
  exactly when its key is new, existing rows are never touched, and replaying inserts changes
  nothing. \<open>db_wf\<close> collects the primary keys, unique indexes and foreign keys of the schema; every
  statement keeps it.
\<close>

section \<open>Columns round trip\<close>

lemma wei_decode_encode [simp]: "wei_decode (wei_encode v) = Inr v"
proof -
  have "uint (wei_val v) < 2 ^ 256"
    using uint_lt2p [of "wei_val v"] by simp
  then show ?thesis
    by (cases v) (simp add: wei_decode_def wei_encode_def)
qed

lemma wei_encode_fits: "numeric_fits (wei_encode v)"
proof -
  have "uint (wei_val v) < 2 ^ 256"
    using uint_lt2p [of "wei_val v"] by simp
  moreover have "(2::int) ^ 256 < 10 ^ 78"
    by simp
  ultimately show ?thesis
    by (simp add: numeric_fits_def wei_encode_def)
qed

lemma wei_decode_opt_encode [simp]: "wei_decode_opt (map_option wei_encode v) = Inr v"
  by (cases v) (simp_all add: wei_decode_opt_def)

lemma signers_roundtrip [simp]: "signers_of_json (signers_to_json ss) = ss"
  by (induction ss) (simp_all add: signers_to_json_def List.map_filter_simps)

lemma row_to_block_to_row: "row_to_block (block_to_row b) = Inr b"
  by (simp add: row_to_block_def block_to_row_def)

lemma tx_type_of_as_str [simp]: "tx_type_of_str (tx_type_as_str ty) = Inr ty"
  by (cases ty) (simp_all add: tx_type_of_str_def)

lemma row_to_tx_to_row: "row_to_tx (tx_to_row t) = Inr t"
  by (simp add: row_to_tx_def tx_to_row_def)

lemma row_to_log_to_row: "row_to_log (log_to_row l) = l"
  by (simp add: row_to_log_def log_to_row_def)

lemma token_standard_of_as_str [simp]: "token_standard_of_str (token_standard_as_str s) = Inr s"
  by (cases s) (simp_all add: token_standard_of_str_def)

lemma row_to_transfer_to_row: "row_to_transfer (transfer_to_row t i) = Inr (t\<lparr>tt_id := Some i\<rparr>)"
  by (simp add: row_to_transfer_def transfer_to_row_def)

section \<open>Databases that agree on every table\<close>

definition same_tables :: "db \<Rightarrow> db \<Rightarrow> bool" where
  "same_tables d d' \<longleftrightarrow> d' = restore d d'"

lemma same_tables_refl [simp]: "same_tables d d"
  by (simp add: same_tables_def)

lemma same_tables_restore [simp]: "same_tables d (restore d e)"
  by (simp add: same_tables_def)

lemma same_tables_trans: "same_tables a b \<Longrightarrow> same_tables b c \<Longrightarrow> same_tables a c"
  by (metis restore_restore(1) same_tables_def)

lemma same_tablesD:
  assumes "same_tables d d'"
  shows "tbl_blocks d' = tbl_blocks d" "tbl_txs d' = tbl_txs d" "tbl_logs d' = tbl_logs d"
    "tbl_transfers d' = tbl_transfers d" "tbl_addresses d' = tbl_addresses d"
    "tbl_meta d' = tbl_meta d" "tbl_cb_tokens d' = tbl_cb_tokens d"
    "tbl_cb_trades d' = tbl_cb_trades d"
  using assms unfolding same_tables_def by (metis restore_tables)+

lemma same_tables_iff:
  "same_tables d d' \<longleftrightarrow>
     tbl_blocks d' = tbl_blocks d \<and> tbl_txs d' = tbl_txs d \<and> tbl_logs d' = tbl_logs d \<and>
     tbl_transfers d' = tbl_transfers d \<and> tbl_addresses d' = tbl_addresses d \<and>
     tbl_meta d' = tbl_meta d \<and> tbl_cb_tokens d' = tbl_cb_tokens d \<and>
     tbl_cb_trades d' = tbl_cb_trades d"
  (is "_ \<longleftrightarrow> ?R")
proof
  show "same_tables d d' \<Longrightarrow> ?R" by (simp add: same_tablesD)
  assume ?R
  then show "same_tables d d'" by (simp add: same_tables_def restore_def)
qed

section \<open>Insert-if-absent tables\<close>

lemma exec_Inr: "exec m d = (Inr u, d') \<longleftrightarrow> (\<exists>b. m d = (Inr b, d'))"
  by (auto simp: exec_def bind_io_def ret_io_def split: prod.splits sum.splits)

locale insert_table =
  fixes key :: "'r \<Rightarrow> 'k" and rows :: "db \<Rightarrow> 'r list"
    and ins :: "'p \<Rightarrow> (db, sqlx_error, bool) io"
    and pkey :: "'p \<Rightarrow> 'k" and fits :: "'p \<Rightarrow> bool" and stored :: "'p \<Rightarrow> 'r \<Rightarrow> bool"
  assumes ins_fits: "ins p d = (Inr b, d') \<Longrightarrow> fits p"
    and ins_new: "ins p d = (Inr b, d') \<Longrightarrow> pkey p \<notin> key ` set (rows d) \<Longrightarrow>
                  b \<and> (\<exists>r. key r = pkey p \<and> stored p r \<and> rows d' = rows d @ [r])"
    and ins_old: "fits p \<Longrightarrow> pkey p \<in> key ` set (rows d) \<Longrightarrow>
                  \<exists>d'. ins p d = (Inr False, d') \<and> same_tables d d'"
    and rows_same: "same_tables d d' \<Longrightarrow> rows d' = rows d"
begin

lemma ins_rows:
  assumes "ins p d = (Inr b, d')"
  shows "b = (pkey p \<notin> key ` set (rows d))"
    and "\<exists>new. rows d' = rows d @ new \<and> (\<forall>r\<in>set new. key r = pkey p \<and> stored p r)"
    and "key ` set (rows d') = insert (pkey p) (key ` set (rows d))"
    and "distinct (map key (rows d)) \<Longrightarrow> distinct (map key (rows d'))"
proof -
  show b: "b = (pkey p \<notin> key ` set (rows d))"
    using ins_new [OF assms] ins_old [OF ins_fits [OF assms], of d] assms by auto
  consider r where "pkey p \<notin> key ` set (rows d)" "key r = pkey p" "stored p r"
      "rows d' = rows d @ [r]"
    | "pkey p \<in> key ` set (rows d)" "rows d' = rows d"
    using ins_new [OF assms] ins_old [OF ins_fits [OF assms], of d] assms rows_same
    by (cases "pkey p \<in> key ` set (rows d)") auto
  note cases = this
  show "\<exists>new. rows d' = rows d @ new \<and> (\<forall>r\<in>set new. key r = pkey p \<and> stored p r)"
    by (cases rule: cases) auto
  show "key ` set (rows d') = insert (pkey p) (key ` set (rows d))"
    by (cases rule: cases) auto
  show "distinct (map key (rows d)) \<Longrightarrow> distinct (map key (rows d'))"
    by (cases rule: cases) auto
qed

lemma all_rows:
  assumes "for_io (\<lambda>p. exec (ins p)) ps d = (Inr (), d')"
  shows "(\<exists>new. rows d' = rows d @ new \<and> (\<forall>r\<in>set new. \<exists>p\<in>set ps. key r = pkey p \<and> stored p r)) \<and>
    key ` set (rows d') = pkey ` set ps \<union> key ` set (rows d) \<and>
    (distinct (map key (rows d)) \<longrightarrow> distinct (map key (rows d'))) \<and> (\<forall>p\<in>set ps. fits p)"
  using assms
proof (induction ps arbitrary: d)
  case Nil
  then show ?case by (auto simp: ret_io_def)
next
  case (Cons p ps)
  then obtain b d1 where 1: "ins p d = (Inr b, d1)"
    and 2: "for_io (\<lambda>p. exec (ins p)) ps d1 = (Inr (), d')"
    by (auto simp: bind_io_Inr exec_Inr)
  from ins_rows(2) [OF 1] obtain n1 where n1: "rows d1 = rows d @ n1"
    "\<forall>r\<in>set n1. key r = pkey p \<and> stored p r" by blast
  note IH = Cons.IH [OF 2]
  from IH obtain n2 where n2: "rows d' = rows d1 @ n2"
    "\<forall>r\<in>set n2. \<exists>p\<in>set ps. key r = pkey p \<and> stored p r" by blast
  have "rows d' = rows d @ (n1 @ n2)" "\<forall>r\<in>set (n1 @ n2). \<exists>q\<in>set (p # ps). key r = pkey q \<and> stored q r"
    using n1 n2 by auto
  then show ?case
    using IH ins_rows(3,4) [OF 1] ins_fits [OF 1] by auto
qed

lemma replay:
  assumes "\<forall>p\<in>set ps. fits p \<and> pkey p \<in> key ` set (rows d)"
  shows "\<exists>d'. for_io (\<lambda>p. exec (ins p)) ps d = (Inr (), d') \<and> same_tables d d'"
  using assms
proof (induction ps arbitrary: d)
  case Nil
  then show ?case by (auto simp: ret_io_def)
next
  case (Cons p ps)
  then obtain d1 where 1: "ins p d = (Inr False, d1)" and s: "same_tables d d1"
    using ins_old [of p d] by auto
  from Cons.prems s have "\<forall>p\<in>set ps. fits p \<and> pkey p \<in> key ` set (rows d1)"
    by (simp add: rows_same)
  from Cons.IH [OF this] obtain d' where
    "for_io (\<lambda>p. exec (ins p)) ps d1 = (Inr (), d')" "same_tables d1 d'" by blast
  moreover have "exec (ins p) d = (Inr (), d1)"
    unfolding exec_Inr using 1 by blast
  ultimately show ?case
    using s by (auto simp: bind_io_Inr intro: same_tables_trans)
qed

end

interpretation blocks_tbl: insert_table br_height tbl_blocks block_row_insert br_height block_fits "(=)"
proof
  fix p d b d'
  assume i: "block_row_insert p d = (Inr b, d')"
  then show "block_fits p"
    by (auto simp: block_row_insert_def insert_do_nothing_def split: if_splits)
  show "br_height p \<notin> br_height ` set (tbl_blocks d) \<Longrightarrow>
      b \<and> (\<exists>r. br_height r = br_height p \<and> p = r \<and> tbl_blocks d' = tbl_blocks d @ [r])"
    using i by (auto simp: block_row_insert_def insert_do_nothing_def list_ex_iff split: if_splits)
next
  fix p and d :: db
  assume "block_fits p" "br_height p \<in> br_height ` set (tbl_blocks d)"
  then show "\<exists>d'. block_row_insert p d = (Inr False, d') \<and> same_tables d d'"
    by (auto simp: block_row_insert_def insert_do_nothing_def list_ex_iff same_tables_iff)
qed (rule same_tablesD)

interpretation txs_tbl: insert_table tr_hash tbl_txs tx_row_insert tr_hash tx_fits "(=)"
proof
  fix p d b d'
  assume i: "tx_row_insert p d = (Inr b, d')"
  then show "tx_fits p"
    by (auto simp: tx_row_insert_def insert_do_nothing_def split: if_splits)
  show "tr_hash p \<notin> tr_hash ` set (tbl_txs d) \<Longrightarrow>
      b \<and> (\<exists>r. tr_hash r = tr_hash p \<and> p = r \<and> tbl_txs d' = tbl_txs d @ [r])"
    using i by (auto simp: tx_row_insert_def insert_do_nothing_def list_ex_iff split: if_splits)
next
  fix p and d :: db
  assume "tx_fits p" "tr_hash p \<in> tr_hash ` set (tbl_txs d)"
  then show "\<exists>d'. tx_row_insert p d = (Inr False, d') \<and> same_tables d d'"
    by (auto simp: tx_row_insert_def insert_do_nothing_def list_ex_iff same_tables_iff)
qed (rule same_tablesD)

interpretation logs_tbl: insert_table log_key tbl_logs log_row_insert log_key log_fits "(=)"
proof
  fix p d b d'
  assume i: "log_row_insert p d = (Inr b, d')"
  then show "log_fits p"
    by (auto simp: log_row_insert_def insert_do_nothing_def split: if_splits)
  show "log_key p \<notin> log_key ` set (tbl_logs d) \<Longrightarrow>
      b \<and> (\<exists>r. log_key r = log_key p \<and> p = r \<and> tbl_logs d' = tbl_logs d @ [r])"
    using i by (auto simp: log_row_insert_def insert_do_nothing_def list_ex_iff split: if_splits)
next
  fix p and d :: db
  assume "log_fits p" "log_key p \<in> log_key ` set (tbl_logs d)"
  then show "\<exists>d'. log_row_insert p d = (Inr False, d') \<and> same_tables d d'"
    by (auto simp: log_row_insert_def insert_do_nothing_def list_ex_iff same_tables_iff)
qed (rule same_tablesD)

text \<open>A transfer's key and length checks do not depend on the identity it is given.\<close>

lemma transfer_to_row_id [simp]:
  "transfer_key (transfer_to_row t i) = (tt_tx_hash t, log_index_val (tt_log_index t))"
  "transfer_fits (transfer_to_row t i) = transfer_fits (transfer_to_row t j)"
  by (simp_all add: transfer_key_def transfer_fits_def transfer_to_row_def)

interpretation transfers_tbl: insert_table transfer_key tbl_transfers
    "\<lambda>t. transfer_row_insert (transfer_to_row t)"
    "\<lambda>t. (tt_tx_hash t, log_index_val (tt_log_index t))"
    "\<lambda>t. transfer_fits (transfer_to_row t 0)" "\<lambda>t r. r = transfer_to_row t (fr_id r)"
proof
  fix t d b d'
  assume i: "transfer_row_insert (transfer_to_row t) d = (Inr b, d')"
  then have "transfer_fits (transfer_to_row t (int (Suc (transfers_seq d))))"
    by (auto simp: transfer_row_insert_def insert_do_nothing_def Let_def split: if_splits)
  then show "transfer_fits (transfer_to_row t 0)"
    using transfer_to_row_id(2) by blast
  show "(tt_tx_hash t, log_index_val (tt_log_index t)) \<notin> transfer_key ` set (tbl_transfers d) \<Longrightarrow>
      b \<and> (\<exists>r. transfer_key r = (tt_tx_hash t, log_index_val (tt_log_index t)) \<and>
             r = transfer_to_row t (fr_id r) \<and> tbl_transfers d' = tbl_transfers d @ [r])"
    using i
    by (auto simp: transfer_row_insert_def insert_do_nothing_def Let_def list_ex_iff image_iff
          transfer_to_row_def transfer_key_def split: if_splits)
next
  fix t and d :: db
  assume "transfer_fits (transfer_to_row t 0)"
    and "(tt_tx_hash t, log_index_val (tt_log_index t)) \<in> transfer_key ` set (tbl_transfers d)"
  moreover from this have "transfer_fits (transfer_to_row t (int (Suc (transfers_seq d))))"
    using transfer_to_row_id(2) by blast
  ultimately show "\<exists>d'. transfer_row_insert (transfer_to_row t) d = (Inr False, d') \<and> same_tables d d'"
    by (auto simp: transfer_row_insert_def insert_do_nothing_def Let_def list_ex_iff image_iff
          same_tables_iff)
qed (rule same_tablesD)

section \<open>Keys and foreign keys\<close>

definition cb_trade_key :: "cb_trade_row \<Rightarrow> string \<times> i32" where
  "cb_trade_key r = (cr_tx_hash r, cr_log_index r)"

definition keys_ok :: "db \<Rightarrow> bool" where
  "keys_ok d \<longleftrightarrow>
     distinct (map br_height (tbl_blocks d)) \<and> distinct (map br_hash (tbl_blocks d)) \<and>
     distinct (map tr_hash (tbl_txs d)) \<and> distinct (map log_key (tbl_logs d)) \<and>
     distinct (map transfer_key (tbl_transfers d)) \<and>
     distinct (map ar_address (tbl_addresses d)) \<and> distinct (map mr_key (tbl_meta d)) \<and>
     distinct (map ct_curve (tbl_cb_tokens d)) \<and> distinct (map ct_token (tbl_cb_tokens d)) \<and>
     distinct (map cb_trade_key (tbl_cb_trades d))"

definition fk_ok :: "db \<Rightarrow> bool" where
  "fk_ok d \<longleftrightarrow> (\<forall>t\<in>set (tbl_txs d). has_block d (tr_block_height t)) \<and>
     (\<forall>l\<in>set (tbl_logs d). has_block d (lr_block_height l) \<and> has_tx d (lr_tx_hash l))"

definition db_wf :: "db \<Rightarrow> bool" where
  "db_wf d \<longleftrightarrow> keys_ok d \<and> fk_ok d"

lemma has_block_iff: "has_block d h \<longleftrightarrow> h \<in> br_height ` set (tbl_blocks d)"
  by (auto simp: has_block_def list_ex_iff)

lemma has_tx_iff: "has_tx d h \<longleftrightarrow> h \<in> tr_hash ` set (tbl_txs d)"
  by (auto simp: has_tx_def list_ex_iff)

interpretation wf: db_invariant db_wf
  by unfold_locales (auto simp: db_wf_def keys_ok_def fk_ok_def has_block_def has_tx_def)

lemma keeps_exec: "keeps P m \<Longrightarrow> keeps P (exec m)"
  by (auto simp: exec_def intro!: keeps_intros)

lemma block_row_insert_wf: "keeps db_wf (block_row_insert r)"
  by (rule keepsI)
    (auto simp: block_row_insert_def insert_do_nothing_def db_wf_def keys_ok_def fk_ok_def
      has_block_iff has_tx_iff list_ex_iff)

lemma tx_row_insert_wf: "keeps db_wf (tx_row_insert r)"
  by (rule keepsI)
    (auto simp: tx_row_insert_def insert_do_nothing_def db_wf_def keys_ok_def fk_ok_def
      has_block_iff has_tx_iff list_ex_iff)

lemma log_row_insert_wf: "keeps db_wf (log_row_insert r)"
  by (rule keepsI)
    (auto simp: log_row_insert_def insert_do_nothing_def db_wf_def keys_ok_def fk_ok_def
      has_block_iff has_tx_iff list_ex_iff)

lemma transfer_row_insert_wf: "keeps db_wf (transfer_row_insert mk)"
  by (rule keepsI)
    (auto simp: transfer_row_insert_def insert_do_nothing_def db_wf_def keys_ok_def fk_ok_def
      has_block_iff has_tx_iff list_ex_iff Let_def)

lemma insert_stmts_wf [keeps_intros]:
  "keeps db_wf (blocks_insert_stmt b)" "keeps db_wf (transactions_insert_stmt t)"
  "keeps db_wf (logs_insert_stmt l)" "keeps db_wf (token_transfers_insert_stmt tt)"
  unfolding blocks_insert_stmt_def transactions_insert_stmt_def logs_insert_stmt_def
    token_transfers_insert_stmt_def
  by (rule keeps_exec, rule block_row_insert_wf tx_row_insert_wf log_row_insert_wf
      transfer_row_insert_wf)+

subsection \<open>Addresses\<close>

lemma upsert_address_keys:
  "map ar_address (upsert_address_row s rows) =
     (if fst s \<in> set (map ar_address rows) then map ar_address rows
      else map ar_address rows @ [fst s])"
proof (cases "fst s \<in> ar_address ` set rows")
  case True
  then have "list_ex (\<lambda>r. ar_address r = fst s) rows"
    by (auto simp: list_ex_iff)
  with True show ?thesis
    by (simp add: upsert_address_row_def comp_def if_distrib cong: if_cong)
next
  case False
  then have "\<not> list_ex (\<lambda>r. ar_address r = fst s) rows"
    by (auto simp: list_ex_iff) (metis image_eqI)
  with False show ?thesis
    by (simp add: upsert_address_row_def)
qed

lemma upsert_addresses_distinct:
  "distinct (map ar_address rows) \<Longrightarrow> distinct (map ar_address (fold upsert_address_row seen rows))"
  by (induction seen arbitrary: rows) (auto simp: upsert_address_keys simp del: map_map list.map)

lemma db_wf_addresses:
  assumes "db_wf d" "distinct (map ar_address rows)"
  shows "db_wf (d\<lparr>tbl_addresses := rows\<rparr>)"
  using assms by (simp add: db_wf_def keys_ok_def fk_ok_def has_block_def has_tx_def)

lemma db_wf_meta:
  assumes "db_wf d" "distinct (map mr_key rows)"
  shows "db_wf (d\<lparr>tbl_meta := rows\<rparr>)"
  using assms by (simp add: db_wf_def keys_ok_def fk_ok_def has_block_def has_tx_def)

lemma db_wfD_distinct:
  "db_wf d \<Longrightarrow> distinct (map ar_address (tbl_addresses d))"
  "db_wf d \<Longrightarrow> distinct (map mr_key (tbl_meta d))"
  "db_wf d \<Longrightarrow> distinct (map br_height (tbl_blocks d))"
  by (simp_all add: db_wf_def keys_ok_def)

lemma upsert_batch_wf [keeps_intros]: "keeps db_wf (upsert_batch_stmt seen)"
proof (rule keepsI)
  fix d
  assume "db_wf d"
  then show "db_wf (snd (upsert_batch_stmt seen d))"
    using db_wf_addresses [OF \<open>db_wf d\<close> upsert_addresses_distinct [OF db_wfD_distinct(1)]]
    by (simp add: upsert_batch_stmt_def)
qed

lemma classify_wf [keeps_intros]: "keeps db_wf (classify_stmt a c h)"
proof (rule keepsI)
  fix d
  assume wf: "db_wf d"
  have "map ar_address (map (\<lambda>r. if ar_address r = a
          then r\<lparr>ar_is_contract := c, ar_code_hash := Some h\<rparr> else r) (tbl_addresses d))
        = map ar_address (tbl_addresses d)"
    by simp
  then show "db_wf (snd (classify_stmt a c h d))"
    using wf db_wf_addresses [OF wf] db_wfD_distinct(1) [OF wf]
    by (simp add: classify_stmt_def del: map_map)
qed

subsection \<open>The key/value table\<close>

lemma map_if_key [simp]:
  "map mr_key (map (\<lambda>r. if mr_key r = k then r\<lparr>mr_value := v, mr_updated_at := ts\<rparr> else r) rows)
     = map mr_key rows"
  by simp

lemma meta_upsert_wf [keeps_intros]: "keeps db_wf (meta_upsert merge key v ts)"
proof (rule keepsI)
  fix d
  assume wf: "db_wf d"
  note distinct = db_wfD_distinct(2) [OF wf]
  show "db_wf (snd (meta_upsert merge key v ts d))"
  proof (cases "meta_row_of d key")
    case None
    then have "key \<notin> mr_key ` set (tbl_meta d)"
      by (auto simp: meta_row_of_def find_None_iff)
    with None wf distinct show ?thesis
      by (simp add: meta_upsert_def db_wf_meta)
  next
    case (Some r)
    then show ?thesis
      using wf db_wf_meta [OF wf] distinct
      by (auto simp: meta_upsert_def split: sum.splits simp del: map_map)
  qed
qed

subsection \<open>Deletes\<close>

lemma image_filter_not:
  "x \<in> f ` A \<Longrightarrow> x \<notin> f ` {a \<in> A. p a} \<Longrightarrow> x \<in> f ` {a \<in> A. \<not> p a}"
  by blast

lemma delete_blocks_wf [keeps_intros]: "keeps db_wf (delete_blocks_where p)"
proof (rule keepsI)
  fix d
  assume wf: "db_wf d"
  let ?d = "snd (delete_blocks_where p d)"
  have "keys_ok ?d"
    using wf by (simp add: delete_blocks_where_def Let_def db_wf_def keys_ok_def distinct_map_filter)
  moreover have "fk_ok ?d"
    using wf
    by (auto simp: delete_blocks_where_def Let_def db_wf_def fk_ok_def has_block_iff has_tx_iff
        intro: image_filter_not)
  ultimately show "db_wf ?d"
    by (simp add: db_wf_def)
qed

text \<open>The Rust functions keep the schema's constraints whatever the connection does.\<close>

lemma table_ops_wf [keeps_intros]:
  "keeps (\<lambda>w. db_wf (w_db w)) (blocks_insert b)"
  "keeps (\<lambda>w. db_wf (w_db w)) (transactions_insert t)"
  "keeps (\<lambda>w. db_wf (w_db w)) (logs_insert l)"
  "keeps (\<lambda>w. db_wf (w_db w)) (token_transfers_insert tt)"
  "keeps (\<lambda>w. db_wf (w_db w)) (blocks_insert_batch bs)"
  "keeps (\<lambda>w. db_wf (w_db w)) (transactions_insert_batch ts)"
  "keeps (\<lambda>w. db_wf (w_db w)) (logs_insert_batch ls)"
  "keeps (\<lambda>w. db_wf (w_db w)) (token_transfers_insert_batch tts)"
  "keeps (\<lambda>w. db_wf (w_db w)) (addresses_upsert_batch seen)"
  "keeps (\<lambda>w. db_wf (w_db w)) (delete_from h)"
  unfolding blocks_insert_def transactions_insert_def logs_insert_def token_transfers_insert_def
    blocks_insert_batch_def transactions_insert_batch_def logs_insert_batch_def
    token_transfers_insert_batch_def addresses_upsert_batch_def delete_from_def
  by (auto intro!: keeps_intros wf.keeps_request)

section \<open>Specifications of the table operations\<close>

text \<open>
  \<open>insert_rows\<close> is what a single insert and a batch insert both implement: the statements one after
  the other, with the error wrapped as \<open>DbError\<close>.
\<close>

definition insert_rows :: "('p \<Rightarrow> (db, sqlx_error, unit) io) \<Rightarrow> 'p list \<Rightarrow> (db, db_error, unit) io" where
  "insert_rows stmt ps = map_err_io DbSqlx (for_io stmt ps)"

lemma insert_rows_Inr: "insert_rows stmt ps d = (Inr u, d') \<longleftrightarrow> for_io stmt ps d = (Inr u, d')"
  by (auto simp: insert_rows_def map_err_io_def split: prod.splits)

lemma implements_single:
  "implements (map_err_io DbSqlx (request (stmt p))) (insert_rows stmt [p])"
proof -
  have "bind_io (stmt p) ret_io = stmt p"
    by (rule ext) (auto simp: bind_io_def ret_io_def split: prod.splits sum.splits)
  moreover have "(\<lambda>_::unit. ret_io ()) = ret_io"
    by auto
  ultimately have "insert_rows stmt [p] = map_err_io DbSqlx (stmt p)"
    by (simp add: insert_rows_def)
  then show ?thesis
    by (auto intro!: implements_intros)
qed

lemma implements_batch:
  "implements (if ps = [] then ret_io () else map_err_io DbSqlx (request (for_io stmt ps)))
     (insert_rows stmt ps)"
proof (cases "ps = []")
  case True
  then have "insert_rows stmt ps = ret_io ()"
    by (auto simp: insert_rows_def map_err_io_def ret_io_def)
  with True show ?thesis by (simp add: implements_ret)
next
  case False
  then show ?thesis
    unfolding insert_rows_def by (auto intro!: implements_intros)
qed

lemma implements_inserts [implements_intros]:
  "implements (blocks_insert b) (insert_rows blocks_insert_stmt [b])"
  "implements (transactions_insert t) (insert_rows transactions_insert_stmt [t])"
  "implements (logs_insert l) (insert_rows logs_insert_stmt [l])"
  "implements (token_transfers_insert tt) (insert_rows token_transfers_insert_stmt [tt])"
  "implements (blocks_insert_batch bs) (insert_rows blocks_insert_stmt bs)"
  "implements (transactions_insert_batch ts) (insert_rows transactions_insert_stmt ts)"
  "implements (logs_insert_batch ls) (insert_rows logs_insert_stmt ls)"
  "implements (token_transfers_insert_batch tts) (insert_rows token_transfers_insert_stmt tts)"
  unfolding blocks_insert_def transactions_insert_def logs_insert_def token_transfers_insert_def
    blocks_insert_batch_def transactions_insert_batch_def logs_insert_batch_def
    token_transfers_insert_batch_def
  by (rule implements_single implements_batch)+

end
