(* ===== verification/Chain.thy ===== *)
theory Chain
  imports Externals
begin

text \<open>
  The crate \<open>indexer-chain\<close>: the error type and its transient/permanent split (\<open>error.rs\<close>), the
  retry helper (\<open>retry.rs\<close>), the round-robin endpoint lists and the guards of the JSON-RPC
  provider (\<open>provider.rs\<close>) and the status handling of the native REST client (\<open>rest.rs\<close>).

  What a node answers is a parameter: a remote call is a function from the attempt number to its
  outcome, so that every sequence of failures and successes is covered.
\<close>

section \<open>Errors\<close>

datatype grpc_code =
    Code_Ok | Code_Cancelled | Code_Unknown | Code_InvalidArgument | Code_DeadlineExceeded
  | Code_NotFound | Code_AlreadyExists | Code_PermissionDenied | Code_ResourceExhausted
  | Code_FailedPrecondition | Code_Aborted | Code_OutOfRange | Code_Unimplemented
  | Code_Internal | Code_Unavailable | Code_DataLoss | Code_Unauthenticated

record rest_error =
  re_is_timeout :: bool
  re_is_connect :: bool
  re_status :: "nat option"

datatype chain_error =
    Rpc string
  | Grpc grpc_code
  | GrpcTransport string
  | Rest rest_error
  | Decode string
  | NotFound string
  | InvalidArgument string

definition is_server_error :: "nat \<Rightarrow> bool" where
  "is_server_error s \<longleftrightarrow> 500 \<le> s \<and> s < 600"

fun is_transient :: "chain_error \<Rightarrow> bool" where
  "is_transient (Rpc _) = True"
| "is_transient (Grpc c) =
     (c \<in> {Code_Unavailable, Code_DeadlineExceeded, Code_ResourceExhausted, Code_Aborted,
            Code_Internal})"
| "is_transient (GrpcTransport _) = True"
| "is_transient (Rest e) =
     (re_is_timeout e \<or> re_is_connect e \<or>
      (case re_status e of None \<Rightarrow> False | Some s \<Rightarrow> is_server_error s))"
| "is_transient (Decode _) = False"
| "is_transient (NotFound _) = False"
| "is_transient (InvalidArgument _) = False"

section \<open>Retry with backoff\<close>

text \<open>A \<open>Duration\<close> is its number of nanoseconds; \<open>max_attempts\<close> and \<open>multiplier\<close> are \<open>u32\<close>.\<close>

record backoff_config =
  initial_delay :: nat
  max_delay :: nat
  max_attempts :: nat
  multiplier :: nat

definition backoff_default :: backoff_config where
  "backoff_default = \<lparr>initial_delay = 100 * 10 ^ 6, max_delay = 5 * 10 ^ 9,
     max_attempts = 6, multiplier = 2\<rparr>"

definition saturating_pow_u32 :: "nat \<Rightarrow> nat \<Rightarrow> nat" where
  "saturating_pow_u32 b e = min (b ^ e) (2 ^ 32 - 1)"

definition ceiling_for_attempt :: "backoff_config \<Rightarrow> nat \<Rightarrow> nat" where
  "ceiling_for_attempt cfg attempt =
     (let factor = saturating_pow_u32 (multiplier cfg) (attempt - 1);
          nanos = min (initial_delay cfg * factor) (2 ^ 128 - 1);
          proposed = min nanos (2 ^ 64 - 1)
      in min proposed (max_delay cfg))"

definition jitter_ratio :: "nat \<Rightarrow> nat" where
  "jitter_ratio attempt = (attempt * 1103515245) mod 2 ^ 64 mod 1024"

definition delay_after :: "backoff_config \<Rightarrow> nat \<Rightarrow> nat" where
  "delay_after cfg attempt =
     min (ceiling_for_attempt cfg attempt * jitter_ratio attempt div 1024) (2 ^ 64 - 1)"

text \<open>
  The loop \<open>for attempt in 1..=cfg.max_attempts\<close>, with the attempts still to come, the last error
  and the sleeps taken. \<open>None\<close> is the panic of \<open>expect\<close> when there was no attempt at all.
\<close>

fun retry_loop :: "backoff_config \<Rightarrow> (nat \<Rightarrow> chain_error + 'a) \<Rightarrow> nat \<Rightarrow> nat \<Rightarrow>
    chain_error option \<Rightarrow> (chain_error + 'a) option \<times> nat list" where
  "retry_loop cfg op attempt 0 last_err = (map_option Inl last_err, [])"
| "retry_loop cfg op attempt (Suc left) last_err =
     (case op attempt of
        Inr v \<Rightarrow> (Some (Inr v), [])
      | Inl e \<Rightarrow>
          if \<not> is_transient e then (Some (Inl e), [])
          else
            (let (r, sleeps) = retry_loop cfg op (Suc attempt) left (Some e)
             in (r, (if attempt < max_attempts cfg then delay_after cfg attempt # sleeps
                     else sleeps))))"

definition retry_with_backoff :: "backoff_config \<Rightarrow> (nat \<Rightarrow> chain_error + 'a) \<Rightarrow>
    (chain_error + 'a) option \<times> nat list" where
  "retry_with_backoff cfg op = retry_loop cfg op 1 (max_attempts cfg) None"

section \<open>Endpoint lists\<close>

text \<open>
  \<open>ChainProvider::http\<close> and \<open>RestClient::new\<close>: a comma-separated list of URLs. \<open>parse_url\<close> is the
  URL parser (\<open>Inl\<close> its error text); a provider built from a URL is represented by the URL.
  \<open>http\<close> is the outcome of building the shared HTTP client.
\<close>

fun parse_bases :: "(string \<Rightarrow> string) \<Rightarrow> string \<Rightarrow> (string \<Rightarrow> string + unit) \<Rightarrow> string list \<Rightarrow>
    chain_error + string list" where
  "parse_bases norm what parse_url [] = Inr []"
| "parse_bases norm what parse_url (e # es) =
     (let trimmed = norm e in
      if trimmed = [] then parse_bases norm what parse_url es
      else case parse_url trimmed of
             Inl err \<Rightarrow> Inl (InvalidArgument (''bad '' @ what @ '' url '' @ CHR 0x27 # trimmed @ CHR 0x27 # '': '' @ err))
           | Inr _ \<Rightarrow> bind_result (parse_bases norm what parse_url es) (\<lambda>bs. Inr (trimmed # bs)))"

record endpoints =
  bases :: "string list"
  rr_cursor :: u64

definition chain_provider_http :: "(string \<Rightarrow> string + unit) \<Rightarrow> string \<Rightarrow> chain_error + endpoints" where
  "chain_provider_http parse_url url =
     bind_result (parse_bases trim ''rpc'' parse_url (split_on (CHR '','') url)) (\<lambda>bs.
       if bs = [] then Inl (InvalidArgument ''rpc url is empty'')
       else Inr \<lparr>bases = bs, rr_cursor = 0\<rparr>)"

definition rest_client_new :: "(string \<Rightarrow> string + unit) \<Rightarrow> rest_error + unit \<Rightarrow> string \<Rightarrow>
    chain_error + endpoints" where
  "rest_client_new parse_url http raw =
     bind_result (parse_bases (\<lambda>e. trim_end_slash (trim e)) ''rest'' parse_url
                    (split_on (CHR '','') raw)) (\<lambda>bs.
       if bs = [] then Inl (InvalidArgument ''rest base url is empty'')
       else bind_result (map_err Rest http) (\<lambda>_. Inr \<lparr>bases = bs, rr_cursor = 0\<rparr>))"

text \<open>\<open>next\<close> / \<open>next_base\<close>: \<open>fetch_add\<close> on the shared counter (wrapping), then the modulus.\<close>

definition next_base :: "endpoints \<Rightarrow> string \<times> endpoints" where
  "next_base c =
     (bases c ! (unat (rr_cursor c) mod length (bases c)), c\<lparr>rr_cursor := rr_cursor c + 1\<rparr>)"

primrec next_bases :: "nat \<Rightarrow> endpoints \<Rightarrow> string list \<times> endpoints" where
  "next_bases 0 c = ([], c)"
| "next_bases (Suc n) c =
     (let (b, c') = next_base c; (bs, c'') = next_bases n c' in (b # bs, c''))"

section \<open>Native REST responses\<close>

record native_block_tx =
  nx_txid :: string
  nx_from_address :: string
  nx_to_address :: "string option"
  nx_amount :: u64
  nx_fee :: u64
  nx_nonce :: u64
  nx_timestamp :: i64
  nx_chain_id :: i64
  nx_data :: "string option"

record native_block =
  nb_index :: i64
  nb_hash :: string
  nb_previous_hash :: string
  nb_timestamp :: i64
  nb_validator :: string
  nb_round :: i32
  nb_state_root :: "u8 list option"
  nb_transactions :: "native_block_tx list"

text \<open>
  An HTTP response: status code, the status line as displayed, the body read as text (used in error
  messages) and the body bytes, whose reading can fail. \<open>parse\<close> stands for the JSON decoder.
\<close>

record http_response =
  hr_status :: nat
  hr_status_line :: string
  hr_text :: string
  hr_body :: "rest_error + string"

definition is_success :: "nat \<Rightarrow> bool" where
  "is_success s \<longleftrightarrow> 200 \<le> s \<and> s < 300"

definition rest_error_of :: "http_response \<Rightarrow> chain_error" where
  "rest_error_of resp =
     Rpc (''native rest '' @ hr_status_line resp @ '': '' @ hr_text resp)"

definition rest_decode :: "(string \<Rightarrow> string + 'a) \<Rightarrow> http_response \<Rightarrow> chain_error + 'a" where
  "rest_decode parse resp =
     bind_result (map_err Rest (hr_body resp)) (\<lambda>body. map_err Decode (parse body))"

text \<open>\<open>RestClient::tx\<close> and \<open>RestClient::block\<close>: 404 is \<open>Ok(None)\<close>.\<close>

definition rest_get_opt :: "(string \<Rightarrow> string + 'a) \<Rightarrow> rest_error + http_response \<Rightarrow>
    chain_error + 'a option" where
  "rest_get_opt parse sent =
     bind_result (map_err Rest sent) (\<lambda>resp.
       if hr_status resp = 404 then Inr None
       else if \<not> is_success (hr_status resp) then Inl (rest_error_of resp)
       else bind_result (rest_decode parse resp) (\<lambda>v. Inr (Some v)))"

text \<open>\<open>RestClient::chain_info\<close>: 404 is an error like any other.\<close>

definition rest_get :: "(string \<Rightarrow> string + 'a) \<Rightarrow> rest_error + http_response \<Rightarrow> chain_error + 'a" where
  "rest_get parse sent =
     bind_result (map_err Rest sent) (\<lambda>resp.
       if \<not> is_success (hr_status resp) then Inl (rest_error_of resp) else rest_decode parse resp)"

definition block_url :: "string \<Rightarrow> block_height \<Rightarrow> string" where
  "block_url base h = base @ ''/chain/blocks/'' @ i64_to_string (height_val h)"

definition tx_url :: "string \<Rightarrow> hash \<Rightarrow> string" where
  "tx_url base h = base @ ''/tx/'' @ h"

text \<open>\<open>RestClient::block\<close>: pick a base, send, classify. \<open>send\<close> is the HTTP exchange.\<close>

definition rest_block :: "(string \<Rightarrow> string + native_block) \<Rightarrow> (string \<Rightarrow> rest_error + http_response) \<Rightarrow>
    block_height \<Rightarrow> endpoints \<Rightarrow> (chain_error + native_block option) \<times> endpoints" where
  "rest_block parse send h c =
     (let (base, c') = next_base c in (rest_get_opt parse (send (block_url base h)), c'))"

record native_tx_response =
  nt_txid :: string
  nt_from_address :: string
  nt_to_address :: "string option"
  nt_amount :: u64
  nt_fee :: u64
  nt_nonce :: u64
  nt_timestamp :: u64
  nt_block_height :: u64
  nt_tx_type :: string
  nt_data :: "string option"

record chain_info_response =
  ci_height :: i64
  ci_window_start_block :: "i64 option"
  ci_window_is_partial :: "bool option"

definition rest_tx :: "(string \<Rightarrow> string + native_tx_response) \<Rightarrow> (string \<Rightarrow> rest_error + http_response) \<Rightarrow>
    hash \<Rightarrow> endpoints \<Rightarrow> (chain_error + native_tx_response option) \<times> endpoints" where
  "rest_tx parse send h c =
     (let (base, c') = next_base c in (rest_get_opt parse (send (tx_url base h)), c'))"

definition chain_info :: "(string \<Rightarrow> string + chain_info_response) \<Rightarrow> (string \<Rightarrow> rest_error + http_response) \<Rightarrow>
    endpoints \<Rightarrow> (chain_error + chain_info_response) \<times> endpoints" where
  "chain_info parse send c =
     (let (base, c') = next_base c in (rest_get parse (send (base @ ''/chain/info'')), c'))"

section \<open>JSON-RPC provider\<close>

text \<open>An \<open>eth_getLogs\<close> entry; hashes, topics, address and data are byte strings.\<close>

record rpc_log =
  rl_block_number :: "u64 option"
  rl_log_index :: "u64 option"
  rl_transaction_hash :: "u8 list option"
  rl_topics :: "u8 list list"
  rl_address :: "u8 list"
  rl_data :: "u8 list"

text \<open>
  What the node answers: \<open>rest_block_at h k\<close> is the outcome of the \<open>k\<close>-th attempt at
  \<open>RestClient::block(h)\<close>; the \<open>eth_\<close> fields are the raw JSON-RPC calls, with \<open>Inl\<close> the transport
  error's text. Of \<open>eth_getBlockByNumber\<close> only the header hash is used.
\<close>

record node =
  rest_block_at :: "block_height \<Rightarrow> nat \<Rightarrow> chain_error + native_block option"
  eth_block_number :: "nat \<Rightarrow> string + u64"
  eth_get_block :: "u64 \<Rightarrow> string + u8 list option"
  eth_get_logs :: "u64 \<Rightarrow> u64 \<Rightarrow> u8 list option \<Rightarrow> nat \<Rightarrow> string + rpc_log list"
  eth_get_code :: "u8 list \<Rightarrow> string + u8 list"
  eth_call :: "u8 list \<Rightarrow> u8 list \<Rightarrow> string + u8 list"

definition block_number :: "node \<Rightarrow> nat \<Rightarrow> chain_error + block_height" where
  "block_number n k =
     bind_result (map_err Rpc (eth_block_number n k)) (\<lambda>v. Inr (block_height_from_u64 v))"

definition block_with_txs :: "node \<Rightarrow> block_height \<Rightarrow> chain_error + u8 list option" where
  "block_with_txs n h =
     bind_result (ok_or (InvalidArgument ''block_with_txs: negative height'') (as_u64 h))
       (\<lambda>v. map_err Rpc (eth_get_block n v))"

definition logs_in_range :: "node \<Rightarrow> block_height \<Rightarrow> block_height \<Rightarrow> u8 list option \<Rightarrow> nat \<Rightarrow>
    chain_error + rpc_log list" where
  "logs_in_range n from to addr k =
     (if to < from then Inl (InvalidArgument ''logs_in_range: to < from'')
      else bind_result (ok_or (InvalidArgument ''logs_in_range: negative from'') (as_u64 from))
        (\<lambda>from_n. bind_result (ok_or (InvalidArgument ''logs_in_range: negative to'') (as_u64 to))
        (\<lambda>to_n. map_err Rpc (eth_get_logs n from_n to_n addr k))))"

definition get_code :: "node \<Rightarrow> u8 list \<Rightarrow> chain_error + u8 list" where
  "get_code n a = map_err Rpc (eth_get_code n a)"

definition chain_call :: "node \<Rightarrow> u8 list \<Rightarrow> u8 list \<Rightarrow> chain_error + u8 list" where
  "chain_call n to data = map_err Rpc (eth_call n to data)"

end
