(* ===== verification/Convert.thy ===== *)
theory Convert
  imports Chain
begin

text \<open>
  \<open>crates/sync/src/convert.rs\<close> and \<open>token_decode.rs\<close>: from what the chain answers to the row types
  of the domain, and the ERC-20 / ERC-721 \<open>Transfer\<close> decoder. Slicing a topic at byte 24 assumes
  the topic is ASCII, as every topic built by \<open>hex_hash\<close> is.
\<close>

section \<open>Logs\<close>

datatype convert_error = Missing string | OutOfRange string

fun convert_error_text :: "convert_error \<Rightarrow> string" where
  "convert_error_text (Missing s) = ''missing: '' @ s"
| "convert_error_text (OutOfRange s) = ''out of range: '' @ s"

definition hex_hash :: "ext \<Rightarrow> u8 list \<Rightarrow> string" where
  "hex_hash x bs = ''0x'' @ hex_encode x bs"

definition hex_addr :: "ext \<Rightarrow> u8 list \<Rightarrow> string" where
  "hex_addr x bs = ''0x'' @ hex_encode x bs"

definition nth_opt :: "'a list \<Rightarrow> nat \<Rightarrow> 'a option" where
  "nth_opt xs i = (if i < length xs then Some (xs ! i) else None)"

definition to_domain_log :: "ext \<Rightarrow> rpc_log \<Rightarrow> convert_error + log" where
  "to_domain_log x rpc =
     bind_result (ok_or (Missing ''log.block_number'') (rl_block_number rpc)) (\<lambda>bn.
     bind_result (ok_or (Missing ''log.log_index'') (rl_log_index rpc)) (\<lambda>li.
     bind_result (ok_or (OutOfRange ''log_index'') (i32_try_from_u64 li)) (\<lambda>log_index.
     bind_result (ok_or (Missing ''log.transaction_hash'')
                    (map_option (hex_hash x) (rl_transaction_hash rpc))) (\<lambda>tx_hash.
       let topic = (\<lambda>i. map_option (hex_hash x) (nth_opt (rl_topics rpc) i)) in
       Inr \<lparr>l_block_height = block_height_from_u64 bn, l_tx_hash = tx_hash,
         l_log_index = LogIndex log_index, l_address = hex_addr x (rl_address rpc),
         l_topic0 = topic 0, l_topic1 = topic 1, l_topic2 = topic 2, l_topic3 = topic 3,
         l_data = Some (''0x'' @ hex_encode x (rl_data rpc))\<rparr>))))"

section \<open>Native blocks\<close>

definition with_0x :: "string \<Rightarrow> string" where
  "with_0x s = (if starts_with ''0x'' s \<or> starts_with ''0X'' s then s else ''0x'' @ s)"

definition zero_addr :: string where
  "zero_addr = ''0x0000000000000000000000000000000000000000''"

definition to_domain_block_from_native :: "ext \<Rightarrow> native_block \<Rightarrow> convert_error + block" where
  "to_domain_block_from_native x b =
     (if nb_index b < 0 then Inl (OutOfRange ''block.index'')
      else bind_result (ok_or (OutOfRange ''tx_count'')
                          (i32_try_from_usize (length (nb_transactions b)))) (\<lambda>tx_count.
        let state_root = (case nb_state_root b of
                            None \<Rightarrow> None
                          | Some r \<Rightarrow> if r = [] then None else Some (hex_hash x r)) in
        Inr \<lparr>b_height = BlockHeight (nb_index b), b_hash = with_0x (nb_hash b),
          b_parent_hash = with_0x (nb_previous_hash b), b_timestamp = nb_timestamp b,
          b_validator = with_0x (nb_validator b), b_gas_used = 0, b_gas_limit = 0,
          b_base_fee = None, b_tx_count = tx_count, b_state_root = state_root,
          b_round = nb_round b, b_justification_signers = []\<rparr>))"

definition convert_native_tx :: "block_height \<Rightarrow> nat \<times> native_block_tx \<Rightarrow> convert_error + transaction" where
  "convert_native_tx height it =
     (let (idx, t) = it in
      bind_result (ok_or (OutOfRange ''tx_index'') (i32_try_from_usize idx)) (\<lambda>tx_index.
      bind_result (ok_or (OutOfRange ''tx.nonce'') (i64_try_from_u64 (nx_nonce t))) (\<lambda>nonce.
        let from_addr = (if nx_from_address t = ''COINBASE'' then zero_addr
                         else with_0x (nx_from_address t));
            to_addr = map_option with_0x (nx_to_address t);
            tx_type = (if nx_from_address t = ''COINBASE'' then Coinbase
                       else if nx_chain_id t = 0 then System else Evm) in
        Inr \<lparr>t_hash = with_0x (nx_txid t), t_block_height = height, t_tx_index = TxIndex tx_index,
          t_from_addr = from_addr, t_to_addr = to_addr, t_value = wei_from_u64 (nx_amount t),
          t_gas_limit = 0, t_gas_used = None, t_gas_price = None,
          t_fee = wei_from_u64 (nx_fee t), t_nonce = nonce, t_data = nx_data t, t_status = 1,
          t_contract_address = None, t_tx_type = tx_type\<rparr>)))"

definition to_domain_txs_from_native :: "native_block \<Rightarrow> convert_error + transaction list" where
  "to_domain_txs_from_native b =
     collect_results (convert_native_tx (BlockHeight (nb_index b)))
       (zip [0..<length (nb_transactions b)] (nb_transactions b))"

section \<open>Transfer events\<close>

definition transfer_topic0 :: string where
  "transfer_topic0 = ''0xddf252ad1be2c89b69c2b068fc378daa952ba7f163c4a11628f55a4df523b3ef''"

definition topic_to_address :: "string \<Rightarrow> string option" where
  "topic_to_address topic =
     (let hex = trim_start_0x topic in
      if length hex \<noteq> 64 then None else Some (''0x'' @ drop 24 hex))"

definition topic_to_u256 :: "ext \<Rightarrow> string \<Rightarrow> u256 option" where
  "topic_to_u256 x topic =
     (let hex = trim_start_0x topic in
      if length hex \<noteq> 64 then None else map_option (u256_from_be_slice x) (hex_decode x hex))"

definition data_to_u256 :: "ext \<Rightarrow> string \<Rightarrow> u256 option" where
  "data_to_u256 x data =
     (let hex = trim_start_0x data in
      if length hex \<noteq> 64 then None else map_option (u256_from_be_slice x) (hex_decode x hex))"

definition data_empty :: "string option \<Rightarrow> bool" where
  "data_empty data = (case data of None \<Rightarrow> True | Some d \<Rightarrow> trim_start_0x d = [])"

definition transfer_of :: "log \<Rightarrow> string \<Rightarrow> string \<Rightarrow> token_standard \<Rightarrow> wei option \<Rightarrow> wei \<Rightarrow> token_transfer" where
  "transfer_of l from_addr to_addr std token_id amount =
     \<lparr>tt_id = None, tt_block_height = l_block_height l, tt_tx_hash = l_tx_hash l,
       tt_log_index = l_log_index l, tt_contract = l_address l, tt_standard = std,
       tt_from_addr = from_addr, tt_to_addr = to_addr, tt_token_id = token_id, tt_amount = amount\<rparr>"

definition decode_transfer :: "ext \<Rightarrow> log \<Rightarrow> token_transfer option" where
  "decode_transfer x l =
     (if l_topic0 l \<noteq> Some transfer_topic0 then None
      else Option.bind (l_topic1 l) (\<lambda>from_topic.
           Option.bind (l_topic2 l) (\<lambda>to_topic.
           Option.bind (topic_to_address from_topic) (\<lambda>from_addr.
           Option.bind (topic_to_address to_topic) (\<lambda>to_addr.
             case l_topic3 l of
               Some id_topic \<Rightarrow>
                 if \<not> data_empty (l_data l) then None
                 else Option.bind (topic_to_u256 x id_topic) (\<lambda>token_id.
                   Some (transfer_of l from_addr to_addr Erc721 (Some (Wei token_id)) (Wei 1)))
             | None \<Rightarrow>
                 Option.bind (l_data l) (\<lambda>data_str.
                 Option.bind (data_to_u256 x data_str) (\<lambda>amount.
                   Some (transfer_of l from_addr to_addr Erc20 None (Wei amount)))))))))"

section \<open>Facts\<close>

lemma with_0x_prefixed: "starts_with ''0x'' (with_0x s) \<or> starts_with ''0X'' (with_0x s)"
  by (simp add: with_0x_def starts_with_def)

lemma with_0x_idem [simp]: "with_0x (with_0x s) = with_0x s"
  by (simp add: with_0x_def starts_with_def)

lemma nth_opt_simps [simp]: "nth_opt [] i = None" "nth_opt (y # ys) 0 = Some y"
  "nth_opt (y # ys) (Suc i) = nth_opt ys i"
  by (simp_all add: nth_opt_def)

lemma convert_native_tx_Inr:
  assumes "convert_native_tx h (i, t) = Inr tx"
  shows "t_block_height tx = h" "t_tx_index tx = TxIndex (int i)" "t_hash tx = with_0x (nx_txid t)"
    "t_nonce tx = uint (nx_nonce t)" "int i \<le> i32_max" "uint (nx_nonce t) \<le> i64_max"
  using assms
  by (auto simp: convert_native_tx_def bind_result_Inr i32_try_from_usize_def i64_try_from_u64_def
      Let_def split: if_splits)

lemma convert_native_tx_ok:
  "int i \<le> i32_max \<Longrightarrow> uint (nx_nonce t) \<le> i64_max \<Longrightarrow> \<exists>tx. convert_native_tx h (i, t) = Inr tx"
  by (auto simp: convert_native_tx_def bind_result_Inr i32_try_from_usize_def i64_try_from_u64_def
      Let_def)

lemma to_domain_txs_nth:
  assumes "to_domain_txs_from_native b = Inr ts"
  shows "length ts = length (nb_transactions b)"
    and "i < length ts \<Longrightarrow>
      convert_native_tx (BlockHeight (nb_index b)) (i, nb_transactions b ! i) = Inr (ts ! i)"
proof -
  let ?xs = "zip [0..<length (nb_transactions b)] (nb_transactions b)"
  have a: "list_all2 (\<lambda>x y. convert_native_tx (BlockHeight (nb_index b)) x = Inr y) ?xs ts"
    using assms by (simp add: to_domain_txs_from_native_def collect_results_Inr)
  show len: "length ts = length (nb_transactions b)"
    using list_all2_lengthD [OF a] by simp
  assume "i < length ts"
  with len list_all2_nthD2 [OF a, of i] show
    "convert_native_tx (BlockHeight (nb_index b)) (i, nb_transactions b ! i) = Inr (ts ! i)"
    by simp
qed

lemma to_domain_txs_height:
  assumes "to_domain_txs_from_native b = Inr ts" "t \<in> set ts"
  shows "t_block_height t = BlockHeight (nb_index b)"
  using to_domain_txs_nth(2) [OF assms(1)] assms(2) convert_native_tx_Inr(1)
  by (metis in_set_conv_nth)

lemma to_domain_block_Inr:
  assumes "to_domain_block_from_native x b = Inr blk"
  shows "b_height blk = BlockHeight (nb_index b)" "0 \<le> nb_index b"
    "b_timestamp blk = nb_timestamp b" "b_hash blk = with_0x (nb_hash b)"
    "b_tx_count blk = int (length (nb_transactions b))"
  using assms
  by (auto simp: to_domain_block_from_native_def bind_result_Inr i32_try_from_usize_def Let_def
      split: if_splits)

text \<open>A topic or data word as the chain writes it: \<open>0x\<close> and the 64 digits of 32 bytes.\<close>

lemma trim_hex_hash:
  assumes "hex_laws x"
  shows "trim_start_0x (hex_hash x bs) = hex_encode x bs"
  using trim_start_0x_prefixed [of "hex_encode x bs"] hex_encode_no_0x [OF assms]
  by (simp add: hex_hash_def)

lemma topic_to_address_padded:
  assumes "hex_laws x" "length pad = 12" "length a = 20"
  shows "topic_to_address (hex_hash x (pad @ a)) = Some (hex_addr x a)"
  using assms
  by (simp add: topic_to_address_def trim_hex_hash length_hex_encode hex_encode_append hex_addr_def
      Let_def)

lemma topic_to_u256_word:
  assumes "hex_laws x" "be_laws x"
  shows "topic_to_u256 x (hex_hash x (u256_to_be_bytes v)) = Some v"
  using assms
  by (simp add: topic_to_u256_def trim_hex_hash length_hex_encode hex_decode_encode be_laws_def Let_def)

lemma data_to_u256_word:
  assumes "hex_laws x" "be_laws x"
  shows "data_to_u256 x (''0x'' @ hex_encode x (u256_to_be_bytes v)) = Some v"
  using topic_to_u256_word [OF assms] by (simp add: topic_to_u256_def data_to_u256_def hex_hash_def)

lemma data_empty_0x [simp]: "data_empty (Some ''0x'')" "data_empty None"
  by (simp_all add: data_empty_def)

lemma data_empty_hex:
  assumes "hex_laws x"
  shows "data_empty (Some (''0x'' @ hex_encode x bs)) \<longleftrightarrow> bs = []"
proof -
  have "data_empty (Some (''0x'' @ hex_encode x bs)) \<longleftrightarrow> hex_encode x bs = []"
    using trim_hex_hash [OF assms, of bs] by (simp add: data_empty_def hex_hash_def)
  also have "\<dots> \<longleftrightarrow> bs = []"
    using length_hex_encode [OF assms, of bs] by (metis length_0_conv mult_is_0 zero_neq_numeral)
  finally show ?thesis .
qed

text \<open>Whatever is decoded keeps the position and the contract of its log.\<close>

lemma decode_transfer_position:
  assumes "decode_transfer x l = Some t"
  shows "tt_block_height t = l_block_height l" "tt_tx_hash t = l_tx_hash l"
    "tt_log_index t = l_log_index l" "tt_contract t = l_address l"
    "l_topic0 l = Some transfer_topic0"
  using assms
  by (auto simp: decode_transfer_def transfer_of_def bind_eq_Some_conv
      split: if_splits option.splits)

end
