(* ===== verification/Writer.thy ===== *)
theory Writer
  imports Tables_Laws Convert "HOL-Library.AList"
begin

text \<open>
  \<open>crates/sync/src/cursor.rs\<close> and \<open>block_writer.rs\<close>: the persisted cursor and the two ways of
  writing blocks, one block per transaction (\<open>write_block\<close>) or many (\<open>batch_write_blocks\<close>), with
  the analytics rows pushed after the commit (\<open>crates/analytics/src/row.rs\<close>, \<open>AnalyticsHandle\<close>).
\<close>

section \<open>Errors of the sync core\<close>

text \<open>\<open>Panicked\<close> is the panic of an \<open>expect\<close>; it is not a value of the Rust type.\<close>

datatype sync_error =
    ChainErr chain_error
  | DbErr db_error
  | SqlxErr sqlx_error
  | InvalidErr string
  | Panicked

section \<open>Analytics rows\<close>

record raw_tx_row =
  rx_block_height :: u64
  rx_timestamp :: u64
  rx_tx_hash :: string
  rx_from_addr :: string
  rx_to_addr :: "string option"
  rx_value_str :: string
  rx_fee_str :: string
  rx_gas_used :: u64
  rx_status :: u8
  rx_tx_type :: string

text \<open>The sync core's world: the database and the unbounded channel to the flusher.\<close>

record sync_world = world +
  ch_rows :: "raw_tx_row list"
  ch_closed :: bool

datatype analytics_error = Clickhouse string | Closed

definition push :: "raw_tx_row \<Rightarrow> ('z sync_world_scheme, analytics_error, unit) io" where
  "push row w = (if ch_closed w then (Inl Closed, w) else (Inr (), w\<lparr>ch_rows := ch_rows w @ [row]\<rparr>))"

section \<open>The cursor\<close>

definition last_synced_height_key :: string where
  "last_synced_height_key = ''last_synced_height''"

text \<open>\<open>value::int8\<close>: the cast PostgreSQL applies to the stored text.\<close>

definition pg_int8 :: "string \<Rightarrow> pg_error + i64" where
  "pg_int8 s = ok_or InvalidTextRepresentation (parse_i64 (trim s))"

definition greatest_int8 :: "string \<Rightarrow> string \<Rightarrow> pg_error + string" where
  "greatest_int8 stored excluded =
     bind_result (pg_int8 stored) (\<lambda>a. bind_result (pg_int8 excluded) (\<lambda>b.
       Inr (i64_to_string (max a b))))"

definition write_cursor_stmt :: "block_height \<Rightarrow> i64 \<Rightarrow> (db, sqlx_error, unit) io" where
  "write_cursor_stmt h now_ts =
     meta_upsert greatest_int8 last_synced_height_key (i64_to_string (height_val h)) now_ts"

definition write_cursor :: "block_height \<Rightarrow> i64 \<Rightarrow> ('z world_scheme, sync_error, unit) io" where
  "write_cursor h now_ts = map_err_io SqlxErr (request (write_cursor_stmt h now_ts))"

definition read_cursor :: "('z world_scheme, sync_error, block_height option) io" where
  "read_cursor =
     bind_io (map_err_io DbErr (meta_get_i64 last_synced_height_key))
       (\<lambda>v. ret_io (map_option BlockHeight v))"

section \<open>Bundles\<close>

record block_bundle =
  bb_block :: block
  bb_txs :: "transaction list"
  bb_logs :: "log list"
  bb_token_transfers :: "token_transfer list"

text \<open>
  \<open>tx_addresses\<close>: the \<open>HashMap\<close> from address to earliest block, as an association list. The order
  in which Rust iterates the map is unspecified; the model takes the order of first insertion.
\<close>

definition note_seen :: "string \<Rightarrow> i64 \<Rightarrow> (string \<times> i64) list \<Rightarrow> (string \<times> i64) list" where
  "note_seen a h seen =
     AList.update a (case map_of seen a of None \<Rightarrow> h | Some b \<Rightarrow> min b h) seen"

definition note_tx :: "transaction \<Rightarrow> (string \<times> i64) list \<Rightarrow> (string \<times> i64) list" where
  "note_tx t seen =
     (let h = height_val (t_block_height t);
          seen' = note_seen (t_from_addr t) h seen
      in case t_to_addr t of None \<Rightarrow> seen' | Some to \<Rightarrow> note_seen to h seen')"

definition tx_addresses :: "transaction list \<Rightarrow> (string \<times> i64) list" where
  "tx_addresses txs = fold note_tx txs []"

definition batch_insert_chunk :: nat where
  "batch_insert_chunk = 500"

section \<open>Pushing to analytics\<close>

definition raw_row :: "ext \<Rightarrow> u64 \<Rightarrow> i64 \<Rightarrow> transaction \<Rightarrow> raw_tx_row" where
  "raw_row x height timestamp t =
     \<lparr>rx_block_height = height, rx_timestamp = i64_as_u64 timestamp, rx_tx_hash = t_hash t,
       rx_from_addr = t_from_addr t, rx_to_addr = t_to_addr t,
       rx_value_str = u256_to_string x (wei_val (t_value t)),
       rx_fee_str = u256_to_string x (wei_val (t_fee t)),
       rx_gas_used = i64_as_u64 (case t_gas_used t of None \<Rightarrow> 0 | Some g \<Rightarrow> g),
       rx_status = word_of_int (t_status t), rx_tx_type = tx_type_as_str (t_tx_type t)\<rparr>"

text \<open>Rows are pushed in order; the first refused push ends the loop, and nothing fails.\<close>

primrec push_all :: "raw_tx_row list \<Rightarrow> 'z sync_world_scheme \<Rightarrow> bool \<times> 'z sync_world_scheme" where
  "push_all [] w = (True, w)"
| "push_all (r # rs) w =
     (case push r w of (Inl _, w') \<Rightarrow> (False, w') | (Inr _, w') \<Rightarrow> push_all rs w')"

definition bundle_rows :: "ext \<Rightarrow> block_bundle \<Rightarrow> raw_tx_row list" where
  "bundle_rows x b =
     (case as_u64 (b_height (bb_block b)) of
        None \<Rightarrow> []
      | Some h \<Rightarrow> map (raw_row x h (b_timestamp (bb_block b))) (bb_txs b))"

section \<open>One block\<close>

definition write_block_body :: "block_bundle \<Rightarrow> ('z world_scheme, sync_error, unit) io" where
  "write_block_body b =
     bind_io (map_err_io DbErr (blocks_insert (bb_block b))) (\<lambda>_.
     bind_io (for_io (\<lambda>t. map_err_io DbErr (transactions_insert t)) (bb_txs b)) (\<lambda>_.
     bind_io (map_err_io DbErr (addresses_upsert_batch (tx_addresses (bb_txs b)))) (\<lambda>_.
     bind_io (for_io (\<lambda>l. map_err_io DbErr (logs_insert l)) (bb_logs b)) (\<lambda>_.
     bind_io (for_io (\<lambda>tt. map_err_io DbErr (token_transfers_insert tt)) (bb_token_transfers b)) (\<lambda>_.
       write_cursor (b_height (bb_block b)) (b_timestamp (bb_block b)))))))"

definition write_block :: "ext \<Rightarrow> bool \<Rightarrow> block_bundle \<Rightarrow>
    ('z sync_world_scheme, sync_error, unit) io" where
  "write_block x analytics b =
     bind_io (transaction SqlxErr (write_block_body b)) (\<lambda>_ w.
       (Inr (), if analytics then snd (push_all (bundle_rows x b) w) else w))"

section \<open>Many blocks\<close>

definition max_height :: "block_bundle list \<Rightarrow> block_height" where
  "max_height bs = Max (set (map (\<lambda>b. b_height (bb_block b)) bs))"

definition cursor_ts :: "block_bundle list \<Rightarrow> i64" where
  "cursor_ts bs =
     (case find (\<lambda>b. b_height (bb_block b) = max_height bs) bs of
        None \<Rightarrow> 0 | Some b \<Rightarrow> b_timestamp (bb_block b))"

definition all_blocks :: "block_bundle list \<Rightarrow> block list" where
  "all_blocks bs = sort_key b_height (map bb_block bs)"

definition all_txs :: "block_bundle list \<Rightarrow> transaction list" where
  "all_txs bs = sort_key (\<lambda>t. (t_block_height t, t_tx_index t)) (concat (map bb_txs bs))"

definition all_logs :: "block_bundle list \<Rightarrow> log list" where
  "all_logs bs = sort_key (\<lambda>l. (l_block_height l, l_log_index l)) (concat (map bb_logs bs))"

definition all_transfers :: "block_bundle list \<Rightarrow> token_transfer list" where
  "all_transfers bs =
     sort_key (\<lambda>t. (tt_block_height t, tt_log_index t)) (concat (map bb_token_transfers bs))"

definition in_chunks :: "('p list \<Rightarrow> ('z world_scheme, db_error, unit) io) \<Rightarrow> 'p list \<Rightarrow>
    ('z world_scheme, sync_error, unit) io" where
  "in_chunks op xs = for_io (\<lambda>c. map_err_io DbErr (op c)) (chunks batch_insert_chunk xs)"

definition batch_body :: "block_bundle list \<Rightarrow> ('z world_scheme, sync_error, unit) io" where
  "batch_body bs =
     bind_io (in_chunks blocks_insert_batch (all_blocks bs)) (\<lambda>_.
     bind_io (in_chunks transactions_insert_batch (all_txs bs)) (\<lambda>_.
     bind_io (in_chunks addresses_upsert_batch (tx_addresses (all_txs bs))) (\<lambda>_.
     bind_io (in_chunks logs_insert_batch (all_logs bs)) (\<lambda>_.
     bind_io (in_chunks token_transfers_insert_batch (all_transfers bs)) (\<lambda>_.
       write_cursor (max_height bs) (cursor_ts bs))))))"

text \<open>A height that is not a \<open>u64\<close> contributes no rows; the first refused push returns.\<close>

definition batch_write_blocks :: "ext \<Rightarrow> bool \<Rightarrow> block_bundle list \<Rightarrow>
    ('z sync_world_scheme, sync_error, unit) io" where
  "batch_write_blocks x analytics bs =
     (if bs = [] then ret_io ()
      else bind_io (transaction SqlxErr (batch_body bs)) (\<lambda>_ w.
        (Inr (), if analytics then snd (push_all (concat (map (bundle_rows x) bs)) w) else w)))"

end
