(* ===== verification/Writer_Laws.thy ===== *)
theory Writer_Laws
  imports Writer
begin

text \<open>
  Lemmas about the cursor and the block writer: the cursor is a register that only moves up, whatever
  the order of the writes (locale \<open>monotone_register\<close>); the body of a write transaction implements
  \<open>write_rows\<close>, its effect on the database when nothing goes wrong on the wire; statements on one
  table can be moved past statements on another (locale \<open>independent_table\<close>), which is what makes
  the batched writer equivalent to block-by-block writes.
\<close>

section \<open>Decimal text has no blanks\<close>

lemma dec_nat_no_space: "c \<in> set (dec_nat n) \<Longrightarrow> \<not> is_space c"
proof (induction n rule: dec_nat.induct)
  case (1 n)
  have d: "\<not> is_space (digit_char k)" if "k < 10" for k
    using that by (simp add: is_space_def digit_char_def Let_def)
  show ?case
  proof (cases "n < 10")
    case True
    with 1 d show ?thesis by (subst (asm) (2) dec_nat.simps) auto
  next
    case False
    with 1 d [of "n mod 10"] show ?thesis by (subst (asm) (2) dec_nat.simps) auto
  qed
qed

lemma trim_no_space: "(\<And>c. c \<in> set s \<Longrightarrow> \<not> is_space c) \<Longrightarrow> trim s = s"
proof -
  assume a: "\<And>c. c \<in> set s \<Longrightarrow> \<not> is_space c"
  have "dropWhile is_space xs = xs" if "set xs \<subseteq> set s" for xs
    using that a by (cases xs) auto
  then show "trim s = s"
    by (simp add: trim_def)
qed

lemma trim_i64_to_string [simp]: "trim (i64_to_string v) = i64_to_string v"
proof (rule trim_no_space)
  fix c
  assume "c \<in> set (i64_to_string v)"
  then consider "c = CHR ''-''" | n where "c \<in> set (dec_nat n)"
    by (auto simp: i64_to_string_def split: if_splits)
  then show "\<not> is_space c"
    by cases (auto simp: is_space_def dest: dec_nat_no_space)
qed

lemma greatest_int8_text:
  "in_i64 a \<Longrightarrow> in_i64 b \<Longrightarrow>
     greatest_int8 (i64_to_string a) (i64_to_string b) = Inr (i64_to_string (max a b))"
  by (simp add: greatest_int8_def pg_int8_def parse_i64_to_string)

section \<open>The cursor as a register\<close>

definition cursor_of :: "db \<Rightarrow> i64 option" where
  "cursor_of d =
     (case meta_row_of d last_synced_height_key of None \<Rightarrow> None | Some r \<Rightarrow> parse_i64 (mr_value r))"

text \<open>\<open>read_cursor(..)?.unwrap_or(BlockHeight(-1))\<close>\<close>

definition cursor_pos :: "db \<Rightarrow> i64" where
  "cursor_pos d = (case cursor_of d of None \<Rightarrow> - 1 | Some c \<Rightarrow> c)"

definition cursor_ok :: "db \<Rightarrow> bool" where
  "cursor_ok d \<longleftrightarrow>
     (case meta_row_of d last_synced_height_key of
        None \<Rightarrow> True
      | Some r \<Rightarrow> (\<exists>c. in_i64 c \<and> - 1 \<le> c \<and> mr_value r = i64_to_string c))"

lemma find_map_update:
  "find (\<lambda>r. mr_key r = k) (map (\<lambda>r. if mr_key r = k then r\<lparr>mr_value := v, mr_updated_at := ts\<rparr> else r) rows)
     = map_option (\<lambda>r. r\<lparr>mr_value := v, mr_updated_at := ts\<rparr>) (find (\<lambda>r. mr_key r = k) rows)"
  by (induction rows) auto

lemma find_append_new:
  "find P xs = None \<Longrightarrow> P x \<Longrightarrow> find P (xs @ [x]) = Some x"
  by (induction xs) (auto split: if_splits)

lemma cursor_key_fits: "varchar_fits 64 last_synced_height_key"
  by (simp add: varchar_fits_def last_synced_height_key_def)

text \<open>Everything \<open>write_cursor\<close> does to a database whose cursor is well-formed.\<close>

lemma write_cursor_run:
  assumes ok: "cursor_ok d" and h: "in_i64 (height_val h)" "- 1 \<le> height_val h"
  shows "\<exists>d'. write_cursor_stmt h ts d = (Inr (), d') \<and> d' = d\<lparr>tbl_meta := tbl_meta d'\<rparr> \<and>
    cursor_ok d' \<and> cursor_of d' = Some (max (cursor_pos d) (height_val h))"
proof (cases "meta_row_of d last_synced_height_key")
  case None
  let ?v = "i64_to_string (height_val h)"
  let ?d = "d\<lparr>tbl_meta := tbl_meta d @
     [\<lparr>mr_key = last_synced_height_key, mr_value = ?v, mr_updated_at = ts\<rparr>]\<rparr>"
  have "write_cursor_stmt h ts d = (Inr (), ?d)"
    using None by (simp add: write_cursor_stmt_def meta_upsert_def cursor_key_fits)
  moreover have "meta_row_of ?d last_synced_height_key =
      Some \<lparr>mr_key = last_synced_height_key, mr_value = ?v, mr_updated_at = ts\<rparr>"
    using None by (simp add: meta_row_of_def find_append_new)
  ultimately show ?thesis
    using None h by (auto simp: cursor_ok_def cursor_of_def cursor_pos_def parse_i64_to_string)
next
  case (Some r)
  with ok obtain c where c: "in_i64 c" "- 1 \<le> c" "mr_value r = i64_to_string c"
    by (auto simp: cursor_ok_def)
  let ?v = "i64_to_string (max c (height_val h))"
  let ?d = "d\<lparr>tbl_meta := map (\<lambda>r. if mr_key r = last_synced_height_key
              then r\<lparr>mr_value := ?v, mr_updated_at := ts\<rparr> else r) (tbl_meta d)\<rparr>"
  have m: "in_i64 (max c (height_val h))" "- 1 \<le> max c (height_val h)"
    using c h by (auto simp: max_def)
  have "write_cursor_stmt h ts d = (Inr (), ?d)"
    using Some c h
    by (simp add: write_cursor_stmt_def meta_upsert_def cursor_key_fits greatest_int8_text)
  moreover have "meta_row_of ?d last_synced_height_key =
      Some (r\<lparr>mr_value := ?v, mr_updated_at := ts\<rparr>)"
    using Some by (simp add: meta_row_of_def find_map_update)
  moreover have "cursor_pos d = c"
    using Some c by (simp add: cursor_pos_def cursor_of_def parse_i64_to_string)
  ultimately show ?thesis
    using m by (auto simp: cursor_ok_def cursor_of_def parse_i64_to_string)
qed

lemma write_cursor_Inr:
  assumes "write_cursor_stmt h ts d = (Inr (), d')"
    and "cursor_ok d" "in_i64 (height_val h)" "- 1 \<le> height_val h"
  shows "d' = d\<lparr>tbl_meta := tbl_meta d'\<rparr>" "cursor_ok d'"
    "cursor_pos d' = max (cursor_pos d) (height_val h)"
    "cursor_of d' = Some (max (cursor_pos d) (height_val h))"
  using write_cursor_run [OF assms(2-4), of ts] assms(1) by (auto simp: cursor_pos_def)

lemma cursor_depends_on_meta:
  assumes "tbl_meta d' = tbl_meta d"
  shows "cursor_of d' = cursor_of d" "cursor_pos d' = cursor_pos d" "cursor_ok d' = cursor_ok d"
  using assms by (simp_all add: cursor_of_def cursor_pos_def cursor_ok_def meta_row_of_def)

lemma read_cursor_spec:
  assumes "read_cursor w = (Inr c, w')"
  shows "c = map_option BlockHeight (cursor_of (w_db w))" "w_db w' = w_db w"
proof -
  from assms obtain v where "meta_get_i64 last_synced_height_key w = (Inr v, w')"
    and c: "c = map_option BlockHeight v"
    by (auto simp: read_cursor_def bind_io_Inr ret_io_def map_err_io_def split: prod.splits)
  then obtain s where g: "meta_get last_synced_height_key w = (Inr s, w')"
    and v: "v = (case s of None \<Rightarrow> None | Some t \<Rightarrow> parse_i64 t)"
    by (auto simp: meta_get_i64_def bind_io_Inr ret_io_def fail_io_def split: option.splits)
  have r: "request (\<lambda>d. (Inr (map_option mr_value (meta_row_of d last_synced_height_key)), d)) w = (Inr s, w')"
    using g by (auto simp: meta_get_def query_def map_err_io_def split: prod.splits)
  show "w_db w' = w_db w"
    using request_Inr(1) [OF r] by simp
  have "s = map_option mr_value (meta_row_of (w_db w) last_synced_height_key)"
    using request_Inr(1) [OF r] by auto
  with v c show "c = map_option BlockHeight (cursor_of (w_db w))"
    by (auto simp: cursor_of_def split: option.splits)
qed

text \<open>
  A register that takes the maximum of what it holds and what is written. Its value after a series
  of writes does not depend on their order: this is what lets a batch writer and a per-block writer
  commit out of order.
\<close>

locale monotone_register =
  fixes pos :: "'s \<Rightarrow> int" and adv :: "int \<Rightarrow> 's \<Rightarrow> 's option"
  assumes adv_max: "adv h s = Some s' \<Longrightarrow> pos s' = max (pos s) h"
begin

primrec adv_all :: "int list \<Rightarrow> 's \<Rightarrow> 's option" where
  "adv_all [] s = Some s"
| "adv_all (h # hs) s = Option.bind (adv h s) (adv_all hs)"

lemma adv_all_max: "adv_all hs s = Some s' \<Longrightarrow> pos s' = Max (insert (pos s) (set hs))"
proof (induction hs arbitrary: s)
  case Nil
  then show ?case by simp
next
  case (Cons h hs)
  then obtain s1 where 1: "adv h s = Some s1" "adv_all hs s1 = Some s'"
    by (auto simp: bind_eq_Some_conv)
  have "pos s' = Max (insert (max (pos s) h) (set hs))"
    using Cons.IH [OF 1(2)] adv_max [OF 1(1)] by simp
  also have "\<dots> = Max (insert (pos s) (set (h # hs)))"
    by (cases "set hs = {}") (auto simp: max.assoc)
  finally show ?case .
qed

lemma never_down: "adv_all hs s = Some s' \<Longrightarrow> pos s \<le> pos s'"
  by (simp add: adv_all_max)

lemma order_irrelevant:
  "adv_all hs s = Some s1 \<Longrightarrow> adv_all hs' s = Some s2 \<Longrightarrow> set hs = set hs' \<Longrightarrow> pos s1 = pos s2"
  by (simp add: adv_all_max)

end

definition advance :: "i64 \<Rightarrow> i64 \<Rightarrow> db \<Rightarrow> db option" where
  "advance ts h d =
     (if cursor_ok d \<and> in_i64 h \<and> - 1 \<le> h
      then Some (snd (write_cursor_stmt (BlockHeight h) ts d)) else None)"

interpretation cur: monotone_register cursor_pos "advance ts" for ts
proof
  fix h d d'
  assume "advance ts h d = Some d'"
  then show "cursor_pos d' = max (cursor_pos d) h"
    using write_cursor_run [of d "BlockHeight h" ts]
    by (auto simp: advance_def cursor_pos_def split: if_splits)
qed

section \<open>Statements on different tables are independent\<close>

text \<open>
  A statement that reads and writes one part of the database and otherwise only needs rows that stay
  there: what it did once it does again on any database with the same part and at least the rows
  it needs.
\<close>

locale independent_table =
  fixes part :: "db \<Rightarrow> 's" and put :: "'s \<Rightarrow> db \<Rightarrow> db" and more :: "db \<Rightarrow> db \<Rightarrow> bool"
    and stmt :: "'p \<Rightarrow> (db, sqlx_error, unit) io"
  assumes local: "stmt p d = (Inr (), d') \<Longrightarrow> d' = put (part d') d"
    and again: "stmt p d = (Inr (), d') \<Longrightarrow> part d2 = part d \<Longrightarrow> more d d2 \<Longrightarrow>
                stmt p d2 = (Inr (), put (part d') d2)"
    and part_put [simp]: "part (put s d) = s" and put_put [simp]: "put s (put t d) = put s d"
    and put_part [simp]: "put (part d) d = d"
    and more_put: "more d d2 \<Longrightarrow> more (put s d) (put s d2)"
begin

lemma local_all: "for_io stmt ps d = (Inr (), d') \<Longrightarrow> d' = put (part d') d"
proof (induction ps arbitrary: d)
  case Nil
  then show ?case by (simp add: ret_io_def)
next
  case (Cons p ps)
  then obtain d1 where 1: "stmt p d = (Inr (), d1)" and 2: "for_io stmt ps d1 = (Inr (), d')"
    by (auto simp: bind_io_Inr)
  have "d' = put (part d') d1" by (rule Cons.IH [OF 2])
  also have "\<dots> = put (part d') (put (part d1) d)" using local [OF 1] by simp
  finally show ?case by simp
qed

lemma again_all:
  "for_io stmt ps d = (Inr (), d') \<Longrightarrow> part d2 = part d \<Longrightarrow> more d d2 \<Longrightarrow>
     for_io stmt ps d2 = (Inr (), put (part d') d2)"
proof (induction ps arbitrary: d d2)
  case Nil
  then show ?case by (auto simp: ret_io_def) (metis put_part)
next
  case (Cons p ps)
  then obtain d1 where 1: "stmt p d = (Inr (), d1)" and 2: "for_io stmt ps d1 = (Inr (), d')"
    by (auto simp: bind_io_Inr)
  have s: "stmt p d2 = (Inr (), put (part d1) d2)"
    by (rule again [OF 1 Cons.prems(2,3)])
  have "more d1 (put (part d1) d2)"
    using more_put [OF Cons.prems(3), of "part d1"] local [OF 1] by simp
  then have "for_io stmt ps (put (part d1) d2) = (Inr (), put (part d') (put (part d1) d2))"
    by (intro Cons.IH [OF 2]) simp_all
  with s show ?case
    by (auto simp: bind_io_Inr)
qed

end

lemma for_io_append:
  "for_io f (xs @ ys) d = (Inr (), d') \<longleftrightarrow>
     (\<exists>d1. for_io f xs d = (Inr (), d1) \<and> for_io f ys d1 = (Inr (), d'))"
  by (induction xs arbitrary: d) (auto simp: bind_io_Inr ret_io_def)

text \<open>A list inserted in chunks is inserted as a whole.\<close>

lemma for_io_chunks:
  "for_io (for_io f) xss d = (Inr (), d') \<longleftrightarrow> for_io f (concat xss) d = (Inr (), d')"
  by (induction xss arbitrary: d) (auto simp: bind_io_Inr for_io_append)

definition more_heights :: "db \<Rightarrow> db \<Rightarrow> bool" where
  "more_heights d d2 \<longleftrightarrow> br_height ` set (tbl_blocks d) \<subseteq> br_height ` set (tbl_blocks d2)"

definition more_rows :: "db \<Rightarrow> db \<Rightarrow> bool" where
  "more_rows d d2 \<longleftrightarrow> more_heights d d2 \<and> tr_hash ` set (tbl_txs d) \<subseteq> tr_hash ` set (tbl_txs d2)"

interpretation ind_blocks: independent_table tbl_blocks "\<lambda>s d. d\<lparr>tbl_blocks := s\<rparr>"
    "\<lambda>_ _. True" blocks_insert_stmt
  by unfold_locales
    (auto simp: blocks_insert_stmt_def exec_Inr block_row_insert_def insert_do_nothing_def
      split: if_splits)

interpretation ind_txs: independent_table tbl_txs "\<lambda>s d. d\<lparr>tbl_txs := s\<rparr>"
    more_heights transactions_insert_stmt
  by unfold_locales
    (auto simp: transactions_insert_stmt_def exec_Inr tx_row_insert_def insert_do_nothing_def
      has_block_iff more_heights_def split: if_splits)

interpretation ind_logs: independent_table tbl_logs "\<lambda>s d. d\<lparr>tbl_logs := s\<rparr>"
    more_rows logs_insert_stmt
  by unfold_locales
    (auto simp: logs_insert_stmt_def exec_Inr log_row_insert_def insert_do_nothing_def
      has_block_iff has_tx_iff more_rows_def more_heights_def split: if_splits)

interpretation ind_transfers: independent_table "\<lambda>d. (tbl_transfers d, transfers_seq d)"
    "\<lambda>s d. d\<lparr>tbl_transfers := fst s, transfers_seq := snd s\<rparr>"
    "\<lambda>_ _. True" token_transfers_insert_stmt
  by unfold_locales
    (auto simp: token_transfers_insert_stmt_def exec_Inr transfer_row_insert_def
      insert_do_nothing_def Let_def split: if_splits)

section \<open>What a write does when nothing fails on the wire\<close>

definition write_rows :: "block_bundle \<Rightarrow> (db, sync_error, unit) io" where
  "write_rows b =
     bind_io (map_err_io DbErr (insert_rows blocks_insert_stmt [bb_block b])) (\<lambda>_.
     bind_io (for_io (\<lambda>t. map_err_io DbErr (insert_rows transactions_insert_stmt [t])) (bb_txs b)) (\<lambda>_.
     bind_io (map_err_io DbErr (map_err_io DbSqlx (upsert_batch_stmt (tx_addresses (bb_txs b))))) (\<lambda>_.
     bind_io (for_io (\<lambda>l. map_err_io DbErr (insert_rows logs_insert_stmt [l])) (bb_logs b)) (\<lambda>_.
     bind_io (for_io (\<lambda>tt. map_err_io DbErr (insert_rows token_transfers_insert_stmt [tt]))
                (bb_token_transfers b)) (\<lambda>_.
       map_err_io SqlxErr (write_cursor_stmt (b_height (bb_block b)) (b_timestamp (bb_block b))))))))"

definition batch_rows :: "block_bundle list \<Rightarrow> (db, sync_error, unit) io" where
  "batch_rows bs =
     bind_io (for_io (\<lambda>c. map_err_io DbErr (insert_rows blocks_insert_stmt c))
                (chunks batch_insert_chunk (all_blocks bs))) (\<lambda>_.
     bind_io (for_io (\<lambda>c. map_err_io DbErr (insert_rows transactions_insert_stmt c))
                (chunks batch_insert_chunk (all_txs bs))) (\<lambda>_.
     bind_io (for_io (\<lambda>c. map_err_io DbErr (map_err_io DbSqlx (upsert_batch_stmt c)))
                (chunks batch_insert_chunk (tx_addresses (all_txs bs)))) (\<lambda>_.
     bind_io (for_io (\<lambda>c. map_err_io DbErr (insert_rows logs_insert_stmt c))
                (chunks batch_insert_chunk (all_logs bs))) (\<lambda>_.
     bind_io (for_io (\<lambda>c. map_err_io DbErr (insert_rows token_transfers_insert_stmt c))
                (chunks batch_insert_chunk (all_transfers bs))) (\<lambda>_.
       map_err_io SqlxErr (write_cursor_stmt (max_height bs) (cursor_ts bs)))))))"

lemma implements_upsert [implements_intros]:
  "implements (addresses_upsert_batch seen) (map_err_io DbSqlx (upsert_batch_stmt seen))"
proof (cases "seen = []")
  case True
  then have "map_err_io DbSqlx (upsert_batch_stmt seen) = ret_io ()"
    by (auto simp: map_err_io_def upsert_batch_stmt_def ret_io_def)
  with True show ?thesis by (simp add: addresses_upsert_batch_def implements_ret)
next
  case False
  then show ?thesis by (auto simp: addresses_upsert_batch_def intro!: implements_intros)
qed

lemma implements_write_cursor [implements_intros]:
  "implements (write_cursor h ts) (map_err_io SqlxErr (write_cursor_stmt h ts))"
  unfolding write_cursor_def by (intro implements_intros)

lemma write_block_body_implements: "implements (write_block_body b) (write_rows b)"
  unfolding write_block_body_def write_rows_def by (intro implements_intros)

lemma batch_body_implements: "implements (batch_body bs) (batch_rows bs)"
  unfolding batch_body_def batch_rows_def in_chunks_def by (intro implements_intros)

text \<open>Both bodies, success by success.\<close>

declare map_err_io_Inr [simp]

lemma for_io_cong_Inr:
  assumes "\<And>x d d'. f x d = (Inr (), d') \<longleftrightarrow> g x d = (Inr (), d')"
  shows "for_io f xs d = (Inr (), d') \<longleftrightarrow> for_io g xs d = (Inr (), d')"
  using assms by (induction xs arbitrary: d) (auto simp: bind_io_Inr ret_io_def)

lemma insert_rows_single_Inr [simp]:
  "insert_rows stmt [p] d = (Inr u, d') \<longleftrightarrow> stmt p d = (Inr (), d')"
  by (auto simp: insert_rows_Inr bind_io_Inr ret_io_def)

lemma for_singles_Inr [simp]:
  "for_io (\<lambda>p. map_err_io DbErr (insert_rows stmt [p])) ps d = (Inr (), d') \<longleftrightarrow>
     for_io stmt ps d = (Inr (), d')"
  by (rule for_io_cong_Inr) simp

lemma for_chunks_Inr [simp]:
  assumes "0 < n"
  shows "for_io (\<lambda>c. map_err_io DbErr (insert_rows stmt c)) (chunks n ps) d = (Inr (), d') \<longleftrightarrow>
     for_io stmt ps d = (Inr (), d')"
proof -
  have "for_io (\<lambda>c. map_err_io DbErr (insert_rows stmt c)) (chunks n ps) d = (Inr (), d') \<longleftrightarrow>
      for_io (for_io stmt) (chunks n ps) d = (Inr (), d')"
    by (rule for_io_cong_Inr) (simp add: insert_rows_Inr)
  then show ?thesis
    using assms by (simp add: for_io_chunks concat_chunks)
qed

lemma batch_insert_chunk_pos [simp]: "0 < batch_insert_chunk"
  by (simp add: batch_insert_chunk_def)

lemma write_rows_Inr:
  "write_rows b d = (Inr (), d') \<longleftrightarrow>
     (\<exists>d1 d2 d3 d4 d5. blocks_insert_stmt (bb_block b) d = (Inr (), d1) \<and>
        for_io transactions_insert_stmt (bb_txs b) d1 = (Inr (), d2) \<and>
        upsert_batch_stmt (tx_addresses (bb_txs b)) d2 = (Inr (), d3) \<and>
        for_io logs_insert_stmt (bb_logs b) d3 = (Inr (), d4) \<and>
        for_io token_transfers_insert_stmt (bb_token_transfers b) d4 = (Inr (), d5) \<and>
        write_cursor_stmt (b_height (bb_block b)) (b_timestamp (bb_block b)) d5 = (Inr (), d'))"
  by (simp add: write_rows_def bind_io_Inr)

lemma batch_rows_Inr:
  "batch_rows bs d = (Inr (), d') \<longleftrightarrow>
     (\<exists>d1 d2 d3 d4 d5. for_io blocks_insert_stmt (all_blocks bs) d = (Inr (), d1) \<and>
        for_io transactions_insert_stmt (all_txs bs) d1 = (Inr (), d2) \<and>
        for_io upsert_batch_stmt (chunks batch_insert_chunk (tx_addresses (all_txs bs))) d2 = (Inr (), d3) \<and>
        for_io logs_insert_stmt (all_logs bs) d3 = (Inr (), d4) \<and>
        for_io token_transfers_insert_stmt (all_transfers bs) d4 = (Inr (), d5) \<and>
        write_cursor_stmt (max_height bs) (cursor_ts bs) d5 = (Inr (), d'))"
proof -
  have "for_io (\<lambda>c. map_err_io DbErr (map_err_io DbSqlx (upsert_batch_stmt c))) cs d = (Inr (), d') \<longleftrightarrow>
      for_io upsert_batch_stmt cs d = (Inr (), d')" for cs d d'
    by (rule for_io_cong_Inr) simp
  then show ?thesis
    by (simp add: batch_rows_def bind_io_Inr)
qed

end
