(* ===== verification/Writer_Replay.thy ===== *)
theory Writer_Replay
  imports Writer_Laws
begin

text \<open>
  Replaying writes. \<open>same_content\<close> compares databases up to the surrogate identities of
  \<open>token_transfers\<close> and \<open>cb_trades\<close>, which a rolled-back attempt may have consumed. A bundle that is
  written, retried or written again leaves the content of one write. The registry of addresses is
  described by lookups: which block an address was first and last seen in after a series of writes.
\<close>

section \<open>Content up to surrogate identities\<close>

definition same_content :: "db \<Rightarrow> db \<Rightarrow> bool" where
  "same_content d e \<longleftrightarrow>
     tbl_blocks e = tbl_blocks d \<and> tbl_txs e = tbl_txs d \<and> tbl_logs e = tbl_logs d \<and>
     tbl_addresses e = tbl_addresses d \<and> tbl_meta e = tbl_meta d \<and>
     tbl_cb_tokens e = tbl_cb_tokens d \<and>
     map (fr_id_update (\<lambda>_. 0)) (tbl_transfers e) = map (fr_id_update (\<lambda>_. 0)) (tbl_transfers d) \<and>
     map (cr_id_update (\<lambda>_. 0)) (tbl_cb_trades e) = map (cr_id_update (\<lambda>_. 0)) (tbl_cb_trades d)"

lemma same_content_refl [simp]: "same_content d d"
  by (simp add: same_content_def)

lemma same_content_sym: "same_content d e \<Longrightarrow> same_content e d"
  by (simp add: same_content_def)

lemma same_content_trans: "same_content a b \<Longrightarrow> same_content b c \<Longrightarrow> same_content a c"
  by (simp add: same_content_def)

lemma same_tables_content: "same_tables d e \<Longrightarrow> same_content d e"
  by (simp add: same_content_def same_tables_iff)

lemma transfer_key_erase [simp]: "transfer_key (r\<lparr>fr_id := i\<rparr>) = transfer_key r"
  by (simp add: transfer_key_def)

lemma erased_keys:
  assumes "map (fr_id_update (\<lambda>_. 0)) xs = map (fr_id_update (\<lambda>_. 0)) ys"
  shows "transfer_key ` set xs = transfer_key ` set ys"
proof -
  have "map transfer_key (map (fr_id_update (\<lambda>_. 0)) zs) = map transfer_key zs" for zs
    by (simp add: comp_def)
  with assms have "map transfer_key xs = map transfer_key ys" by metis
  then show ?thesis by (metis set_map)
qed

definition absorb_transfer :: "token_transfer \<Rightarrow> db \<Rightarrow> db" where
  "absorb_transfer t d =
     (let i = Suc (transfers_seq d) in
      d\<lparr>transfers_seq := i,
        tbl_transfers := (if transfer_key (transfer_to_row t 0) \<in> transfer_key ` set (tbl_transfers d)
                          then tbl_transfers d
                          else tbl_transfers d @ [transfer_to_row t (int i)])\<rparr>)"

lemma transfer_stmt_Inr:
  "token_transfers_insert_stmt t d = (Inr (), d') \<longleftrightarrow>
     transfer_fits (transfer_to_row t 0) \<and> d' = absorb_transfer t d"
proof -
  have "list_ex (\<lambda>y. transfer_key (transfer_to_row t i) = transfer_key y) (tbl_transfers d) \<longleftrightarrow>
      transfer_key (transfer_to_row t 0) \<in> transfer_key ` set (tbl_transfers d)" for i
    by (auto simp: list_ex_iff)
  moreover have "transfer_fits (transfer_to_row t i) \<longleftrightarrow> transfer_fits (transfer_to_row t 0)" for i
    by (rule transfer_to_row_id(2))
  moreover have "list_ex (\<lambda>_. False) xs = False" for xs :: "transfer_row list"
    by (simp add: list_ex_iff)
  ultimately show ?thesis
    unfolding token_transfers_insert_stmt_def exec_Inr transfer_row_insert_def
      insert_do_nothing_def absorb_transfer_def Let_def
    by (auto simp del: transfer_to_row_id)
qed

lemma absorb_transfer_content:
  assumes "same_content d e"
  shows "same_content (absorb_transfer t d) (absorb_transfer t e)"
proof -
  have "transfer_key ` set (tbl_transfers d) = transfer_key ` set (tbl_transfers e)"
    using assms by (auto simp: same_content_def dest: erased_keys)
  moreover have "(transfer_to_row t i)\<lparr>fr_id := 0\<rparr> = (transfer_to_row t j)\<lparr>fr_id := 0\<rparr>" for i j
    by (simp add: transfer_to_row_def)
  ultimately show ?thesis
    using assms by (simp add: absorb_transfer_def same_content_def Let_def)
qed

lemma transfers_content:
  assumes "for_io token_transfers_insert_stmt ts d = (Inr (), d')" "same_content d e"
  shows "\<exists>e'. for_io token_transfers_insert_stmt ts e = (Inr (), e') \<and> same_content d' e'"
  using assms
proof (induction ts arbitrary: d e)
  case Nil
  then show ?case by (auto simp: ret_io_def)
next
  case (Cons t ts)
  then have fits: "transfer_fits (transfer_to_row t 0)"
    and 2: "for_io token_transfers_insert_stmt ts (absorb_transfer t d) = (Inr (), d')"
    by (auto simp: bind_io_Inr transfer_stmt_Inr)
  from Cons.IH [OF 2 absorb_transfer_content [OF Cons.prems(2)]] fits show ?case
    by (auto simp: bind_io_Inr transfer_stmt_Inr)
qed

lemma same_content_put:
  assumes "same_content d e"
  shows "same_content (d\<lparr>tbl_blocks := s1\<rparr>) (e\<lparr>tbl_blocks := s1\<rparr>)"
    "same_content (d\<lparr>tbl_txs := s2\<rparr>) (e\<lparr>tbl_txs := s2\<rparr>)"
    "same_content (d\<lparr>tbl_logs := s3\<rparr>) (e\<lparr>tbl_logs := s3\<rparr>)"
    "same_content (d\<lparr>tbl_addresses := s4\<rparr>) (e\<lparr>tbl_addresses := s4\<rparr>)"
    "same_content (d\<lparr>tbl_meta := s5\<rparr>) (e\<lparr>tbl_meta := s5\<rparr>)"
  using assms by (simp_all add: same_content_def)

lemma upsert_batch_Inr:
  "upsert_batch_stmt seen d = (Inr (), d') \<longleftrightarrow>
     list_all (\<lambda>s. varchar_fits 42 (fst s)) seen \<and> distinct (map fst seen) \<and>
     d' = d\<lparr>tbl_addresses := fold upsert_address_row seen (tbl_addresses d)\<rparr>"
  by (auto simp: upsert_batch_stmt_def)

lemma write_cursor_content:
  assumes "write_cursor_stmt h ts d = (Inr (), d')" "same_content d e"
  shows "write_cursor_stmt h ts e = (Inr (), e\<lparr>tbl_meta := tbl_meta d'\<rparr>)"
    "d' = d\<lparr>tbl_meta := tbl_meta d'\<rparr>"
  using assms
  by (auto simp: write_cursor_stmt_def meta_upsert_def meta_row_of_def same_content_def
      split: if_splits option.splits sum.splits)

lemma write_rows_content:
  assumes "write_rows b d = (Inr (), d')" "same_content d e"
  shows "\<exists>e'. write_rows b e = (Inr (), e') \<and> same_content d' e'"
proof -
  from assms(1) obtain d1 d2 d3 d4 d5 where
    1: "blocks_insert_stmt (bb_block b) d = (Inr (), d1)" and
    2: "for_io transactions_insert_stmt (bb_txs b) d1 = (Inr (), d2)" and
    3: "upsert_batch_stmt (tx_addresses (bb_txs b)) d2 = (Inr (), d3)" and
    4: "for_io logs_insert_stmt (bb_logs b) d3 = (Inr (), d4)" and
    5: "for_io token_transfers_insert_stmt (bb_token_transfers b) d4 = (Inr (), d5)" and
    6: "write_cursor_stmt (b_height (bb_block b)) (b_timestamp (bb_block b)) d5 = (Inr (), d')"
    by (auto simp: write_rows_Inr)
  let ?e1 = "e\<lparr>tbl_blocks := tbl_blocks d1\<rparr>"
  have "blocks_insert_stmt (bb_block b) e = (Inr (), ?e1)"
    using assms(2) by (intro ind_blocks.again [OF 1]) (simp_all add: same_content_def)
  moreover have c1: "same_content d1 ?e1"
    by (subst ind_blocks.local [OF 1]) (rule same_content_put(1) [OF assms(2)])
  let ?e2 = "?e1\<lparr>tbl_txs := tbl_txs d2\<rparr>"
  have "for_io transactions_insert_stmt (bb_txs b) ?e1 = (Inr (), ?e2)"
    using c1 by (intro ind_txs.again_all [OF 2]) (simp_all add: same_content_def more_heights_def)
  moreover have c2: "same_content d2 ?e2"
    by (subst ind_txs.local_all [OF 2]) (rule same_content_put(2) [OF c1])
  let ?e3 = "?e2\<lparr>tbl_addresses := tbl_addresses d3\<rparr>"
  have "upsert_batch_stmt (tx_addresses (bb_txs b)) ?e2 = (Inr (), ?e3)"
    using 3 c2 by (simp add: upsert_batch_Inr same_content_def)
  moreover have c3: "same_content d3 ?e3"
    using 3 same_content_put(4) [OF c2, of "tbl_addresses d3"] by (simp add: upsert_batch_Inr)
  let ?e4 = "?e3\<lparr>tbl_logs := tbl_logs d4\<rparr>"
  have "for_io logs_insert_stmt (bb_logs b) ?e3 = (Inr (), ?e4)"
    using c3
    by (intro ind_logs.again_all [OF 4])
      (simp_all add: same_content_def more_rows_def more_heights_def)
  moreover have c4: "same_content d4 ?e4"
    by (subst ind_logs.local_all [OF 4]) (rule same_content_put(3) [OF c3])
  moreover obtain e5 where
    "for_io token_transfers_insert_stmt (bb_token_transfers b) ?e4 = (Inr (), e5)"
    and c5: "same_content d5 e5"
    using transfers_content [OF 5 c4] by blast
  moreover have "same_content d' (e5\<lparr>tbl_meta := tbl_meta d'\<rparr>)"
    using same_content_put(5) [OF c5] write_cursor_content(2) [OF 6 c5] by metis
  ultimately have "write_rows b e = (Inr (), e5\<lparr>tbl_meta := tbl_meta d'\<rparr>)"
    using write_cursor_content(1) [OF 6 c5] unfolding write_rows_Inr by blast
  with \<open>same_content d' (e5\<lparr>tbl_meta := tbl_meta d'\<rparr>)\<close> show ?thesis by blast
qed

section \<open>Writing twice\<close>

definition seen_by :: "address_row list \<Rightarrow> string \<times> i64 \<Rightarrow> bool" where
  "seen_by rows s \<longleftrightarrow> fst s \<in> ar_address ` set rows \<and>
     (\<forall>r\<in>set rows. ar_address r = fst s \<longrightarrow> snd s \<le> ar_last_seen r)"

lemma upsert_seen: "seen_by rows s \<Longrightarrow> upsert_address_row s rows = rows"
  by (auto simp: upsert_address_row_def seen_by_def list_ex_iff max_def intro!: map_idI)

lemma seen_by_upsert_self: "seen_by (upsert_address_row s rows) s"
proof (cases "list_ex (\<lambda>r. ar_address r = fst s) rows")
  case True
  then have "fst s \<in> ar_address ` set rows"
    unfolding list_ex_iff by (metis image_eqI)
  then have "fst s \<in> ar_address ` set (upsert_address_row s rows)"
    using upsert_address_keys [of s rows] by (metis set_map)
  moreover have "\<forall>r\<in>set (upsert_address_row s rows). ar_address r = fst s \<longrightarrow> snd s \<le> ar_last_seen r"
    unfolding upsert_address_row_def if_P [OF True] by (simp only: set_map ball_simps) simp
  ultimately show ?thesis
    unfolding seen_by_def by blast
next
  case False
  then show ?thesis
    by (auto simp: upsert_address_row_def seen_by_def list_ex_iff)
qed

lemma seen_by_upsert_other:
  assumes "seen_by rows s"
  shows "seen_by (upsert_address_row t rows) s"
proof -
  have "ar_address ` set rows \<subseteq> ar_address ` set (upsert_address_row t rows)"
    using upsert_address_keys [of t rows] by (metis Un_upper1 order_refl set_append set_map)
  moreover have "snd s \<le> ar_last_seen r"
    if "r \<in> set (upsert_address_row t rows)" "ar_address r = fst s" for r
  proof (cases "list_ex (\<lambda>r. ar_address r = fst t) rows")
    case True
    with that obtain q where "q \<in> set rows" "ar_address q = fst s" "ar_last_seen q \<le> ar_last_seen r"
      by (auto simp: upsert_address_row_def split: if_splits)
    with assms show ?thesis by (force simp: seen_by_def)
  next
    case False
    with assms that show ?thesis
      by (auto simp: upsert_address_row_def seen_by_def list_ex_iff)
  qed
  ultimately show ?thesis
    using assms unfolding seen_by_def by blast
qed

lemma seen_by_fold: "seen_by rows s \<Longrightarrow> seen_by (fold upsert_address_row seen rows) s"
  by (induction seen arbitrary: rows) (auto simp: seen_by_upsert_other)

lemma fold_upsert_seen: "\<forall>s\<in>set seen. seen_by rows s \<Longrightarrow> fold upsert_address_row seen rows = rows"
  by (induction seen) (auto simp: upsert_seen)

lemma fold_upsert_twice:
  "fold upsert_address_row seen (fold upsert_address_row seen rows) = fold upsert_address_row seen rows"
proof (rule fold_upsert_seen)
  have "\<forall>s\<in>set seen. seen_by (fold upsert_address_row seen rows) s" for rows
    by (induction seen arbitrary: rows) (auto intro: seen_by_fold seen_by_upsert_self)
  then show "\<forall>s\<in>set seen. seen_by (fold upsert_address_row seen rows) s" .
qed

lemma write_cursor_twice:
  assumes "write_cursor_stmt h ts d = (Inr (), d')" "in_i64 (height_val h)"
  shows "write_cursor_stmt h ts d' = (Inr (), d')"
proof (cases "meta_row_of d last_synced_height_key")
  case None
  let ?row = "\<lparr>mr_key = last_synced_height_key, mr_value = i64_to_string (height_val h), mr_updated_at = ts\<rparr>"
  from None assms have d': "d' = d\<lparr>tbl_meta := tbl_meta d @ [?row]\<rparr>"
    by (simp add: write_cursor_stmt_def meta_upsert_def cursor_key_fits)
  have "r\<lparr>mr_value := v, mr_updated_at := t\<rparr> = r" if "mr_value r = v" "mr_updated_at r = t"
    for r :: meta_row and v t
    using that by (cases r) simp
  moreover from None have "\<forall>r\<in>set (tbl_meta d). mr_key r \<noteq> last_synced_height_key"
    by (auto simp: meta_row_of_def find_None_iff)
  ultimately have "map (\<lambda>r. if mr_key r = last_synced_height_key
      then r\<lparr>mr_value := i64_to_string (height_val h), mr_updated_at := ts\<rparr> else r) (tbl_meta d')
      = tbl_meta d'"
    by (auto simp: d' intro!: map_idI)
  moreover have "meta_row_of d' last_synced_height_key = Some ?row"
    using None by (simp add: d' meta_row_of_def find_append_new)
  ultimately show ?thesis
    using assms(2)
    by (simp add: write_cursor_stmt_def meta_upsert_def cursor_key_fits greatest_int8_text)
next
  case (Some r)
  with assms obtain v where v: "greatest_int8 (mr_value r) (i64_to_string (height_val h)) = Inr v"
    and d': "d' = d\<lparr>tbl_meta := map (\<lambda>r. if mr_key r = last_synced_height_key
      then r\<lparr>mr_value := v, mr_updated_at := ts\<rparr> else r) (tbl_meta d)\<rparr>"
    by (auto simp: write_cursor_stmt_def meta_upsert_def cursor_key_fits split: sum.splits)
  from v obtain a where a: "in_i64 a" "v = i64_to_string (max a (height_val h))"
    using assms(2) parse_i64_range
    by (auto simp: greatest_int8_def pg_int8_def bind_result_Inr parse_i64_to_string)
  have "in_i64 (max a (height_val h))"
    using a assms(2) by (simp add: max_def)
  then have "greatest_int8 v (i64_to_string (height_val h)) = Inr v"
    using a assms(2) by (simp add: greatest_int8_text)
  moreover have "meta_row_of d' last_synced_height_key = Some (r\<lparr>mr_value := v, mr_updated_at := ts\<rparr>)"
    using Some by (simp add: d' meta_row_of_def find_map_update)
  moreover have "map (\<lambda>r. if mr_key r = last_synced_height_key
      then r\<lparr>mr_value := v, mr_updated_at := ts\<rparr> else r) (tbl_meta d') = tbl_meta d'"
    by (auto simp: d' comp_def)
  ultimately show ?thesis
    by (simp add: write_cursor_stmt_def meta_upsert_def cursor_key_fits)
qed

text \<open>Which rows the tables have after a bundle was written.\<close>

lemma insert_stmt_folds:
  "for_io blocks_insert_stmt bs = for_io (\<lambda>p. exec (block_row_insert p)) (map block_to_row bs)"
  "for_io transactions_insert_stmt ts = for_io (\<lambda>p. exec (tx_row_insert p)) (map tx_to_row ts)"
  "for_io logs_insert_stmt ls = for_io (\<lambda>p. exec (log_row_insert p)) (map log_to_row ls)"
  subgoal by (induction bs) (simp_all add: blocks_insert_stmt_def)
  subgoal by (induction ts) (simp_all add: transactions_insert_stmt_def)
  subgoal by (induction ls) (simp_all add: logs_insert_stmt_def)
  done

lemma token_transfers_fold:
  "for_io token_transfers_insert_stmt ts =
     for_io (\<lambda>t. exec (transfer_row_insert (transfer_to_row t))) ts"
  by (simp add: token_transfers_insert_stmt_def [abs_def])

lemma write_rows_twice:
  assumes w: "write_rows b d = (Inr (), d')" and h: "in_i64 (height_val (b_height (bb_block b)))"
  shows "\<exists>d''. write_rows b d' = (Inr (), d'') \<and> same_tables d' d''"
proof -
  from w obtain d1 d2 d3 d4 d5 where
    1: "blocks_insert_stmt (bb_block b) d = (Inr (), d1)" and
    2: "for_io transactions_insert_stmt (bb_txs b) d1 = (Inr (), d2)" and
    3: "upsert_batch_stmt (tx_addresses (bb_txs b)) d2 = (Inr (), d3)" and
    4: "for_io logs_insert_stmt (bb_logs b) d3 = (Inr (), d4)" and
    5: "for_io token_transfers_insert_stmt (bb_token_transfers b) d4 = (Inr (), d5)" and
    6: "write_cursor_stmt (b_height (bb_block b)) (b_timestamp (bb_block b)) d5 = (Inr (), d')"
    by (auto simp: write_rows_Inr)
  have single: "for_io blocks_insert_stmt [bb_block b] d = (Inr (), d1)"
    using 1 by (simp add: bind_io_Inr ret_io_def)
  have keys1: "\<forall>p\<in>set (map block_to_row [bb_block b]). block_fits p \<and> br_height p \<in> br_height ` set (tbl_blocks d1)"
    using blocks_tbl.all_rows [OF single [unfolded insert_stmt_folds]] by auto
  have keys2: "\<forall>p\<in>set (map tx_to_row (bb_txs b)). tx_fits p \<and> tr_hash p \<in> tr_hash ` set (tbl_txs d2)"
    using txs_tbl.all_rows [OF 2 [unfolded insert_stmt_folds]] by (metis UnI1 imageI)
  have keys4: "\<forall>p\<in>set (map log_to_row (bb_logs b)). log_fits p \<and> log_key p \<in> log_key ` set (tbl_logs d4)"
    using logs_tbl.all_rows [OF 4 [unfolded insert_stmt_folds]] by (metis UnI1 imageI)
  have keys5: "\<forall>t\<in>set (bb_token_transfers b). transfer_fits (transfer_to_row t 0) \<and>
      (tt_tx_hash t, log_index_val (tt_log_index t)) \<in> transfer_key ` set (tbl_transfers d5)"
    using transfers_tbl.all_rows [OF 5 [unfolded token_transfers_fold]] by (metis (no_types, lifting) UnI1 imageI)
  note eqs = ind_blocks.local [OF 1] ind_txs.local_all [OF 2] ind_logs.local_all [OF 4]
    ind_transfers.local_all [OF 5] write_cursor_content(2) [OF 6 same_content_refl]
  have eq3: "d3 = d2\<lparr>tbl_addresses := fold upsert_address_row (tx_addresses (bb_txs b)) (tbl_addresses d2)\<rparr>"
    using 3 by (simp add: upsert_batch_Inr)
  have frame: "tbl_blocks d' = tbl_blocks d1" "tbl_txs d' = tbl_txs d2" "tbl_logs d' = tbl_logs d4"
    "tbl_transfers d' = tbl_transfers d5" "tbl_addresses d' = tbl_addresses d3" 
    using arg_cong [OF eqs(5), of tbl_blocks] arg_cong [OF eqs(4), of tbl_blocks]
      arg_cong [OF eqs(3), of tbl_blocks] arg_cong [OF eq3, of tbl_blocks]
      arg_cong [OF eqs(2), of tbl_blocks]
      arg_cong [OF eqs(5), of tbl_txs] arg_cong [OF eqs(4), of tbl_txs]
      arg_cong [OF eqs(3), of tbl_txs] arg_cong [OF eq3, of tbl_txs]
      arg_cong [OF eqs(5), of tbl_logs] arg_cong [OF eqs(4), of tbl_logs]
      arg_cong [OF eqs(5), of tbl_transfers]
      arg_cong [OF eqs(5), of tbl_addresses] arg_cong [OF eqs(4), of tbl_addresses]
      arg_cong [OF eqs(3), of tbl_addresses]
    by simp_all
  obtain e1 where e1: "blocks_insert_stmt (bb_block b) d' = (Inr (), e1)" "same_tables d' e1"
    using blocks_tbl.replay [OF keys1 [folded frame(1)]]
    by (auto simp: insert_stmt_folds(1) [symmetric] bind_io_Inr ret_io_def blocks_insert_stmt_def)
  obtain e2 where e2: "for_io transactions_insert_stmt (bb_txs b) e1 = (Inr (), e2)" "same_tables e1 e2"
    using txs_tbl.replay [of "map tx_to_row (bb_txs b)" e1] keys2 e1(2) frame(2)
    by (auto simp: insert_stmt_folds same_tablesD)
  have "fold upsert_address_row (tx_addresses (bb_txs b)) (tbl_addresses e2) = tbl_addresses e2"
    using same_tablesD(5) [OF e1(2)] same_tablesD(5) [OF e2(2)] frame(5) eq3
    by (simp add: fold_upsert_twice)
  then have e3: "upsert_batch_stmt (tx_addresses (bb_txs b)) e2 = (Inr (), e2)"
    using 3 by (simp add: upsert_batch_Inr)
  obtain e4 where e4: "for_io logs_insert_stmt (bb_logs b) e2 = (Inr (), e4)" "same_tables e2 e4"
    using logs_tbl.replay [of "map log_to_row (bb_logs b)" e2] keys4 e1(2) e2(2) frame(3)
    by (auto simp: insert_stmt_folds same_tablesD)
  obtain e5 where e5: "for_io token_transfers_insert_stmt (bb_token_transfers b) e4 = (Inr (), e5)"
    "same_tables e4 e5"
    using transfers_tbl.replay [of "bb_token_transfers b" e4] keys5 e1(2) e2(2) e4(2) frame(4)
    by (auto simp: token_transfers_fold same_tablesD)
  have all: "same_tables d' e5"
    using e1(2) e2(2) e4(2) e5(2) by (blast intro: same_tables_trans)
  have "write_cursor_stmt (b_height (bb_block b)) (b_timestamp (bb_block b)) e5 =
      (Inr (), e5\<lparr>tbl_meta := tbl_meta d'\<rparr>)"
    by (rule write_cursor_content(1) [OF write_cursor_twice [OF 6 h] same_tables_content [OF all]])
  moreover have "e5\<lparr>tbl_meta := tbl_meta d'\<rparr> = e5"
    using same_tablesD(6) [OF all] by (metis db.surjective db.update_convs(6))
  ultimately have "write_rows b d' = (Inr (), e5)"
    using e1(1) e2(1) e3 e4(1) e5(1) unfolding write_rows_Inr by metis
  with all show ?thesis by blast
qed

end
