(* ===== verification/Writer_Props.thy ===== *)
theory Writer_Props
  imports Writer_Replay
begin

text \<open>
  Correctness of the block writer: the schema's constraints and the cursor survive whatever the
  connection does, a bundle is written entirely or not at all, and any number of attempts to write
  it has the effect of one. The address registry is described by lookups, and the batched writer is
  compared with block-by-block writes.
\<close>

section \<open>Invariants\<close>

definition cursor_at_least :: "i64 \<Rightarrow> db \<Rightarrow> bool" where
  "cursor_at_least c d \<longleftrightarrow> cursor_ok d \<and> c \<le> cursor_pos d"

interpretation cursor_inv: db_invariant "cursor_at_least c" for c
  by unfold_locales
    (simp add: cursor_at_least_def cursor_depends_on_meta(2,3) [OF restore_tables(6)])

definition height_ok :: "block_height \<Rightarrow> bool" where
  "height_ok h \<longleftrightarrow> in_i64 (height_val h) \<and> - 1 \<le> height_val h"

lemma cursor_at_least_meta:
  "tbl_meta d' = tbl_meta d \<Longrightarrow> cursor_at_least c d' = cursor_at_least c d"
  using cursor_depends_on_meta(2,3) [of d' d] by (simp add: cursor_at_least_def)

lemma stmts_keep_meta:
  "tbl_meta (snd (blocks_insert_stmt b d)) = tbl_meta d"
  "tbl_meta (snd (transactions_insert_stmt t d)) = tbl_meta d"
  "tbl_meta (snd (logs_insert_stmt l d)) = tbl_meta d"
  "tbl_meta (snd (token_transfers_insert_stmt tt d)) = tbl_meta d"
  "tbl_meta (snd (upsert_batch_stmt seen d)) = tbl_meta d"
  "tbl_meta (snd (delete_blocks_where p d)) = tbl_meta d"
  by (simp_all add: blocks_insert_stmt_def transactions_insert_stmt_def logs_insert_stmt_def
      token_transfers_insert_stmt_def exec_def bind_io_def ret_io_def block_row_insert_def
      tx_row_insert_def log_row_insert_def transfer_row_insert_def upsert_batch_stmt_def
      delete_blocks_where_def Let_def split: sum.splits prod.splits)

lemma stmts_keep_cursor [keeps_intros]:
  "keeps (cursor_at_least c) (blocks_insert_stmt b)"
  "keeps (cursor_at_least c) (transactions_insert_stmt t)"
  "keeps (cursor_at_least c) (logs_insert_stmt l)"
  "keeps (cursor_at_least c) (token_transfers_insert_stmt tt)"
  "keeps (cursor_at_least c) (upsert_batch_stmt seen)"
  "keeps (cursor_at_least c) (delete_blocks_where p)"
  by (rule keepsI, subst cursor_at_least_meta [OF stmts_keep_meta(1)], assumption)
    (rule keepsI, subst cursor_at_least_meta [OF stmts_keep_meta(2)], assumption,
     rule keepsI, subst cursor_at_least_meta [OF stmts_keep_meta(3)], assumption,
     rule keepsI, subst cursor_at_least_meta [OF stmts_keep_meta(4)], assumption,
     rule keepsI, subst cursor_at_least_meta [OF stmts_keep_meta(5)], assumption,
     rule keepsI, subst cursor_at_least_meta [OF stmts_keep_meta(6)], assumption)

lemma write_cursor_keeps_cursor [keeps_intros]:
  assumes "height_ok h"
  shows "keeps (cursor_at_least c) (write_cursor_stmt h ts)"
proof (rule keepsI)
  fix d
  assume "cursor_at_least c d"
  then show "cursor_at_least c (snd (write_cursor_stmt h ts d))"
    using write_cursor_run [of d h ts] assms
    by (auto simp: cursor_at_least_def height_ok_def cursor_pos_def)
qed

lemma table_ops_cursor [keeps_intros]:
  "keeps (\<lambda>w. cursor_at_least c (w_db w)) (blocks_insert b)"
  "keeps (\<lambda>w. cursor_at_least c (w_db w)) (transactions_insert t)"
  "keeps (\<lambda>w. cursor_at_least c (w_db w)) (logs_insert l)"
  "keeps (\<lambda>w. cursor_at_least c (w_db w)) (token_transfers_insert tt)"
  "keeps (\<lambda>w. cursor_at_least c (w_db w)) (blocks_insert_batch bs)"
  "keeps (\<lambda>w. cursor_at_least c (w_db w)) (transactions_insert_batch ts)"
  "keeps (\<lambda>w. cursor_at_least c (w_db w)) (logs_insert_batch ls)"
  "keeps (\<lambda>w. cursor_at_least c (w_db w)) (token_transfers_insert_batch tts)"
  "keeps (\<lambda>w. cursor_at_least c (w_db w)) (addresses_upsert_batch seen)"
  "keeps (\<lambda>w. cursor_at_least c (w_db w)) (delete_from h)"
  unfolding blocks_insert_def transactions_insert_def logs_insert_def token_transfers_insert_def
    blocks_insert_batch_def transactions_insert_batch_def logs_insert_batch_def
    token_transfers_insert_batch_def addresses_upsert_batch_def delete_from_def
  by (auto intro!: keeps_intros cursor_inv.keeps_request)

lemma write_cursor_wf [keeps_intros]: "keeps (\<lambda>w. db_wf (w_db w)) (write_cursor h ts)"
  unfolding write_cursor_def write_cursor_stmt_def
  by (intro keeps_intros wf.keeps_request)

lemma write_cursor_cursor [keeps_intros]:
  "height_ok h \<Longrightarrow> keeps (\<lambda>w. cursor_at_least c (w_db w)) (write_cursor h ts)"
  unfolding write_cursor_def by (intro keeps_intros cursor_inv.keeps_request)

lemma push_all_db: "w_db (snd (push_all rs w)) = w_db w" "w_net (snd (push_all rs w)) = w_net w"
  by (induction rs arbitrary: w) (auto simp: push_def split: prod.splits sum.splits)

lemma keeps_then_push:
  assumes "keeps (\<lambda>w. Q (w_db w)) m"
  shows "keeps (\<lambda>w. Q (w_db w)) (bind_io m (\<lambda>_ w. (Inr (), if an then snd (push_all rs w) else w)))"
  using assms by (intro keeps_bind) (auto simp: keeps_def push_all_db)

lemma write_block_keeps_wf [keeps_intros]: "keeps (\<lambda>w. db_wf (w_db w)) (write_block x an b)"
  unfolding write_block_def
  by (intro keeps_then_push wf.keeps_transaction) (unfold write_block_body_def, intro keeps_intros)

lemma batch_write_blocks_keeps_wf [keeps_intros]:
  "keeps (\<lambda>w. db_wf (w_db w)) (batch_write_blocks x an bs)"
proof (cases "bs = []")
  case True
  then show ?thesis by (simp add: batch_write_blocks_def keeps_ret)
next
  case False
  then show ?thesis
    unfolding batch_write_blocks_def if_not_P [OF False]
    by (intro keeps_then_push wf.keeps_transaction)
      (unfold batch_body_def in_chunks_def, intro keeps_intros)
qed

lemma write_block_keeps_cursor [keeps_intros]:
  "height_ok (b_height (bb_block b)) \<Longrightarrow>
     keeps (\<lambda>w. cursor_at_least c (w_db w)) (write_block x an b)"
  unfolding write_block_def
  by (intro keeps_then_push cursor_inv.keeps_transaction)
    (unfold write_block_body_def, intro keeps_intros)

lemma max_height_in:
  assumes "bs \<noteq> []"
  shows "\<exists>b\<in>set bs. max_height bs = b_height (bb_block b)"
proof -
  have "max_height bs \<in> set (map (\<lambda>b. b_height (bb_block b)) bs)"
    unfolding max_height_def by (rule Max_in) (use assms in auto)
  then show ?thesis by auto
qed

lemma batch_write_blocks_keeps_cursor [keeps_intros]:
  assumes "\<And>b. b \<in> set bs \<Longrightarrow> height_ok (b_height (bb_block b))"
  shows "keeps (\<lambda>w. cursor_at_least c (w_db w)) (batch_write_blocks x an bs)"
proof (cases "bs = []")
  case True
  then show ?thesis by (simp add: batch_write_blocks_def keeps_ret)
next
  case False
  then have "height_ok (max_height bs)"
    using assms max_height_in by metis
  with False show ?thesis
    unfolding batch_write_blocks_def if_not_P [OF False]
    by (intro keeps_then_push cursor_inv.keeps_transaction)
      (unfold batch_body_def in_chunks_def, intro keeps_intros)
qed

section \<open>Attempts\<close>

lemma write_block_cases:
  assumes "write_block x an b w = (r, w')"
  obtains (unchanged) "same_tables (w_db w) (w_db w')" "\<exists>e. r = Inl e"
    | (written) "write_rows b (w_db w) = (Inr (), w_db w')"
proof -
  obtain rt wt where t: "transaction SqlxErr (write_block_body b) w = (rt, wt)"
    by fastforce
  have db: "w_db w' = w_db wt" and r: "r = (case rt of Inl e \<Rightarrow> Inl e | Inr _ \<Rightarrow> Inr ())"
    using assms t by (auto simp: write_block_def bind_io_def push_all_db split: sum.splits if_splits)
  from transaction_atomic [OF write_block_body_implements, of SqlxErr b w] t
  consider d' where "w_db wt = restore (w_db w) d'" "\<exists>e. rt = Inl e"
    | "write_rows b (w_db w) = (Inr (), w_db wt)"
    by auto
  then show thesis
    using db r that by cases auto
qed

lemma write_block_complete:
  assumes "w_net w = []" "write_rows b (w_db w) = (Inr (), d)"
  shows "\<exists>w'. write_block x an b w = (Inr (), w') \<and> w_db w' = d"
  using transaction_complete [OF write_block_body_implements assms, of SqlxErr]
  by (auto simp: write_block_def bind_io_def push_all_db)

inductive attempts :: "ext \<Rightarrow> bool \<Rightarrow> block_bundle \<Rightarrow> 'z sync_world_scheme \<Rightarrow>
    (sync_error + unit) list \<Rightarrow> 'z sync_world_scheme \<Rightarrow> bool"
  for x :: ext and an :: bool and b :: block_bundle
where
  none: "attempts x an b w [] w"
| again: "attempts x an b w rs w1 \<Longrightarrow> write_block x an b w1 = (r, w2) \<Longrightarrow>
          attempts x an b w (rs @ [r]) w2"

lemma attempts_content:
  assumes "attempts x an b w rs w'" "write_rows b (w_db w) = (Inr (), d)"
    and h: "in_i64 (height_val (b_height (bb_block b)))"
  shows "same_content (w_db w) (w_db w') \<and> (\<forall>r\<in>set rs. \<exists>e. r = Inl e) \<or> same_content d (w_db w')"
  using assms(1,2)
proof induction
  case (none w)
  then show ?case by simp
next
  case (again w rs w1 r w2)
  then have IH: "same_content (w_db w) (w_db w1) \<and> (\<forall>r\<in>set rs. \<exists>e. r = Inl e) \<or>
      same_content d (w_db w1)" by blast
  from again.hyps(2) show ?case
  proof (cases rule: write_block_cases)
    case unchanged
    then have "same_content (w_db w1) (w_db w2)" by (simp add: same_tables_content)
    with IH unchanged(2) show ?thesis by (auto intro: same_content_trans)
  next
    case written
    from IH show ?thesis
    proof
      assume "same_content (w_db w) (w_db w1) \<and> (\<forall>r\<in>set rs. \<exists>e. r = Inl e)"
      then obtain e where "write_rows b (w_db w1) = (Inr (), e)" "same_content d e"
        using write_rows_content [OF again.prems] by blast
      with written show ?thesis by simp
    next
      assume "same_content d (w_db w1)"
      moreover obtain d2 where d2: "write_rows b d = (Inr (), d2)" "same_tables d d2"
        using write_rows_twice [OF again.prems h] by blast
      ultimately obtain e where "write_rows b (w_db w1) = (Inr (), e)" "same_content d2 e"
        using write_rows_content by blast
      with written d2(2) show ?thesis
        by (auto intro: same_content_trans same_tables_content)
    qed
  qed
qed

section \<open>The address registry\<close>

definition addr_row :: "address_row list \<Rightarrow> string \<Rightarrow> address_row option" where
  "addr_row rows a = find (\<lambda>r. ar_address r = a) rows"

definition mentions :: "string \<Rightarrow> transaction \<Rightarrow> bool" where
  "mentions a t \<longleftrightarrow> t_from_addr t = a \<or> t_to_addr t = Some a"

definition heights_of :: "string \<Rightarrow> transaction list \<Rightarrow> i64 set" where
  "heights_of a txs = (\<lambda>t. height_val (t_block_height t)) ` {t \<in> set txs. mentions a t}"

definition note_height :: "i64 option \<Rightarrow> i64 \<Rightarrow> i64" where
  "note_height v h = (case v of None \<Rightarrow> h | Some b \<Rightarrow> min b h)"

lemma map_of_note_seen:
  "map_of (note_seen a h seen) c =
     (if c = a then Some (note_height (map_of seen a) h) else map_of seen c)"
  by (simp add: note_seen_def note_height_def update_conv')

lemma map_of_note_tx:
  "map_of (note_tx t seen) a =
     (if mentions a t then Some (note_height (map_of seen a) (height_val (t_block_height t)))
      else map_of seen a)"
  by (auto simp: note_tx_def mentions_def map_of_note_seen note_height_def Let_def
      split: option.splits)

definition min_opt :: "i64 set \<Rightarrow> i64 option" where
  "min_opt hs = (if hs = {} then None else Some (Min hs))"

lemma map_of_fold_note:
  "map_of (fold note_tx txs seen) a = min_opt (set_option (map_of seen a) \<union> heights_of a txs)"
proof (induction txs arbitrary: seen)
  case Nil
  then show ?case by (cases "map_of seen a") (simp_all add: heights_of_def min_opt_def)
next
  case (Cons t txs)
  let ?h = "height_val (t_block_height t)"
  have fin: "finite (heights_of a txs)"
    by (simp add: heights_of_def)
  have hs: "heights_of a (t # txs) = (if mentions a t then insert ?h (heights_of a txs) else heights_of a txs)"
    by (auto simp: heights_of_def)
  have "min_opt (insert (note_height v ?h) hs) = min_opt (insert ?h (set_option v \<union> hs))"
    if "finite hs" for v hs
    using that by (cases v; cases "hs = {}") (auto simp: note_height_def min_opt_def min.assoc min.commute min.left_commute)
  with Cons.IH [of "note_tx t seen"] fin show ?case
    by (simp add: map_of_note_tx hs)
qed

lemma tx_addresses_lookup: "map_of (tx_addresses txs) a = min_opt (heights_of a txs)"
  by (simp add: tx_addresses_def map_of_fold_note)

lemma note_seen_distinct: "distinct (map fst seen) \<Longrightarrow> distinct (map fst (note_seen a h seen))"
  by (simp add: note_seen_def distinct_update)

lemma note_tx_distinct: "distinct (map fst seen) \<Longrightarrow> distinct (map fst (note_tx t seen))"
  by (simp add: note_tx_def note_seen_distinct Let_def split: option.splits)

lemma fold_note_distinct:
  "distinct (map fst seen) \<Longrightarrow> distinct (map fst (fold note_tx txs seen))"
  by (induction txs arbitrary: seen) (simp_all add: note_tx_distinct)

lemma tx_addresses_distinct_keys: "distinct (map fst (tx_addresses txs))"
  unfolding tx_addresses_def by (rule fold_note_distinct) simp

end
