(* ===== verification/Writer_Batch.thy ===== *)
theory Writer_Batch
  imports Writer_Props
begin

text \<open>
  The batched writer against block-by-block writes. For bundles in ascending height order, as the
  backfill produces them, whenever the sequential writes succeed so does the batch, and the two agree
  on every table but one: \<open>addresses.last_seen_block\<close>, where the batch only knows the earliest
  block of the chunk that mentions an address.
\<close>

section \<open>Lookups in the address registry\<close>

definition touch :: "address_row option \<Rightarrow> string \<Rightarrow> i64 \<Rightarrow> i64 \<Rightarrow> address_row" where
  "touch v a lo hi =
     (case v of
        None \<Rightarrow> \<lparr>ar_address = a, ar_first_seen = lo, ar_last_seen = hi, ar_is_contract = False,
                  ar_code_hash = None\<rparr>
      | Some r \<Rightarrow> r\<lparr>ar_last_seen := max (ar_last_seen r) hi\<rparr>)"

lemma find_map_touch:
  "find (\<lambda>r. ar_address r = a)
     (map (\<lambda>r. if ar_address r = b then r\<lparr>ar_last_seen := max (ar_last_seen r) h\<rparr> else r) rows)
   = (if a = b then map_option (\<lambda>r. r\<lparr>ar_last_seen := max (ar_last_seen r) h\<rparr>)
                      (find (\<lambda>r. ar_address r = a) rows)
      else find (\<lambda>r. ar_address r = a) rows)"
  by (induction rows) auto

lemma find_append: "find P (xs @ ys) = (case find P xs of None \<Rightarrow> find P ys | Some x \<Rightarrow> Some x)"
  by (induction xs) auto

lemma addr_row_upsert:
  "addr_row (upsert_address_row (b, h) rows) a =
     (if a = b then Some (touch (addr_row rows a) b h h) else addr_row rows a)"
proof (cases "list_ex (\<lambda>r. ar_address r = b) rows")
  case True
  then have "addr_row rows b \<noteq> None"
    by (auto simp: addr_row_def find_None_iff list_ex_iff)
  with True show ?thesis
    by (auto simp: upsert_address_row_def addr_row_def find_map_touch touch_def)
next
  case False
  then have "addr_row rows b = None"
    by (auto simp: addr_row_def find_None_iff list_ex_iff)
  with False show ?thesis
    by (auto simp: upsert_address_row_def addr_row_def find_append touch_def split: option.splits)
qed

lemma addr_row_fold:
  "distinct (map fst seen) \<Longrightarrow>
     addr_row (fold upsert_address_row seen rows) a =
       (case map_of seen a of None \<Rightarrow> addr_row rows a
        | Some h \<Rightarrow> Some (touch (addr_row rows a) a h h))"
proof (induction seen arbitrary: rows)
  case Nil
  then show ?case by simp
next
  case (Cons s seen)
  obtain b h where s: "s = (b, h)" by fastforce
  show ?case
  proof (cases "a = b")
    case True
    with Cons.prems s have "map_of seen a = None" by (auto simp: map_of_eq_None_iff)
    with Cons True s show ?thesis by (simp add: addr_row_upsert)
  next
    case False
    with Cons s show ?thesis by (simp add: addr_row_upsert split: option.splits)
  qed
qed

lemma addr_row_addresses:
  "addr_row (fold upsert_address_row (tx_addresses txs) rows) a =
     (if heights_of a txs = {} then addr_row rows a
      else Some (touch (addr_row rows a) a (Min (heights_of a txs)) (Min (heights_of a txs))))"
  using addr_row_fold [OF tx_addresses_distinct_keys, of txs rows a]
  by (simp add: tx_addresses_lookup min_opt_def)

section \<open>Bundles in order\<close>

definition bundle_height :: "block_bundle \<Rightarrow> block_height" where
  "bundle_height b = b_height (bb_block b)"

definition bundle_ordered :: "block_bundle \<Rightarrow> bool" where
  "bundle_ordered b \<longleftrightarrow>
     (\<forall>t\<in>set (bb_txs b). t_block_height t = bundle_height b) \<and>
     (\<forall>l\<in>set (bb_logs b). l_block_height l = bundle_height b) \<and>
     (\<forall>t\<in>set (bb_token_transfers b). tt_block_height t = bundle_height b) \<and>
     sorted (map t_tx_index (bb_txs b)) \<and> sorted (map l_log_index (bb_logs b)) \<and>
     sorted (map tt_log_index (bb_token_transfers b))"

definition run_ordered :: "block_bundle list \<Rightarrow> bool" where
  "run_ordered bs \<longleftrightarrow> sorted_wrt (<) (map bundle_height bs) \<and> list_all bundle_ordered bs"

lemma sorted_pairs:
  assumes "sorted (map g xs)" "\<forall>x\<in>set xs. f x = c"
  shows "sorted (map (\<lambda>x. (f x, g x)) xs)"
  using assms by (induction xs) (auto simp: less_eq_prod_def)

lemma sorted_concat_bundles:
  fixes f :: "'x \<Rightarrow> 'h::linorder" and g :: "'x \<Rightarrow> 'i::linorder"
  assumes "sorted_wrt (<) (map hb bs)"
    and "\<forall>b\<in>set bs. sorted (map g (items b)) \<and> (\<forall>x\<in>set (items b). f x = hb b)"
  shows "sorted (map (\<lambda>x. (f x, g x)) (concat (map items bs)))"
  using assms
proof (induction bs)
  case Nil
  then show ?case by simp
next
  case (Cons b bs)
  have "(f x, g x) \<le> (f y, g y)"
    if "x \<in> set (items b)" "c \<in> set bs" "y \<in> set (items c)" for x y c
  proof -
    have "f x = hb b" "f y = hb c" using Cons.prems(2) that by auto
    moreover have "hb b < hb c" using Cons.prems(1) that by simp
    ultimately show ?thesis by (simp add: less_eq_prod_def)
  qed
  moreover have "sorted (map (\<lambda>x. (f x, g x)) (items b))"
    using Cons.prems(2) by (intro sorted_pairs [where c = "hb b"]) auto
  moreover have "sorted (map (\<lambda>x. (f x, g x)) (concat (map items bs)))"
    using Cons by simp
  ultimately show ?case
    by (auto simp: sorted_append)
qed

lemma run_ordered_lists:
  assumes "run_ordered bs"
  shows "all_blocks bs = map bb_block bs" "all_txs bs = concat (map bb_txs bs)"
    "all_logs bs = concat (map bb_logs bs)"
    "all_transfers bs = concat (map bb_token_transfers bs)"
proof -
  have o: "sorted_wrt (<) (map bundle_height bs)" "\<forall>b\<in>set bs. bundle_ordered b"
    using assms by (auto simp: run_ordered_def list_all_iff)
  have "sorted (map b_height (map bb_block bs))"
    using strict_sorted_imp_sorted [OF o(1)] by (simp add: comp_def bundle_height_def [abs_def])
  then show "all_blocks bs = map bb_block bs"
    by (simp only: all_blocks_def sort_key_id_if_sorted)
  show "all_txs bs = concat (map bb_txs bs)"
    unfolding all_txs_def
    by (intro sort_key_id_if_sorted sorted_concat_bundles [OF o(1)])
      (use o(2) in \<open>auto simp: bundle_ordered_def\<close>)
  show "all_logs bs = concat (map bb_logs bs)"
    unfolding all_logs_def
    by (intro sort_key_id_if_sorted sorted_concat_bundles [OF o(1)])
      (use o(2) in \<open>auto simp: bundle_ordered_def\<close>)
  show "all_transfers bs = concat (map bb_token_transfers bs)"
    unfolding all_transfers_def
    by (intro sort_key_id_if_sorted sorted_concat_bundles [OF o(1)])
      (use o(2) in \<open>auto simp: bundle_ordered_def\<close>)
qed

section \<open>Sequential and batched runs, table by table\<close>

text \<open>What a sequential run does to each table, as runs of that table's statements alone.\<close>

definition table_runs :: "block_bundle list \<Rightarrow> db \<Rightarrow> db \<Rightarrow> bool" where
  "table_runs bs d d' \<longleftrightarrow>
     (let d1 = d\<lparr>tbl_blocks := tbl_blocks d'\<rparr>; d2 = d1\<lparr>tbl_txs := tbl_txs d'\<rparr> in
      for_io blocks_insert_stmt (map bb_block bs) d = (Inr (), d1) \<and>
      for_io transactions_insert_stmt (concat (map bb_txs bs)) d1 = (Inr (), d2) \<and>
      for_io logs_insert_stmt (concat (map bb_logs bs)) d2 =
        (Inr (), d2\<lparr>tbl_logs := tbl_logs d'\<rparr>) \<and>
      for_io token_transfers_insert_stmt (concat (map bb_token_transfers bs)) d =
        (Inr (), d\<lparr>tbl_transfers := tbl_transfers d', transfers_seq := transfers_seq d'\<rparr>))"

definition seq_addresses :: "block_bundle list \<Rightarrow> address_row list \<Rightarrow> address_row list" where
  "seq_addresses bs rows =
     fold (\<lambda>b. fold upsert_address_row (tx_addresses (bb_txs b))) bs rows"

definition other_tables_same :: "db \<Rightarrow> db \<Rightarrow> bool" where
  "other_tables_same d d' \<longleftrightarrow> tbl_cb_tokens d' = tbl_cb_tokens d \<and>
     tbl_cb_trades d' = tbl_cb_trades d \<and> trades_seq d' = trades_seq d"

lemma write_rows_tables:
  assumes "write_rows b d = (Inr (), d')"
  shows "table_runs [b] d d'"
    and "tbl_addresses d' = fold upsert_address_row (tx_addresses (bb_txs b)) (tbl_addresses d)"
    and "list_all (\<lambda>s. varchar_fits 42 (fst s)) (tx_addresses (bb_txs b))"
    and "other_tables_same d d'"
    and "write_cursor_stmt (b_height (bb_block b)) (b_timestamp (bb_block b)) d =
           (Inr (), d\<lparr>tbl_meta := tbl_meta d'\<rparr>)"
proof -
  from assms obtain d1 d2 d3 d4 d5 where
    1: "blocks_insert_stmt (bb_block b) d = (Inr (), d1)" and
    2: "for_io transactions_insert_stmt (bb_txs b) d1 = (Inr (), d2)" and
    3: "upsert_batch_stmt (tx_addresses (bb_txs b)) d2 = (Inr (), d3)" and
    4: "for_io logs_insert_stmt (bb_logs b) d3 = (Inr (), d4)" and
    5: "for_io token_transfers_insert_stmt (bb_token_transfers b) d4 = (Inr (), d5)" and
    6: "write_cursor_stmt (b_height (bb_block b)) (b_timestamp (bb_block b)) d5 = (Inr (), d')"
    by (auto simp: write_rows_Inr)
  define B T A L F S M where "B = tbl_blocks d1" "T = tbl_txs d2" "A = tbl_addresses d3"
    "L = tbl_logs d4" "F = tbl_transfers d5" "S = transfers_seq d5" "M = tbl_meta d'"
  note defs = this
  have e1: "d1 = d\<lparr>tbl_blocks := B\<rparr>"
    using ind_blocks.local [OF 1] by (simp add: defs)
  have e2: "d2 = d1\<lparr>tbl_txs := T\<rparr>"
    using ind_txs.local_all [OF 2] by (simp add: defs)
  have e3: "d3 = d2\<lparr>tbl_addresses := A\<rparr>"
    and A: "A = fold upsert_address_row (tx_addresses (bb_txs b)) (tbl_addresses d2)"
    and fits: "list_all (\<lambda>s. varchar_fits 42 (fst s)) (tx_addresses (bb_txs b))"
    using 3 by (auto simp: upsert_batch_Inr defs)
  have e4: "d4 = d3\<lparr>tbl_logs := L\<rparr>"
    using ind_logs.local_all [OF 4] by (simp add: defs)
  have e5: "d5 = d4\<lparr>tbl_transfers := F, transfers_seq := S\<rparr>"
    using ind_transfers.local_all [OF 5] by (simp add: defs)
  have e6: "d' = d5\<lparr>tbl_meta := M\<rparr>"
    using write_cursor_content(2) [OF 6 same_content_refl] by (simp add: defs)
  note eqs = e1 e2 e3 e4 e5 e6
  have t2: "for_io transactions_insert_stmt (bb_txs b) (d\<lparr>tbl_blocks := B\<rparr>) =
      (Inr (), d\<lparr>tbl_blocks := B, tbl_txs := T\<rparr>)"
    using 2 by (simp add: eqs)
  have t4: "for_io logs_insert_stmt (bb_logs b) (d\<lparr>tbl_blocks := B, tbl_txs := T\<rparr>) =
      (Inr (), d\<lparr>tbl_blocks := B, tbl_txs := T, tbl_logs := L\<rparr>)"
    using ind_logs.again_all [OF 4, of "d\<lparr>tbl_blocks := B, tbl_txs := T\<rparr>"] e1 e2 e3
    by (simp add: more_rows_def more_heights_def defs(4) [symmetric])
  have t5: "for_io token_transfers_insert_stmt (bb_token_transfers b) d =
      (Inr (), d\<lparr>tbl_transfers := F, transfers_seq := S\<rparr>)"
    using ind_transfers.again_all [OF 5, of d] e1 e2 e3 e4 by (simp add: defs(5,6) [symmetric])
  have fin: "tbl_blocks d' = B" "tbl_txs d' = T" "tbl_logs d' = L" "tbl_transfers d' = F"
    "transfers_seq d' = S" "tbl_addresses d' = A"
    by (simp_all add: eqs)
  show "table_runs [b] d d'"
    using 1 t2 t4 t5 unfolding table_runs_def Let_def fin
    by (simp add: bind_io_Inr ret_io_def e1)
  show "tbl_addresses d' = fold upsert_address_row (tx_addresses (bb_txs b)) (tbl_addresses d)"
    using A by (simp add: eqs)
  show "list_all (\<lambda>s. varchar_fits 42 (fst s)) (tx_addresses (bb_txs b))"
    by (rule fits)
  show "other_tables_same d d'"
    by (simp add: other_tables_same_def eqs)
  have "tbl_meta d5 = tbl_meta d"
    by (simp add: eqs)
  with 6 show "write_cursor_stmt (b_height (bb_block b)) (b_timestamp (bb_block b)) d =
           (Inr (), d\<lparr>tbl_meta := tbl_meta d'\<rparr>)"
    by (auto simp: write_cursor_stmt_def meta_upsert_def meta_row_of_def
        split: if_splits option.splits sum.splits)
qed

lemma table_runs_rows:
  assumes "table_runs bs d d'"
  shows "more_heights d d'" "more_rows d d'"
proof -
  have "for_io blocks_insert_stmt (map bb_block bs) d = (Inr (), d\<lparr>tbl_blocks := tbl_blocks d'\<rparr>)"
    and T: "for_io transactions_insert_stmt (concat (map bb_txs bs)) (d\<lparr>tbl_blocks := tbl_blocks d'\<rparr>) =
      (Inr (), d\<lparr>tbl_blocks := tbl_blocks d', tbl_txs := tbl_txs d'\<rparr>)"
    using assms by (simp_all add: table_runs_def Let_def)
  from blocks_tbl.all_rows [OF this(1) [unfolded insert_stmt_folds]]
  show h: "more_heights d d'" by (auto simp: more_heights_def)
  from txs_tbl.all_rows [OF T [unfolded insert_stmt_folds]] h
  show "more_rows d d'" by (auto simp: more_rows_def)
qed

lemma table_runs_append:
  assumes r1: "table_runs bs d dc" and r2: "table_runs cs dc d'"
  shows "table_runs (bs @ cs) d d'"
proof -
  note more = table_runs_rows [OF r2] and prev = table_runs_rows [OF r1]
  note R1 = r1 [unfolded table_runs_def Let_def] and R2 = r2 [unfolded table_runs_def Let_def]
  let ?d1 = "d\<lparr>tbl_blocks := tbl_blocks d'\<rparr>"
  let ?d2 = "?d1\<lparr>tbl_txs := tbl_txs d'\<rparr>"
  have b: "for_io blocks_insert_stmt (map bb_block cs) (d\<lparr>tbl_blocks := tbl_blocks dc\<rparr>) = (Inr (), ?d1)"
    using ind_blocks.again_all [of "map bb_block cs" dc] R2 by simp
  have t1: "for_io transactions_insert_stmt (concat (map bb_txs bs)) ?d1 =
      (Inr (), ?d1\<lparr>tbl_txs := tbl_txs dc\<rparr>)"
    using ind_txs.again_all [of "concat (map bb_txs bs)" "d\<lparr>tbl_blocks := tbl_blocks dc\<rparr>" _ ?d1] R1 more
    by (simp add: more_heights_def)
  have t2: "for_io transactions_insert_stmt (concat (map bb_txs cs)) (?d1\<lparr>tbl_txs := tbl_txs dc\<rparr>) =
      (Inr (), ?d2)"
    using ind_txs.again_all [of "concat (map bb_txs cs)" "dc\<lparr>tbl_blocks := tbl_blocks d'\<rparr>" _
        "?d1\<lparr>tbl_txs := tbl_txs dc\<rparr>"] R2
    by (simp add: more_heights_def)
  have l1: "for_io logs_insert_stmt (concat (map bb_logs bs)) ?d2 =
      (Inr (), ?d2\<lparr>tbl_logs := tbl_logs dc\<rparr>)"
    using ind_logs.again_all [of "concat (map bb_logs bs)"
        "d\<lparr>tbl_blocks := tbl_blocks dc, tbl_txs := tbl_txs dc\<rparr>" _ ?d2] R1 more
    by (simp add: more_heights_def more_rows_def)
  have l2: "for_io logs_insert_stmt (concat (map bb_logs cs)) (?d2\<lparr>tbl_logs := tbl_logs dc\<rparr>) =
      (Inr (), ?d2\<lparr>tbl_logs := tbl_logs d'\<rparr>)"
    using ind_logs.again_all [of "concat (map bb_logs cs)"
        "dc\<lparr>tbl_blocks := tbl_blocks d', tbl_txs := tbl_txs d'\<rparr>" _
        "?d2\<lparr>tbl_logs := tbl_logs dc\<rparr>"] R2
    by (simp add: more_heights_def more_rows_def)
  have f: "for_io token_transfers_insert_stmt (concat (map bb_token_transfers cs))
      (d\<lparr>tbl_transfers := tbl_transfers dc, transfers_seq := transfers_seq dc\<rparr>) =
      (Inr (), d\<lparr>tbl_transfers := tbl_transfers d', transfers_seq := transfers_seq d'\<rparr>)"
    using ind_transfers.again_all [of "concat (map bb_token_transfers cs)" dc] R2 by simp
  show ?thesis
    unfolding table_runs_def Let_def
    using b t1 t2 l1 l2 f R1 by (simp add: for_io_append)
qed

lemma seq_writes_tables:
  assumes "for_io write_rows bs d = (Inr (), d')"
  shows "table_runs bs d d' \<and> tbl_addresses d' = seq_addresses bs (tbl_addresses d) \<and>
    (\<forall>b\<in>set bs. list_all (\<lambda>s. varchar_fits 42 (fst s)) (tx_addresses (bb_txs b))) \<and>
    other_tables_same d d'"
  using assms
proof (induction bs arbitrary: d)
  case Nil
  then show ?case
    by (simp add: table_runs_def ret_io_def seq_addresses_def other_tables_same_def Let_def)
next
  case (Cons b bs)
  then obtain dc where w: "write_rows b d = (Inr (), dc)" and r: "for_io write_rows bs dc = (Inr (), d')"
    by (auto simp: bind_io_Inr)
  note one = write_rows_tables [OF w] and rest = Cons.IH [OF r]
  have "table_runs (b # bs) d d'"
    using table_runs_append [of "[b]" d dc bs d'] one(1) rest by simp
  then show ?case
    using one(2-4) rest by (simp add: seq_addresses_def other_tables_same_def)
qed

section \<open>Addresses and cursor of a sequential run\<close>

lemma heights_of_append: "heights_of a (xs @ ys) = heights_of a xs \<union> heights_of a ys"
  by (auto simp: heights_of_def)

lemma finite_heights_of [simp]: "finite (heights_of a txs)"
  by (simp add: heights_of_def)

lemma heights_of_bundle:
  "bundle_ordered b \<Longrightarrow> heights_of a (bb_txs b) = {} \<or> heights_of a (bb_txs b) = {height_val (bundle_height b)}"
  by (auto simp: heights_of_def bundle_ordered_def)

text \<open>
  The sequential writer keeps the registry exactly: an address is first seen in the lowest and last
  seen in the highest block that mentions it.
\<close>

lemma seq_addresses_lookup:
  assumes "run_ordered bs"
  shows "addr_row (seq_addresses bs rows) a =
    (let hs = heights_of a (concat (map bb_txs bs)) in
     if hs = {} then addr_row rows a else Some (touch (addr_row rows a) a (Min hs) (Max hs)))"
  using assms
proof (induction bs arbitrary: rows)
  case Nil
  then show ?case by (simp add: seq_addresses_def heights_of_def)
next
  case (Cons b bs)
  let ?h = "height_val (bundle_height b)"
  let ?hs = "heights_of a (concat (map bb_txs bs))"
  let ?rows = "fold upsert_address_row (tx_addresses (bb_txs b)) rows"
  have ord: "bundle_ordered b" "run_ordered bs"
    and lt: "\<And>c. c \<in> set bs \<Longrightarrow> ?h < height_val (bundle_height c)"
    using Cons.prems by (auto simp: run_ordered_def height_less_iff)
  have later: "?h < k" if k: "k \<in> ?hs" for k
  proof -
    from k obtain c t where "c \<in> set bs" "t \<in> set (bb_txs c)" "k = height_val (t_block_height t)"
      by (auto simp: heights_of_def)
    moreover from this have "t_block_height t = bundle_height c"
      using Cons.prems by (auto simp: run_ordered_def list_all_iff bundle_ordered_def)
    ultimately show ?thesis using lt by simp
  qed
  have rows: "addr_row ?rows a = (if heights_of a (bb_txs b) = {} then addr_row rows a
      else Some (touch (addr_row rows a) a ?h ?h))"
    using heights_of_bundle [OF ord(1), of a] by (auto simp: addr_row_addresses)
  have IH: "addr_row (seq_addresses (b # bs) rows) a =
      (if ?hs = {} then addr_row ?rows a else Some (touch (addr_row ?rows a) a (Min ?hs) (Max ?hs)))"
    using Cons.IH [OF ord(2), of ?rows] by (simp add: seq_addresses_def Let_def)
  have all: "heights_of a (concat (map bb_txs (b # bs))) = heights_of a (bb_txs b) \<union> ?hs"
    by (simp add: heights_of_append)
  show ?case
  proof (cases "heights_of a (bb_txs b) = {}")
    case True
    with IH rows all show ?thesis by (simp add: Let_def)
  next
    case False
    then have hb: "heights_of a (bb_txs b) = {?h}"
      using heights_of_bundle [OF ord(1), of a] by blast
    show ?thesis
    proof (cases "?hs = {}")
      case True
      with IH rows all hb show ?thesis by (simp add: Let_def)
    next
      case nonempty: False
      have "?h < Min ?hs" "?h < Max ?hs"
        using later nonempty Min_in [OF finite_heights_of nonempty] Max_in [OF finite_heights_of nonempty]
        by auto
      then have mm: "Min (insert ?h ?hs) = ?h" "Max (insert ?h ?hs) = Max ?hs"
        using nonempty
        by (metis Min_insert finite_heights_of less_imp_le min.absorb1)
          (metis Max_insert finite_heights_of less_imp_le max.absorb2 nonempty \<open>?h < Max ?hs\<close>)
      have "touch (Some (touch v a ?h ?h)) a (Min ?hs) (Max ?hs) = touch v a ?h (Max ?hs)" for v
        using \<open>?h < Max ?hs\<close> by (cases v) (simp_all add: touch_def max_def)
      with IH rows all hb nonempty mm show ?thesis by (simp add: Let_def)
    qed
  qed
qed

text \<open>Of two cursor writes in ascending order only the second leaves a trace.\<close>

lemma write_cursor_collapse:
  assumes ok: "cursor_ok d" and h: "height_ok h1" "height_ok h2" "h1 \<le> h2"
    and 1: "write_cursor_stmt h1 t1 d = (Inr (), d1)"
  shows "write_cursor_stmt h2 t2 d = (Inr (), snd (write_cursor_stmt h2 t2 d1))"
proof (cases "meta_row_of d last_synced_height_key")
  case None
  let ?row = "\<lambda>h t. \<lparr>mr_key = last_synced_height_key, mr_value = i64_to_string (height_val h),
    mr_updated_at = t\<rparr>"
  have none: "\<forall>r\<in>set (tbl_meta d). mr_key r \<noteq> last_synced_height_key"
    using None by (auto simp: meta_row_of_def find_None_iff)
  have d1: "d1 = d\<lparr>tbl_meta := tbl_meta d @ [?row h1 t1]\<rparr>"
    using None 1 by (simp add: write_cursor_stmt_def meta_upsert_def cursor_key_fits)
  have "meta_row_of d1 last_synced_height_key = Some (?row h1 t1)"
    using None by (simp add: d1 meta_row_of_def find_append_new)
  moreover have "greatest_int8 (i64_to_string (height_val h1)) (i64_to_string (height_val h2)) =
      Inr (i64_to_string (height_val h2))"
    using h by (simp add: greatest_int8_text height_ok_def height_le_iff max_def)
  moreover have "map (\<lambda>r. if mr_key r = last_synced_height_key
      then r\<lparr>mr_value := v, mr_updated_at := t\<rparr> else r) (tbl_meta d) = tbl_meta d" for v t
    using none by (intro map_idI) auto
  ultimately show ?thesis
    using None by (simp add: write_cursor_stmt_def meta_upsert_def cursor_key_fits d1)
next
  case (Some r)
  with ok obtain c where c: "in_i64 c" "mr_value r = i64_to_string c"
    by (auto simp: cursor_ok_def)
  let ?upd = "\<lambda>v t. map (\<lambda>r. if mr_key r = last_synced_height_key
      then r\<lparr>mr_value := v, mr_updated_at := t\<rparr> else r)"
  have m: "in_i64 (max c (height_val h1))"
    using c h by (simp add: max_def height_ok_def)
  have d1: "d1 = d\<lparr>tbl_meta := ?upd (i64_to_string (max c (height_val h1))) t1 (tbl_meta d)\<rparr>"
    using Some 1 c h
    by (simp add: write_cursor_stmt_def meta_upsert_def cursor_key_fits greatest_int8_text height_ok_def)
  have "meta_row_of d1 last_synced_height_key =
      Some (r\<lparr>mr_value := i64_to_string (max c (height_val h1)), mr_updated_at := t1\<rparr>)"
    using Some by (simp add: d1 meta_row_of_def find_map_update)
  moreover have "max (max c (height_val h1)) (height_val h2) = max c (height_val h2)"
    using h by (simp add: height_le_iff max_def)
  moreover have "?upd v t (?upd v' t' rows) = ?upd v t rows" for v t v' t' rows
    by (auto simp: comp_def)
  ultimately show ?thesis
    using Some c h m
    by (simp add: write_cursor_stmt_def meta_upsert_def cursor_key_fits greatest_int8_text
        height_ok_def d1)
qed

lemma write_cursor_meta_only:
  assumes "write_cursor_stmt h ts d = (Inr (), d')" "tbl_meta e = tbl_meta d"
  shows "write_cursor_stmt h ts e = (Inr (), e\<lparr>tbl_meta := tbl_meta d'\<rparr>)"
  using assms
  by (auto simp: write_cursor_stmt_def meta_upsert_def meta_row_of_def
      split: if_splits option.splits sum.splits)

lemma seq_writes_cursor:
  assumes "for_io write_rows bs d = (Inr (), d')" "cursor_ok d" "bs \<noteq> []"
    and "sorted_wrt (<) (map bundle_height bs)" "\<forall>b\<in>set bs. height_ok (bundle_height b)"
  shows "write_cursor_stmt (bundle_height (last bs)) (b_timestamp (bb_block (last bs))) d =
           (Inr (), d\<lparr>tbl_meta := tbl_meta d'\<rparr>)"
  using assms
proof (induction bs arbitrary: d)
  case Nil
  then show ?case by simp
next
  case (Cons b bs)
  then obtain dc where w: "write_rows b d = (Inr (), dc)" and r: "for_io write_rows bs dc = (Inr (), d')"
    by (auto simp: bind_io_Inr)
  note cw = write_rows_tables(5) [OF w, folded bundle_height_def]
  show ?case
  proof (cases "bs = []")
    case True
    with r cw show ?thesis by (simp add: ret_io_def)
  next
    case False
    have ok: "cursor_ok dc"
      using write_cursor_Inr(2) [OF cw Cons.prems(2)] Cons.prems(5)
      by (simp add: height_ok_def cursor_depends_on_meta(3) [of "d\<lparr>tbl_meta := tbl_meta dc\<rparr>" dc])
    have IH: "write_cursor_stmt (bundle_height (last bs)) (b_timestamp (bb_block (last bs))) dc =
        (Inr (), dc\<lparr>tbl_meta := tbl_meta d'\<rparr>)"
      using Cons.prems False by (intro Cons.IH [OF r ok]) auto
    have "write_cursor_stmt (bundle_height (last bs)) (b_timestamp (bb_block (last bs)))
        (d\<lparr>tbl_meta := tbl_meta dc\<rparr>) = (Inr (), d\<lparr>tbl_meta := tbl_meta d'\<rparr>)"
      using write_cursor_meta_only [OF IH, of "d\<lparr>tbl_meta := tbl_meta dc\<rparr>"] by simp
    moreover have "bundle_height b \<le> bundle_height (last bs)"
      using Cons.prems(4) False by (auto intro: less_imp_le)
    ultimately show ?thesis
      using write_cursor_collapse [OF Cons.prems(2) _ _ _ cw, of "bundle_height (last bs)"
          "b_timestamp (bb_block (last bs))"] Cons.prems(5) False
      by simp
  qed
qed

section \<open>The batch\<close>

lemma upsert_chunks:
  assumes "\<forall>c\<in>set css. list_all (\<lambda>s. varchar_fits 42 (fst s)) c \<and> distinct (map fst c)"
  shows "for_io upsert_batch_stmt css d =
    (Inr (), d\<lparr>tbl_addresses := fold upsert_address_row (concat css) (tbl_addresses d)\<rparr>)"
  using assms
  by (induction css arbitrary: d) (auto simp: ret_io_def bind_io_def upsert_batch_stmt_def)

lemma chunk_distinct: "distinct (map f xs) \<Longrightarrow> c \<in> set (chunks n xs) \<Longrightarrow> distinct (map f c)"
proof (induction n xs rule: chunks.induct)
  case (1 n xs)
  show ?case
  proof (cases "xs = [] \<or> n = 0")
    case True
    with 1 show ?thesis by (subst (asm) (2) chunks.simps) auto
  next
    case False
    with 1 have "c = take n xs \<or> c \<in> set (chunks n (drop n xs))"
      by (subst (asm) (2) chunks.simps) auto
    with 1 False show ?thesis
      by (auto simp: take_map [symmetric] drop_map [symmetric])
  qed
qed

lemma tx_addresses_keys: "fst ` set (tx_addresses txs) = {a. heights_of a txs \<noteq> {}}"
proof -
  have "a \<in> fst ` set (tx_addresses txs) \<longleftrightarrow> heights_of a txs \<noteq> {}" for a
    using map_of_eq_None_iff [of "tx_addresses txs" a] tx_addresses_lookup [of txs a]
    by (simp add: min_opt_def split: if_splits)
  then show ?thesis
    by blast
qed

lemma tx_addresses_fit:
  "list_all (\<lambda>s. varchar_fits 42 (fst s)) (tx_addresses txs) \<longleftrightarrow>
     (\<forall>a. heights_of a txs \<noteq> {} \<longrightarrow> varchar_fits 42 a)"
proof -
  have "list_all (\<lambda>s. varchar_fits 42 (fst s)) (tx_addresses txs) \<longleftrightarrow>
      (\<forall>a\<in>fst ` set (tx_addresses txs). varchar_fits 42 a)"
    by (simp add: list_all_iff)
  then show ?thesis
    by (simp add: tx_addresses_keys)
qed

lemma tx_addresses_fit_concat:
  assumes "\<forall>b\<in>set bs. list_all (\<lambda>s. varchar_fits 42 (fst s)) (tx_addresses (bb_txs b))"
  shows "list_all (\<lambda>s. varchar_fits 42 (fst s)) (tx_addresses (concat (map bb_txs bs)))"
  using assms by (auto simp: tx_addresses_fit heights_of_def)

lemma run_ordered_max:
  assumes "run_ordered bs" "bs \<noteq> []"
  shows "max_height bs = bundle_height (last bs)" "cursor_ts bs = b_timestamp (bb_block (last bs))"
proof -
  have s: "sorted_wrt (<) (map bundle_height bs)"
    using assms by (simp add: run_ordered_def)
  from assms(2) obtain cs b where bs: "bs = cs @ [b]"
    by (cases bs rule: rev_cases) auto
  with s have less: "\<forall>c\<in>set cs. bundle_height c < bundle_height b"
    by (simp add: sorted_wrt_append)
  have "max_height bs = Max (bundle_height ` set bs)"
    by (simp add: max_height_def bundle_height_def [abs_def])
  also have "\<dots> = bundle_height b"
    using less by (intro Max_eqI) (auto simp: bs less_imp_le)
  finally show m: "max_height bs = bundle_height (last bs)"
    by (simp add: bs)
  have "find (\<lambda>c. bundle_height c = bundle_height b) cs = None"
    using less by (auto simp: find_None_iff)
  then show "cursor_ts bs = b_timestamp (bb_block (last bs))"
    using m by (simp add: cursor_ts_def bs find_append bundle_height_def)
qed

text \<open>
  The database a successful sequential run leaves, with the registry as the batch writes it, is what
  the batch leaves.
\<close>

lemma batch_of_sequential:
  assumes seq: "for_io write_rows bs d = (Inr (), d')" and ok: "cursor_ok d" and ne: "bs \<noteq> []"
    and ord: "run_ordered bs" and hs: "\<forall>b\<in>set bs. height_ok (bundle_height b)"
  shows "batch_rows bs d = (Inr (), d'\<lparr>tbl_addresses :=
           fold upsert_address_row (tx_addresses (concat (map bb_txs bs))) (tbl_addresses d)\<rparr>)"
proof -
  let ?A = "fold upsert_address_row (tx_addresses (concat (map bb_txs bs))) (tbl_addresses d)"
  let ?d1 = "d\<lparr>tbl_blocks := tbl_blocks d'\<rparr>"
  let ?d2 = "?d1\<lparr>tbl_txs := tbl_txs d'\<rparr>"
  let ?d3 = "?d2\<lparr>tbl_addresses := ?A\<rparr>"
  let ?d4 = "?d3\<lparr>tbl_logs := tbl_logs d'\<rparr>"
  let ?d5 = "?d4\<lparr>tbl_transfers := tbl_transfers d', transfers_seq := transfers_seq d'\<rparr>"
  note T = seq_writes_tables [OF seq]
  then have runs: "table_runs bs d d'" by blast
  note R = runs [unfolded table_runs_def Let_def]
  have a: "for_io upsert_batch_stmt (chunks batch_insert_chunk (tx_addresses (concat (map bb_txs bs)))) ?d2 =
      (Inr (), ?d3)"
  proof -
    let ?seen = "tx_addresses (concat (map bb_txs bs))"
    have "list_all (\<lambda>s. varchar_fits 42 (fst s)) ?seen"
      using T by (intro tx_addresses_fit_concat) blast
    then have "\<forall>c\<in>set (chunks batch_insert_chunk ?seen).
        list_all (\<lambda>s. varchar_fits 42 (fst s)) c \<and> distinct (map fst c)"
      using set_chunk chunk_distinct [OF tx_addresses_distinct_keys]
      by (fastforce simp: list_all_iff)
    from upsert_chunks [OF this, of ?d2] show ?thesis
      by (simp add: concat_chunks)
  qed
  have l: "for_io logs_insert_stmt (concat (map bb_logs bs)) ?d3 = (Inr (), ?d4)"
    using ind_logs.again_all [of "concat (map bb_logs bs)" ?d2 _ ?d3] R
    by (simp add: more_rows_def more_heights_def)
  have f: "for_io token_transfers_insert_stmt (concat (map bb_token_transfers bs)) ?d4 = (Inr (), ?d5)"
    using ind_transfers.again_all [of "concat (map bb_token_transfers bs)" d _ ?d4] R by simp
  have c: "write_cursor_stmt (max_height bs) (cursor_ts bs) ?d5 =
      (Inr (), ?d5\<lparr>tbl_meta := tbl_meta d'\<rparr>)"
    using write_cursor_meta_only [OF seq_writes_cursor [OF seq ok ne _ hs], of ?d5] ord
    by (simp add: run_ordered_max [OF ord ne] run_ordered_def)
  have "?d5\<lparr>tbl_meta := tbl_meta d'\<rparr> = d'\<lparr>tbl_addresses := ?A\<rparr>"
    using T by (simp add: other_tables_same_def)
  with R a l f c show ?thesis
    unfolding batch_rows_Inr run_ordered_lists [OF ord] by metis
qed

end
