(* ===== verification/Chain_Laws.thy ===== *)
theory Chain_Laws
  imports Chain "HOL-Library.Multiset"
begin

text \<open>
  Lemmas about the chain client: the retry loop ends at the first decisive attempt and sleeps after
  every earlier one, delays stay under the configured ceiling, endpoint lists keep exactly the
  non-empty entries and are visited in turn.
\<close>

section \<open>Retry\<close>

text \<open>An attempt decides the loop when it succeeds or fails permanently.\<close>

definition decisive :: "chain_error + 'a \<Rightarrow> bool" where
  "decisive r = (case r of Inr _ \<Rightarrow> True | Inl e \<Rightarrow> \<not> is_transient e)"

definition deciding :: "(nat \<Rightarrow> chain_error + 'a) \<Rightarrow> nat \<Rightarrow> nat \<Rightarrow> nat" where
  "deciding op lo hi = (case filter (\<lambda>k. decisive (op k)) [lo..<hi] of [] \<Rightarrow> hi | k # _ \<Rightarrow> k)"

lemma deciding_first: "lo < hi \<Longrightarrow> decisive (op lo) \<Longrightarrow> deciding op lo hi = lo"
  by (simp add: deciding_def upt_conv_Cons)

lemma deciding_next: "lo < hi \<Longrightarrow> \<not> decisive (op lo) \<Longrightarrow> deciding op lo hi = deciding op (Suc lo) hi"
  by (simp add: deciding_def upt_conv_Cons)

lemma deciding_range: "lo \<le> hi \<Longrightarrow> lo \<le> deciding op lo hi \<and> deciding op lo hi \<le> hi"
proof (induction "hi - lo" arbitrary: lo)
  case 0
  then show ?case by (simp add: deciding_def)
next
  case (Suc d)
  then have less: "lo < hi" by simp
  have "Suc lo \<le> deciding op (Suc lo) hi \<and> deciding op (Suc lo) hi \<le> hi"
    using Suc.hyps(2) less by (intro Suc.hyps(1)) auto
  with less show ?case
    by (cases "decisive (op lo)") (auto simp: deciding_first deciding_next)
qed

lemma retry_loop_result:
  assumes "attempt + left = Suc (max_attempts cfg)" "0 < left"
  shows "retry_loop cfg op attempt left err =
    (let k = min (deciding op attempt (attempt + left)) (max_attempts cfg)
     in (Some (op k), map (delay_after cfg) [attempt..<k]))"
  using assms
proof (induction left arbitrary: attempt err)
  case 0
  then show ?case by simp
next
  case (Suc left)
  let ?max = "max_attempts cfg"
  have a: "attempt + left = ?max" "attempt \<le> ?max" using Suc.prems by auto
  show ?case
  proof (cases "decisive (op attempt)")
    case True
    then have "deciding op attempt (attempt + Suc left) = attempt"
      by (simp add: deciding_first)
    with True a show ?thesis
      by (simp add: min_def Let_def decisive_def split: sum.splits)
  next
    case False
    then obtain e where e: "op attempt = Inl e" "is_transient e"
      by (auto simp: decisive_def split: sum.splits)
    have d: "deciding op attempt (attempt + Suc left) = deciding op (Suc attempt) (Suc attempt + left)"
      using False by (simp add: deciding_next)
    show ?thesis
    proof (cases "left = 0")
      case True
      with a e d show ?thesis
        by (simp add: deciding_def Let_def)
    next
      case left: False
      then have IH: "retry_loop cfg op (Suc attempt) left (Some e) =
          (let k = min (deciding op (Suc attempt) (Suc attempt + left)) ?max
           in (Some (op k), map (delay_after cfg) [Suc attempt..<k]))"
        using Suc.IH [of "Suc attempt" "Some e"] Suc.prems by simp
      have "Suc attempt \<le> deciding op (Suc attempt) (Suc attempt + left)"
        using deciding_range [of "Suc attempt" "Suc attempt + left" op] by simp
      with a left e d IH show ?thesis
        by (simp add: Let_def upt_conv_Cons)
    qed
  qed
qed

lemma retry_result:
  assumes "0 < max_attempts cfg"
  shows "retry_with_backoff cfg op =
    (let k = min (deciding op 1 (Suc (max_attempts cfg))) (max_attempts cfg)
     in (Some (op k), map (delay_after cfg) [1..<k]))"
  using retry_loop_result [of 1 "max_attempts cfg" cfg op None] assms
  by (simp add: retry_with_backoff_def)

lemma retry_ok_attempt:
  assumes "fst (retry_with_backoff cfg op) = Some r"
  shows "\<exists>k. 1 \<le> k \<and> k \<le> max_attempts cfg \<and> op k = r"
proof (cases "0 < max_attempts cfg")
  case True
  let ?k = "min (deciding op 1 (Suc (max_attempts cfg))) (max_attempts cfg)"
  have "1 \<le> ?k"
    using deciding_range [of 1 "Suc (max_attempts cfg)" op] True by simp
  with True assms show ?thesis
    by (intro exI [of _ ?k]) (simp add: retry_result Let_def)
next
  case False
  with assms show ?thesis by (simp add: retry_with_backoff_def)
qed

lemma jitter_ratio_less: "jitter_ratio attempt < 1024"
  by (simp add: jitter_ratio_def)

lemma ceiling_le_max_delay: "ceiling_for_attempt cfg attempt \<le> max_delay cfg"
  by (simp add: ceiling_for_attempt_def Let_def)

lemma delay_le_ceiling: "delay_after cfg attempt \<le> ceiling_for_attempt cfg attempt"
proof -
  have "ceiling_for_attempt cfg attempt * jitter_ratio attempt \<le> ceiling_for_attempt cfg attempt * 1024"
    using jitter_ratio_less [of attempt] by simp
  then have "ceiling_for_attempt cfg attempt * jitter_ratio attempt div 1024 \<le> ceiling_for_attempt cfg attempt"
    by (metis div_le_mono nonzero_mult_div_cancel_right zero_neq_numeral)
  then show ?thesis
    by (simp add: delay_after_def)
qed

lemma saturating_pow_mono: "0 < b \<Longrightarrow> e \<le> e' \<Longrightarrow> saturating_pow_u32 b e \<le> saturating_pow_u32 b e'"
  unfolding saturating_pow_u32_def by (intro min.mono power_increasing) auto

lemma ceiling_mono:
  assumes "0 < multiplier cfg" "attempt \<le> attempt'"
  shows "ceiling_for_attempt cfg attempt \<le> ceiling_for_attempt cfg attempt'"
  unfolding ceiling_for_attempt_def Let_def
  by (intro min.mono order_refl mult_le_mono saturating_pow_mono assms diff_le_mono)

section \<open>Endpoint lists\<close>

lemma parse_bases_Inr:
  "parse_bases norm what parse_url es = Inr bs \<longleftrightarrow>
     bs = filter (\<lambda>e. e \<noteq> []) (map norm es) \<and> (\<forall>b\<in>set bs. \<exists>u. parse_url b = Inr u)"
proof (induction es arbitrary: bs)
  case Nil
  then show ?case by auto
next
  case (Cons e es)
  show ?case
  proof (cases "norm e = []")
    case True
    with Cons show ?thesis by (simp add: Let_def)
  next
    case False
    then show ?thesis
      by (cases "parse_url (norm e)") (auto simp: Let_def bind_result_Inr Cons)
  qed
qed

lemma next_bases_run:
  "next_bases n c =
     (map (\<lambda>k. bases c ! (unat (rr_cursor c + of_nat k) mod length (bases c))) [0..<n],
      c\<lparr>rr_cursor := rr_cursor c + of_nat n\<rparr>)"
proof (induction n arbitrary: c)
  case 0
  then show ?case by simp
next
  case (Suc n)
  have "[0..<Suc n] = 0 # map Suc [0..<n]"
    by (simp add: upt_conv_Cons map_Suc_upt del: upt_Suc)
  then show ?case
    using Suc [of "c\<lparr>rr_cursor := rr_cursor c + 1\<rparr>"]
    by (simp add: next_base_def Let_def comp_def algebra_simps del: upt_Suc)
qed

text \<open>Consecutive numbers visit every residue once.\<close>

lemma mset_consecutive_mod:
  assumes "xs \<noteq> []"
  shows "mset (map (\<lambda>k. xs ! ((c + k) mod length xs)) [0..<length xs]) = mset xs"
proof -
  let ?n = "length xs"
  have "rotate c xs = map (\<lambda>k. xs ! ((c + k) mod ?n)) [0..<?n]"
    by (rule nth_equalityI) (simp_all add: nth_rotate)
  moreover have "mset (rotate c xs) = mset xs"
    by (metis rotate_drop_take append_take_drop_id mset_append union_commute)
  ultimately show ?thesis
    by metis
qed

end
