(* ===== verification/Backfill.thy ===== *)
theory Backfill
  imports Writer_Batch Chain_Laws
begin

text \<open>
  \<open>crates/sync/src/backfill.rs\<close>: fetching a block with its logs, the pipelined backfill loop and the
  single-block ingestion the tail loop uses. Fetches run concurrently but their results are consumed
  in height order (\<open>buffered\<close>), so a run is a loop over the heights; the concurrency only changes
  timing. Cancellation is an oracle asked once per iteration, faults are those of the node and of the
  connection to the database.
\<close>

section \<open>Configuration\<close>

record sync_config =
  safe_lag :: u64
  max_backfill_height :: "block_height option"
  reorg_check_interval :: nat
  reorg_probe_depth :: u64

definition sync_config_default :: sync_config where
  "sync_config_default = \<lparr>safe_lag = 8, max_backfill_height = None,
     reorg_check_interval = 60 * 10 ^ 9, reorg_probe_depth = 16\<rparr>"

definition env_usize :: "nat \<Rightarrow> nat \<Rightarrow> string option \<Rightarrow> nat" where
  "env_usize hi dflt var =
     (case Option.bind var parse_usize of
        None \<Rightarrow> dflt
      | Some n \<Rightarrow> if 0 < n \<and> n \<le> hi then n else dflt)"

definition backfill_concurrency :: "string option \<Rightarrow> nat" where
  "backfill_concurrency var = env_usize 500 50 var"

definition backfill_batch_size :: "string option \<Rightarrow> nat" where
  "backfill_batch_size var = env_usize 1000 100 var"

section \<open>Fetching\<close>

definition retried :: "backoff_config \<Rightarrow> (nat \<Rightarrow> chain_error + 'a) \<Rightarrow> sync_error + 'a" where
  "retried cfg op =
     (case fst (retry_with_backoff cfg op) of
        None \<Rightarrow> Inl Panicked
      | Some r \<Rightarrow> map_err ChainErr r)"

definition invalid :: "convert_error + 'a \<Rightarrow> sync_error + 'a" where
  "invalid r = map_err (\<lambda>e. InvalidErr (convert_error_text e)) r"

text \<open>
  The part \<open>fetch_one\<close> and \<open>ingest_one\<close> share: conversion, the filter that drops logs of
  transactions missing from the block, and the decoding of transfers.
\<close>

definition make_bundle :: "ext \<Rightarrow> native_block \<Rightarrow> rpc_log list \<Rightarrow> sync_error + block_bundle" where
  "make_bundle x block logs =
     bind_result (invalid (to_domain_block_from_native x block)) (\<lambda>dom_block.
     bind_result (invalid (to_domain_txs_from_native block)) (\<lambda>dom_txs.
     bind_result (invalid (collect_results (to_domain_log x) logs)) (\<lambda>all_logs.
       let dom_logs = filter (\<lambda>l. l_tx_hash l \<in> t_hash ` set dom_txs) all_logs in
       Inr \<lparr>bb_block = dom_block, bb_txs = dom_txs, bb_logs = dom_logs,
         bb_token_transfers = List.map_filter (decode_transfer x) dom_logs\<rparr>)))"

definition fetch_one :: "ext \<Rightarrow> node \<Rightarrow> backoff_config \<Rightarrow> block_height \<Rightarrow>
    sync_error + block_bundle option" where
  "fetch_one x n backoff h =
     bind_result (retried backoff (rest_block_at n h)) (\<lambda>block_opt.
       case block_opt of
         None \<Rightarrow> Inr None
       | Some block \<Rightarrow>
           bind_result (retried backoff (logs_in_range n h h None)) (\<lambda>logs.
           bind_result (make_bundle x block logs) (\<lambda>b. Inr (Some b))))"

definition ingest_one :: "ext \<Rightarrow> node \<Rightarrow> backoff_config \<Rightarrow> bool \<Rightarrow> block_height \<Rightarrow>
    ('z sync_world_scheme, sync_error, unit) io" where
  "ingest_one x n backoff analytics h =
     bind_io (lift_io (fetch_one x n backoff h)) (\<lambda>bundle.
       case bundle of
         None \<Rightarrow> write_cursor h 0
       | Some b \<Rightarrow> write_block x analytics b)"

section \<open>The loop\<close>

text \<open>Flush the buffer, if any, and report the cursor.\<close>

definition flush_buf :: "ext \<Rightarrow> bool \<Rightarrow> block_bundle list \<Rightarrow> block_height \<Rightarrow>
    ('z sync_world_scheme, sync_error, block_height) io" where
  "flush_buf x analytics buf cursor =
     (if buf = [] then ret_io cursor
      else bind_io (batch_write_blocks x analytics buf) (\<lambda>_. ret_io (max_height buf)))"

text \<open>
  One iteration per height: cancellation is checked first; a failed fetch ends the run with the
  buffer unwritten; a bundle is buffered; a gap flushes the buffer and then moves the cursor. The
  buffer is flushed when it reaches the batch size. \<open>cancel i\<close> tells whether the token was
  cancelled when iteration \<open>i\<close> began; after the last height one more check is made, and both of its
  outcomes flush and return.
\<close>

fun backfill_loop :: "ext \<Rightarrow> bool \<Rightarrow> nat \<Rightarrow> (block_height \<Rightarrow> sync_error + block_bundle option) \<Rightarrow>
    (nat \<Rightarrow> bool) \<Rightarrow> nat \<Rightarrow> block_height list \<Rightarrow> block_bundle list \<Rightarrow> block_height \<Rightarrow>
    ('z sync_world_scheme, sync_error, block_height) io" where
  "backfill_loop x an batch_size fetch cancel i [] buf cursor = flush_buf x an buf cursor"
| "backfill_loop x an batch_size fetch cancel i (h # hs) buf cursor =
     (if cancel i then flush_buf x an buf cursor
      else case fetch h of
        Inl e \<Rightarrow> fail_io e
      | Inr (Some bundle) \<Rightarrow>
          (let buf' = buf @ [bundle] in
           if batch_size \<le> length buf'
           then bind_io (flush_buf x an buf' cursor) (\<lambda>c.
                  backfill_loop x an batch_size fetch cancel (Suc i) hs [] c)
           else backfill_loop x an batch_size fetch cancel (Suc i) hs buf' cursor)
      | Inr None \<Rightarrow>
          bind_io (flush_buf x an buf cursor) (\<lambda>_.
          bind_io (write_cursor h 0) (\<lambda>_.
            backfill_loop x an batch_size fetch cancel (Suc i) hs [] h)))"

definition backfill_cap :: "sync_config \<Rightarrow> block_height \<Rightarrow> i64" where
  "backfill_cap cfg tip =
     (let lagged = saturating_sub_i64 (height_val tip) (u64_as_i64 (safe_lag cfg)) in
      case max_backfill_height cfg of
        Some m \<Rightarrow> min (height_val m) lagged
      | None \<Rightarrow> lagged)"

definition run_backfill :: "ext \<Rightarrow> node \<Rightarrow> sync_config \<Rightarrow> string option \<Rightarrow> bool \<Rightarrow> (nat \<Rightarrow> bool) \<Rightarrow>
    ('z sync_world_scheme, sync_error, block_height) io" where
  "run_backfill x n cfg batch_var analytics cancel =
     bind_io read_cursor (\<lambda>stored.
       let cursor = (case stored of None \<Rightarrow> BlockHeight (- 1) | Some c \<Rightarrow> c) in
       bind_io (lift_io (retried backoff_default (block_number n))) (\<lambda>tip.
         let cap = backfill_cap cfg tip in
         if cap \<le> height_val cursor then ret_io cursor
         else backfill_loop x analytics (backfill_batch_size batch_var)
                (fetch_one x n backoff_default) cancel 0
                (map BlockHeight [height_val cursor + 1 .. cap]) [] cursor))"

section \<open>Bundles\<close>

lemma env_usize_range: "0 < dflt \<Longrightarrow> dflt \<le> hi \<Longrightarrow> 0 < env_usize hi dflt v \<and> env_usize hi dflt v \<le> hi"
  by (auto simp: env_usize_def split: option.splits)

lemma invalid_Inr [simp]: "invalid r = Inr y \<longleftrightarrow> r = Inr y"
  by (simp add: invalid_def)

lemma retried_Inr:
  "retried cfg op = Inr v \<longleftrightarrow> fst (retry_with_backoff cfg op) = Some (Inr v)"
  by (auto simp: retried_def split: option.splits)

lemma make_bundle_Inr:
  assumes "make_bundle x block logs = Inr b"
  shows "to_domain_block_from_native x block = Inr (bb_block b)"
    and "to_domain_txs_from_native block = Inr (bb_txs b)"
    and "bundle_height b = BlockHeight (nb_index block)" "0 \<le> nb_index block"
    and "\<And>t. t \<in> set (bb_txs b) \<Longrightarrow> t_block_height t = bundle_height b"
    and "\<And>l. l \<in> set (bb_logs b) \<Longrightarrow> l_tx_hash l \<in> t_hash ` set (bb_txs b)"
    and "\<And>t. t \<in> set (bb_token_transfers b) \<Longrightarrow> \<exists>l\<in>set (bb_logs b). decode_transfer x l = Some t"
proof -
  from assms obtain all where
    1: "to_domain_block_from_native x block = Inr (bb_block b)"
    and 2: "to_domain_txs_from_native block = Inr (bb_txs b)"
    and 3: "bb_logs b = filter (\<lambda>l. l_tx_hash l \<in> t_hash ` set (bb_txs b)) all"
      "bb_token_transfers b = List.map_filter (decode_transfer x) (bb_logs b)"
    by (auto simp: make_bundle_def bind_result_Inr Let_def)
  show "to_domain_block_from_native x block = Inr (bb_block b)" by (rule 1)
  show "to_domain_txs_from_native block = Inr (bb_txs b)" by (rule 2)
  show h: "bundle_height b = BlockHeight (nb_index block)" and "0 \<le> nb_index block"
    using to_domain_block_Inr [OF 1] by (simp_all add: bundle_height_def)
  show "t_block_height t = bundle_height b" if "t \<in> set (bb_txs b)" for t
    using to_domain_txs_height [OF 2 that] h by simp
  show "l_tx_hash l \<in> t_hash ` set (bb_txs b)" if "l \<in> set (bb_logs b)" for l
    using that by (simp add: 3)
  show "\<exists>l\<in>set (bb_logs b). decode_transfer x l = Some t" if "t \<in> set (bb_token_transfers b)" for t
    using that by (auto simp: 3(2) List.map_filter_def)
qed

lemma fetch_one_Some:
  assumes "fetch_one x n cfg h = Inr (Some b)"
  shows "\<exists>block logs k m. rest_block_at n h k = Inr (Some block) \<and>
    logs_in_range n h h None m = Inr logs \<and> make_bundle x block logs = Inr b"
proof -
  from assms obtain block logs where
    1: "fst (retry_with_backoff cfg (rest_block_at n h)) = Some (Inr (Some block))" and
    2: "fst (retry_with_backoff cfg (logs_in_range n h h None)) = Some (Inr logs)" and
    3: "make_bundle x block logs = Inr b"
    by (auto simp: fetch_one_def bind_result_Inr retried_Inr split: option.splits)
  then show ?thesis
    using retry_ok_attempt [OF 1] retry_ok_attempt [OF 2] by blast
qed

lemma fetch_one_None:
  assumes "fetch_one x n cfg h = Inr None"
  shows "\<exists>k. rest_block_at n h k = Inr None"
  using assms retry_ok_attempt [of cfg "rest_block_at n h"]
  by (auto simp: fetch_one_def bind_result_Inr retried_Inr split: option.splits)

text \<open>
  The code stores a block under the height the node put in it, and takes the block number of a log as
  given. Theorems about what is covered assume that the node answers for the height it was asked.
\<close>

definition honest_node :: "node \<Rightarrow> bool" where
  "honest_node n \<longleftrightarrow>
     (\<forall>h k block. rest_block_at n h k = Inr (Some block) \<longrightarrow> nb_index block = height_val h)"

lemma fetch_one_height:
  assumes "honest_node n" "fetch_one x n cfg h = Inr (Some b)"
  shows "bundle_height b = h" "0 \<le> height_val h"
proof -
  obtain block logs k m where "rest_block_at n h k = Inr (Some block)"
    and b: "make_bundle x block logs = Inr b"
    using fetch_one_Some [OF assms(2)] by blast
  with assms(1) have "nb_index block = height_val h"
    by (simp add: honest_node_def)
  with make_bundle_Inr(3,4) [OF b] show "bundle_height b = h" "0 \<le> height_val h"
    by simp_all
qed

section \<open>Effect of the writers on heights and cursor\<close>

definition heights :: "db \<Rightarrow> i64 set" where
  "heights d = br_height ` set (tbl_blocks d)"

lemma heights_same: "same_tables d d' \<Longrightarrow> heights d' = heights d"
  by (simp add: heights_def same_tablesD)

lemma batch_write_cases:
  assumes "batch_write_blocks x an bs w = (r, w')" "bs \<noteq> []"
  obtains (unchanged) "same_tables (w_db w) (w_db w')" "\<exists>e. r = Inl e"
    | (written) "batch_rows bs (w_db w) = (Inr (), w_db w')"
proof -
  obtain rt wt where t: "transaction SqlxErr (batch_body bs) w = (rt, wt)"
    by fastforce
  have db: "w_db w' = w_db wt" and r: "r = (case rt of Inl e \<Rightarrow> Inl e | Inr _ \<Rightarrow> Inr ())"
    using assms t
    by (auto simp: batch_write_blocks_def bind_io_def push_all_db split: sum.splits if_splits)
  from transaction_atomic [OF batch_body_implements, of SqlxErr bs w] t
  consider d' where "w_db wt = restore (w_db w) d'" "\<exists>e. rt = Inl e"
    | "batch_rows bs (w_db w) = (Inr (), w_db wt)"
    by auto
  then show thesis
    using db r that by cases auto
qed

lemma insert_blocks_heights:
  assumes "for_io blocks_insert_stmt bs d = (Inr (), d')"
  shows "heights d' = (\<lambda>b. height_val (b_height b)) ` set bs \<union> heights d"
  using blocks_tbl.all_rows [OF assms [unfolded insert_stmt_folds]]
  by (auto simp: heights_def block_to_row_def image_iff)

lemma upsert_chunks_local:
  "for_io upsert_batch_stmt css e = (Inr (), e') \<Longrightarrow> e' = e\<lparr>tbl_addresses := tbl_addresses e'\<rparr>"
proof (induction css arbitrary: e)
  case Nil
  then show ?case by (simp add: ret_io_def)
next
  case (Cons c css)
  then obtain e1 where 1: "upsert_batch_stmt c e = (Inr (), e1)"
    and 2: "for_io upsert_batch_stmt css e1 = (Inr (), e')"
    by (auto simp: bind_io_Inr)
  have "e' = e1\<lparr>tbl_addresses := tbl_addresses e'\<rparr>"
    by (rule Cons.IH [OF 2])
  also have "\<dots> = e\<lparr>tbl_addresses := tbl_addresses e'\<rparr>"
    using 1 by (simp add: upsert_batch_Inr)
  finally show ?case .
qed

lemma batch_rows_effect:
  assumes b: "batch_rows bs d = (Inr (), d')" and ok: "cursor_ok d" and ne: "bs \<noteq> []"
    and hs: "\<forall>b\<in>set bs. height_ok (bundle_height b)"
  shows "heights d' = (\<lambda>b. height_val (bundle_height b)) ` set bs \<union> heights d"
    and "cursor_pos d' = max (cursor_pos d) (height_val (max_height bs))" and "cursor_ok d'"
proof -
  from b obtain d1 d2 d3 d4 d5 where
    1: "for_io blocks_insert_stmt (all_blocks bs) d = (Inr (), d1)" and
    2: "for_io transactions_insert_stmt (all_txs bs) d1 = (Inr (), d2)" and
    3: "for_io upsert_batch_stmt (chunks batch_insert_chunk (tx_addresses (all_txs bs))) d2 = (Inr (), d3)" and
    4: "for_io logs_insert_stmt (all_logs bs) d3 = (Inr (), d4)" and
    5: "for_io token_transfers_insert_stmt (all_transfers bs) d4 = (Inr (), d5)" and
    6: "write_cursor_stmt (max_height bs) (cursor_ts bs) d5 = (Inr (), d')"
    by (auto simp: batch_rows_Inr)
  note eqs = ind_blocks.local_all [OF 1] ind_txs.local_all [OF 2] upsert_chunks_local [OF 3]
    ind_logs.local_all [OF 4] ind_transfers.local_all [OF 5]
  have "tbl_meta d5 = tbl_meta d"
    using arg_cong [OF eqs(1), of tbl_meta] arg_cong [OF eqs(2), of tbl_meta]
      arg_cong [OF eqs(3), of tbl_meta] arg_cong [OF eqs(4), of tbl_meta]
      arg_cong [OF eqs(5), of tbl_meta] by simp
  note meta = cursor_depends_on_meta [OF this]
  have "height_ok (max_height bs)"
    using hs max_height_in [OF ne] by (auto simp: bundle_height_def)
  then have h: "in_i64 (height_val (max_height bs))" "- 1 \<le> height_val (max_height bs)"
    by (simp_all add: height_ok_def)
  note c = write_cursor_Inr [OF 6 _ h]
  show "cursor_pos d' = max (cursor_pos d) (height_val (max_height bs))" "cursor_ok d'"
    using c(2,3) ok meta by simp_all
  have "tbl_blocks d' = tbl_blocks d1"
    using arg_cong [OF c(1), of tbl_blocks] ok meta arg_cong [OF eqs(2), of tbl_blocks]
      arg_cong [OF eqs(3), of tbl_blocks] arg_cong [OF eqs(4), of tbl_blocks]
      arg_cong [OF eqs(5), of tbl_blocks] by simp
  then show "heights d' = (\<lambda>b. height_val (bundle_height b)) ` set bs \<union> heights d"
    using insert_blocks_heights [OF 1]
    by (auto simp: heights_def all_blocks_def bundle_height_def)
qed

lemma write_rows_effect:
  assumes "write_rows b d = (Inr (), d')" "cursor_ok d" "height_ok (bundle_height b)"
  shows "heights d' = insert (height_val (bundle_height b)) (heights d)"
    and "cursor_pos d' = max (cursor_pos d) (height_val (bundle_height b))" and "cursor_ok d'"
proof -
  note T = write_rows_tables [OF assms(1)]
  have "for_io blocks_insert_stmt [bb_block b] d = (Inr (), d\<lparr>tbl_blocks := tbl_blocks d'\<rparr>)"
    using T(1) by (simp add: table_runs_def Let_def)
  from insert_blocks_heights [OF this]
  show "heights d' = insert (height_val (bundle_height b)) (heights d)"
    by (simp add: heights_def bundle_height_def)
  have h: "in_i64 (height_val (b_height (bb_block b)))" "- 1 \<le> height_val (b_height (bb_block b))"
    using assms(3) by (simp_all add: height_ok_def bundle_height_def)
  note c = write_cursor_Inr [OF T(5) assms(2) h]
  have m: "tbl_meta d' = tbl_meta (d\<lparr>tbl_meta := tbl_meta d'\<rparr>)" by simp
  show "cursor_pos d' = max (cursor_pos d) (height_val (bundle_height b))" "cursor_ok d'"
    using c(2,3) cursor_depends_on_meta(2,3) [OF m] by (simp_all add: bundle_height_def)
qed

end
