(* ===== verification/Backfill_Props.thy ===== *)
theory Backfill_Props
  imports Backfill
begin

text \<open>
  The backfill never lets the cursor run ahead of the data, whatever fails; it never writes above
  its cap; a run that is not cancelled and returns has covered every height up to the cap. The same
  invariant carries over to any interleaving of writers that commit bundles and gaps.
\<close>

section \<open>Coverage\<close>

text \<open>
  \<open>gaps\<close> are the heights the node answers with 404. Everything up to the cursor is stored or a gap.
\<close>

definition covered :: "(i64 \<Rightarrow> bool) \<Rightarrow> db \<Rightarrow> bool" where
  "covered gaps d \<longleftrightarrow> (\<forall>h. 0 \<le> h \<longrightarrow> h \<le> cursor_pos d \<longrightarrow> h \<in> heights d \<or> gaps h)"

definition sync_inv :: "(i64 \<Rightarrow> bool) \<Rightarrow> db \<Rightarrow> bool" where
  "sync_inv gaps d \<longleftrightarrow> cursor_ok d \<and> covered gaps d"

definition buf_heights :: "block_bundle list \<Rightarrow> i64 set" where
  "buf_heights buf = (\<lambda>b. height_val (bundle_height b)) ` set buf"

definition pending :: "(i64 \<Rightarrow> bool) \<Rightarrow> i64 \<Rightarrow> block_bundle list \<Rightarrow> db \<Rightarrow> bool" where
  "pending gaps lo buf d \<longleftrightarrow>
     (\<forall>h. 0 \<le> h \<longrightarrow> h < lo \<longrightarrow> h \<in> heights d \<or> gaps h \<or> h \<in> buf_heights buf) \<and>
     (\<forall>h\<in>buf_heights buf. 0 \<le> h \<and> h < lo \<and> in_i64 h)"

lemma sync_inv_cursor: "sync_inv gaps d \<Longrightarrow> cursor_ok d"
  by (simp add: sync_inv_def)

lemma same_tables_inv:
  assumes "same_tables d d'"
  shows "sync_inv gaps d' = sync_inv gaps d" "pending gaps lo buf d' = pending gaps lo buf d"
    "cursor_pos d' = cursor_pos d" "heights d' = heights d"
  using cursor_depends_on_meta(2,3) [OF same_tablesD(6) [OF assms]] heights_same [OF assms]
  by (simp_all add: sync_inv_def covered_def pending_def)

lemma pending_heights_ok: "pending gaps lo buf d \<Longrightarrow> \<forall>b\<in>set buf. height_ok (bundle_height b)"
  by (force simp: pending_def buf_heights_def height_ok_def)

lemma pending_empty: "pending gaps lo [] d \<longleftrightarrow> (\<forall>h. 0 \<le> h \<longrightarrow> h < lo \<longrightarrow> h \<in> heights d \<or> gaps h)"
  by (simp add: pending_def buf_heights_def)

lemma max_height_buf:
  assumes "buf \<noteq> []"
  shows "height_val (max_height buf) \<in> buf_heights buf"
  using max_height_in [OF assms] by (auto simp: buf_heights_def bundle_height_def)

lemma max_height_ge: "b \<in> set buf \<Longrightarrow> bundle_height b \<le> max_height buf"
  unfolding max_height_def bundle_height_def by (rule Max_ge) auto

text \<open>A committed batch: the buffer becomes rows, and the cursor stays below what is covered.\<close>

lemma batch_rows_sync:
  assumes b: "batch_rows buf d = (Inr (), d')" and ne: "buf \<noteq> []"
    and inv: "sync_inv gaps d" and p: "pending gaps lo buf d"
  shows "sync_inv gaps d'" "pending gaps lo [] d'"
    "cursor_pos d' = max (cursor_pos d) (height_val (max_height buf))"
    "heights d' = buf_heights buf \<union> heights d"
proof -
  note eff = batch_rows_effect [OF b sync_inv_cursor [OF inv] ne pending_heights_ok [OF p]]
  show hs: "heights d' = buf_heights buf \<union> heights d"
    using eff(1) by (simp add: buf_heights_def)
  show cur: "cursor_pos d' = max (cursor_pos d) (height_val (max_height buf))"
    by (rule eff(2))
  show p': "pending gaps lo [] d'"
    using p by (auto simp: pending_def hs buf_heights_def)
  have "height_val (max_height buf) < lo"
    using p max_height_buf [OF ne] by (auto simp: pending_def)
  then show "sync_inv gaps d'"
    using eff(3) inv p' hs cur by (auto simp: sync_inv_def covered_def pending_empty le_max_iff_disj)
qed

lemma gap_write_sync:
  assumes c: "write_cursor_stmt (BlockHeight lo) ts d = (Inr (), d')"
    and inv: "sync_inv gaps d" and p: "pending gaps lo [] d" and g: "gaps lo" "0 \<le> lo" "in_i64 lo"
  shows "sync_inv gaps d'" "pending gaps (lo + 1) [] d'" "cursor_pos d' = max (cursor_pos d) lo"
    "heights d' = heights d"
proof -
  have eq: "d' = d\<lparr>tbl_meta := tbl_meta d'\<rparr>" and cur: "cursor_pos d' = max (cursor_pos d) lo"
    and ok: "cursor_ok d'"
    using write_cursor_Inr [OF c sync_inv_cursor [OF inv]] g by simp_all
  show "cursor_pos d' = max (cursor_pos d) lo" by (rule cur)
  show hs: "heights d' = heights d"
    by (subst eq) (simp add: heights_def)
  show p': "pending gaps (lo + 1) [] d'"
    using p g(1) hs by (auto simp: pending_empty)
  show "sync_inv gaps d'"
    using inv ok p' hs cur by (auto simp: sync_inv_def covered_def pending_empty le_max_iff_disj)
qed

lemma write_cursor_cases:
  assumes "write_cursor h ts w = (r, w')"
  obtains (unchanged) "same_tables (w_db w) (w_db w')" "\<exists>e. r = Inl e"
    | (written) "write_cursor_stmt h ts (w_db w) = (Inr (), w_db w')"
proof -
  obtain rs d1 where s: "statement (write_cursor_stmt h ts) (w_db w) = (rs, d1)"
    by fastforce
  obtain r1 w1 where q: "request (write_cursor_stmt h ts) w = (r1, w1)"
    by fastforce
  with assms have r: "r = map_err SqlxErr r1" "w' = w1"
    by (simp_all add: write_cursor_def map_err_io_def)
  show thesis
  proof (cases rs)
    case (Inr u)
    with s have d1: "write_cursor_stmt h ts (w_db w) = (Inr (), d1)"
      by (simp add: statement_Inr)
    from q s Inr have "w_db w1 = d1 \<or> (w_db w1 = w_db w \<and> (\<exists>e. r1 = Inl e))"
      by (auto simp: request_def split: list.splits pg_outcome.splits)
    then show thesis
    proof
      assume "w_db w1 = d1"
      with d1 r(2) show thesis by (intro written) simp
    next
      assume "w_db w1 = w_db w \<and> (\<exists>e. r1 = Inl e)"
      with r show thesis by (intro unchanged) auto
    qed
  next
    case (Inl e)
    from statement_Inl [OF s [unfolded Inl]] obtain d2 where "d1 = restore (w_db w) d2"
      by (elim exE conjE)
    then have d1: "same_tables (w_db w) d1" by simp
    from q s Inl have "(w_db w1 = d1 \<or> w_db w1 = w_db w) \<and> (\<exists>e. r1 = Inl e)"
      by (auto simp: request_def split: list.splits pg_outcome.splits)
    with d1 have "same_tables (w_db w) (w_db w1)" "\<exists>e. r1 = Inl e"
      by auto
    with r show thesis by (intro unchanged) auto
  qed
qed

section \<open>One run\<close>

text \<open>What holds at the end of a (possibly partial) run over the heights from \<open>base\<close> to \<open>hi\<close>.\<close>

definition run_ok :: "(i64 \<Rightarrow> bool) \<Rightarrow> i64 \<Rightarrow> i64 \<Rightarrow> db \<Rightarrow> db \<Rightarrow> bool" where
  "run_ok gaps base hi d d' \<longleftrightarrow> sync_inv gaps d' \<and> cursor_pos d \<le> cursor_pos d' \<and>
     cursor_pos d' \<le> max (cursor_pos d) hi \<and> heights d \<subseteq> heights d' \<and>
     heights d' \<subseteq> heights d \<union> {base..hi}"

lemma run_ok_refl: "sync_inv gaps d \<Longrightarrow> same_tables d d' \<Longrightarrow> run_ok gaps base hi d d'"
  by (simp add: run_ok_def same_tables_inv)

lemma run_ok_trans: "run_ok gaps base hi d d1 \<Longrightarrow> run_ok gaps base hi d1 d2 \<Longrightarrow> run_ok gaps base hi d d2"
  by (auto simp: run_ok_def)

lemma flush_buf_run:
  assumes f: "flush_buf x an buf cursor w = (r, w')"
    and inv: "sync_inv gaps (w_db w)" and p: "pending gaps lo buf (w_db w)" and lo: "lo \<le> hi + 1"
    and base: "buf_heights buf \<subseteq> {base..}"
  shows "run_ok gaps base hi (w_db w) (w_db w')"
    and "r = Inr c \<Longrightarrow> pending gaps lo [] (w_db w') \<and>
           c = (if buf = [] then cursor else max_height buf) \<and>
           (buf \<noteq> [] \<longrightarrow> height_val c \<le> cursor_pos (w_db w'))"
proof -
  have "run_ok gaps base hi (w_db w) (w_db w') \<and> (\<forall>c. r = Inr c \<longrightarrow> pending gaps lo [] (w_db w') \<and>
           c = (if buf = [] then cursor else max_height buf) \<and>
           (buf \<noteq> [] \<longrightarrow> height_val c \<le> cursor_pos (w_db w')))"
  proof (cases "buf = []")
    case True
    with f have "w' = w" "r = Inr cursor"
      by (simp_all add: flush_buf_def ret_io_def)
    with True inv p show ?thesis
      by (simp add: run_ok_refl)
  next
    case False
    with f obtain rb where b: "batch_write_blocks x an buf w = (rb, w')"
      and r: "\<And>c. r = Inr c \<Longrightarrow> rb = Inr () \<and> c = max_height buf"
      by (auto simp: flush_buf_def bind_io_def ret_io_def split: prod.splits sum.splits)
    from b False show ?thesis
    proof (cases rule: batch_write_cases)
      case unchanged
      with inv r show ?thesis by (auto simp: run_ok_refl)
    next
      case written
      note s = batch_rows_sync [OF written False inv p]
      have "buf_heights buf \<subseteq> {base..hi}"
        using p lo base by (force simp: pending_def)
      then have "height_val (max_height buf) \<le> hi"
        using max_height_buf [OF False] by auto
      with \<open>buf_heights buf \<subseteq> {base..hi}\<close> have "run_ok gaps base hi (w_db w) (w_db w')"
        using s(1,3,4) by (auto simp: run_ok_def le_max_iff_disj)
      with s r False show ?thesis by auto
    qed
  qed
  then show "run_ok gaps base hi (w_db w) (w_db w')"
    and "r = Inr c \<Longrightarrow> pending gaps lo [] (w_db w') \<and>
           c = (if buf = [] then cursor else max_height buf) \<and>
           (buf \<noteq> [] \<longrightarrow> height_val c \<le> cursor_pos (w_db w'))"
    by blast+
qed

definition fetch_ok :: "(i64 \<Rightarrow> bool) \<Rightarrow> (block_height \<Rightarrow> sync_error + block_bundle option) \<Rightarrow> bool" where
  "fetch_ok gaps fetch \<longleftrightarrow>
     (\<forall>h b. fetch h = Inr (Some b) \<longrightarrow> bundle_height b = h) \<and>
     (\<forall>h. fetch h = Inr None \<longrightarrow> gaps (height_val h))"

lemma pending_push:
  assumes "pending gaps lo buf d" "bundle_height b = BlockHeight lo" "0 \<le> lo" "in_i64 lo"
  shows "pending gaps (lo + 1) (buf @ [b]) d"
  using assms by (force simp: pending_def buf_heights_def)

lemma upto_heights: "lo \<le> hi \<Longrightarrow> map BlockHeight [lo..hi] = BlockHeight lo # map BlockHeight [lo + 1..hi]"
  by (simp add: upto.simps [of lo hi])

text \<open>One iteration of the loop, with everything it can do.\<close>

lemma backfill_loop_cases:
  assumes "backfill_loop x an n fetch cancel i (h # hs) buf cursor w = (r, w')"
  obtains (cancelled) "cancel i" "flush_buf x an buf cursor w = (r, w')"
    | (failed) e where "fetch h = Inl e" "w' = w" "r = Inl e"
    | (buffered) b where "fetch h = Inr (Some b)" "\<not> cancel i"
        "backfill_loop x an n fetch cancel (Suc i) hs (buf @ [b]) cursor w = (r, w')"
    | (flush_failed) b e where "fetch h = Inr (Some b)" "r = Inl e"
        "flush_buf x an (buf @ [b]) cursor w = (Inl e, w')"
    | (flushed) b c w1 where "fetch h = Inr (Some b)" "\<not> cancel i"
        "flush_buf x an (buf @ [b]) cursor w = (Inr c, w1)"
        "backfill_loop x an n fetch cancel (Suc i) hs [] c w1 = (r, w')"
    | (gap_unflushed) e where "fetch h = Inr None" "r = Inl e" "flush_buf x an buf cursor w = (Inl e, w')"
    | (gap_failed) c w1 e where "fetch h = Inr None" "r = Inl e" "flush_buf x an buf cursor w = (Inr c, w1)"
        "write_cursor h 0 w1 = (Inl e, w')"
    | (gap) c w1 w2 where "fetch h = Inr None" "\<not> cancel i" "flush_buf x an buf cursor w = (Inr c, w1)"
        "write_cursor h 0 w1 = (Inr (), w2)"
        "backfill_loop x an n fetch cancel (Suc i) hs [] h w2 = (r, w')"
  using assms
  by (fastforce simp: bind_io_def fail_io_def Let_def
      split: if_splits sum.splits option.splits prod.splits)

lemma gap_run:
  assumes wc: "write_cursor (BlockHeight lo) 0 w = (r, w')"
    and inv: "sync_inv gaps (w_db w)" "pending gaps lo [] (w_db w)"
    and g: "gaps lo" "0 \<le> lo" "in_i64 lo" "lo \<le> hi"
  shows "run_ok gaps base hi (w_db w) (w_db w')"
    and "r = Inr u \<Longrightarrow> pending gaps (lo + 1) [] (w_db w')"
proof -
  have "run_ok gaps base hi (w_db w) (w_db w') \<and> (r = Inr u \<longrightarrow> pending gaps (lo + 1) [] (w_db w'))"
    using wc
  proof (cases rule: write_cursor_cases)
    case unchanged
    with inv show ?thesis by (auto simp: run_ok_refl)
  next
    case written
    from gap_write_sync [OF written inv g(1-3)] g(4) show ?thesis
      by (auto simp: run_ok_def)
  qed
  then show "run_ok gaps base hi (w_db w) (w_db w')"
    and "r = Inr u \<Longrightarrow> pending gaps (lo + 1) [] (w_db w')"
    by blast+
qed

lemma run_ok_inv: "run_ok gaps base hi d d' \<Longrightarrow> sync_inv gaps d'"
  by (simp add: run_ok_def)

lemma backfill_loop_run:
  assumes "backfill_loop x an n fetch cancel i (map BlockHeight [lo..hi]) buf cursor w = (r, w')"
    and fetch: "fetch_ok gaps fetch" and "0 \<le> lo" "lo \<le> hi + 1" and hi: "in_i64 hi"
    and "sync_inv gaps (w_db w)" "pending gaps lo buf (w_db w)"
    and "buf_heights buf \<subseteq> {base..}" "base \<le> lo"
  shows "run_ok gaps base hi (w_db w) (w_db w') \<and>
    (\<forall>c. r = Inr c \<longrightarrow> (\<forall>j. \<not> cancel j) \<longrightarrow> pending gaps (hi + 1) [] (w_db w'))"
  using assms(1,3,4,6-9)
proof (induction "nat (hi + 1 - lo)" arbitrary: lo i buf cursor w)
  case 0
  then have lo: "lo = hi + 1" by simp
  with 0 have f: "flush_buf x an buf cursor w = (r, w')" by simp
  from flush_buf_run [OF f 0(5,6,4,7)] lo show ?case by auto
next
  case (Suc k)
  note inv = Suc.prems(4) and pend = Suc.prems(5) and base = Suc.prems(6)
  have le: "lo \<le> hi" and inl: "in_i64 lo" using Suc.hyps(2) Suc.prems(2) hi by (auto simp: rust_arith)
  have rest: "run_ok gaps base hi (w_db w) (w_db w') \<and>
      (\<forall>c. r = Inr c \<longrightarrow> (\<forall>j. \<not> cancel j) \<longrightarrow> pending gaps (hi + 1) [] (w_db w'))"
    if "backfill_loop x an n fetch cancel (Suc i) (map BlockHeight [lo + 1..hi]) buf1 cur1 w1 = (r, w')"
      "run_ok gaps base hi (w_db w) (w_db w1)" "pending gaps (lo + 1) buf1 (w_db w1)"
      "buf_heights buf1 \<subseteq> {base..}" for buf1 cur1 w1
    using Suc.hyps(1) [OF _ that(1) _ _ run_ok_inv [OF that(2)] that(3,4)] that(2) Suc.hyps(2) Suc.prems le
    by (auto intro: run_ok_trans)
  have pushed: "pending gaps (lo + 1) (buf @ [b]) (w_db w)" "buf_heights (buf @ [b]) \<subseteq> {base..}"
    if "fetch (BlockHeight lo) = Inr (Some b)" for b
    using that fetch pending_push [OF pend _ Suc.prems(2) inl] base Suc.prems(7)
    by (auto simp: fetch_ok_def buf_heights_def)
  have gap_ok: "gaps lo" if "fetch (BlockHeight lo) = Inr None"
    using that fetch by (metis block_height.sel fetch_ok_def)
  note skip = gap_run [where lo = lo and gaps = gaps, OF _ _ _ _ Suc.prems(2) inl le]
  from Suc.prems(1) [unfolded upto_heights [OF le]] show ?case
  proof (cases rule: backfill_loop_cases)
    case cancelled
    from flush_buf_run(1) [OF cancelled(2) inv pend Suc.prems(3) base] cancelled(1) show ?thesis by auto
  next
    case (failed e)
    with inv show ?thesis by (simp add: run_ok_refl)
  next
    case (buffered b)
    from rest [OF buffered(3) run_ok_refl [OF inv] pushed [OF buffered(1)]] show ?thesis by simp
  next
    case (flush_failed b e)
    from flush_buf_run(1) [OF flush_failed(3) inv pushed(1) _ pushed(2)] flush_failed(1,2) le show ?thesis by simp
  next
    case (flushed b c w1)
    note f = flush_buf_run [OF flushed(3) inv pushed(1) _ pushed(2), OF flushed(1) _ flushed(1)]
    from rest [OF flushed(4) f(1)] f(2) le show ?thesis by (auto simp: buf_heights_def)
  next
    case (gap_unflushed e)
    from flush_buf_run(1) [OF gap_unflushed(3) inv pend Suc.prems(3) base] gap_unflushed(2) show ?thesis by simp
  next
    case (gap_failed c w1 e)
    note f = flush_buf_run [OF gap_failed(3) inv pend Suc.prems(3) base]
    from skip(1) [OF gap_failed(4) run_ok_inv [OF f(1)] _ gap_ok [OF gap_failed(1)]] f gap_failed(2)
    show ?thesis by (auto intro: run_ok_trans)
  next
    case (gap c w1 w2)
    note f = flush_buf_run [OF gap(3) inv pend Suc.prems(3) base]
    have "pending gaps lo [] (w_db w1)" using f(2) by simp
    note skipped = skip [OF gap(4) run_ok_inv [OF f(1)] this gap_ok [OF gap(1)]]
    from rest [OF gap(5) run_ok_trans [OF f(1) skipped(1)]] skipped(2)
    show ?thesis by (auto simp: buf_heights_def)
  qed
qed

section \<open>The whole run\<close>

text \<open>The heights the node answers with 404.\<close>

definition node_gaps :: "node \<Rightarrow> i64 \<Rightarrow> bool" where
  "node_gaps n h \<longleftrightarrow> (\<exists>k. rest_block_at n (BlockHeight h) k = Inr None)"

lemma fetch_one_ok:
  assumes "honest_node n"
  shows "fetch_ok (node_gaps n) (fetch_one x n cfg)"
  unfolding fetch_ok_def
proof (intro conjI allI impI)
  show "bundle_height b = h" if "fetch_one x n cfg h = Inr (Some b)" for h b
    by (rule fetch_one_height(1) [OF assms that])
  show "node_gaps n (height_val h)" if "fetch_one x n cfg h = Inr None" for h
    using fetch_one_None [OF that] by (simp add: node_gaps_def)
qed

lemma retried_tip:
  assumes "retried cfg (block_number n) = Inr tip"
  shows "\<exists>k v. eth_block_number n k = Inr v \<and> tip = block_height_from_u64 v"
proof -
  from assms have "fst (retry_with_backoff cfg (block_number n)) = Some (Inr tip)"
    by (simp add: retried_Inr)
  then obtain k where "block_number n k = Inr tip"
    using retry_ok_attempt by blast
  then show ?thesis
    by (auto simp: block_number_def bind_result_Inr)
qed

lemma backfill_cap_le: "backfill_cap cfg tip \<le> saturating_sub_i64 (height_val tip) (u64_as_i64 (safe_lag cfg))"
  by (simp add: backfill_cap_def Let_def split: option.splits)

lemma run_backfill_cases:
  assumes "run_backfill x n cfg var an cancel w = (r, w')"
  obtains (stopped) "w_db w' = w_db w" "\<exists>e. r = Inl e" 
    | (idle) tip where "retried backoff_default (block_number n) = Inr tip" "w_db w' = w_db w"
        "backfill_cap cfg tip \<le> cursor_pos (w_db w)" "r = Inr (BlockHeight (cursor_pos (w_db w)))"
    | (walk) tip w1 where "retried backoff_default (block_number n) = Inr tip" "w_db w1 = w_db w"
        "cursor_pos (w_db w) < backfill_cap cfg tip"
        "backfill_loop x an (backfill_batch_size var) (fetch_one x n backoff_default) cancel 0
           (map BlockHeight [cursor_pos (w_db w) + 1 .. backfill_cap cfg tip]) []
           (BlockHeight (cursor_pos (w_db w))) w1 = (r, w')"
proof -
  obtain rc w1 where rc: "read_cursor w = (rc, w1)" by fastforce
  show thesis
  proof (cases rc)
    case (Inl e)
    have "w_db w1 = w_db w"
      using rc unfolding read_cursor_def meta_get_i64_def meta_get_def query_def bind_io_def
        map_err_io_def ret_io_def fail_io_def request_def statement_def restore_def
      by (auto split: list.splits pg_outcome.splits prod.splits sum.splits option.splits)
    with assms rc Inl show thesis
      by (intro stopped) (auto simp: run_backfill_def bind_io_def)
  next
    case (Inr c)
    note spec = read_cursor_spec [OF rc [unfolded Inr]]
    let ?pos = "cursor_pos (w_db w)"
    have cur: "(case c of None \<Rightarrow> BlockHeight (- 1) | Some c \<Rightarrow> c) = BlockHeight ?pos"
      by (simp add: spec(1) cursor_pos_def split: option.splits)
    show thesis
    proof (cases "retried backoff_default (block_number n)")
      case (Inl e)
      with assms rc Inr have "r = Inl e" "w' = w1"
        by (simp_all add: run_backfill_def bind_io_def lift_io_def Let_def)
      with spec(2) show thesis
        by (intro stopped) auto
    next
      case tip: (Inr tip)
      have run: "(if backfill_cap cfg tip \<le> ?pos then ret_io (BlockHeight ?pos)
          else backfill_loop x an (backfill_batch_size var) (fetch_one x n backoff_default) cancel 0
                 (map BlockHeight [?pos + 1 .. backfill_cap cfg tip]) [] (BlockHeight ?pos)) w1 = (r, w')"
        using assms rc Inr tip cur
        by (simp add: run_backfill_def bind_io_def lift_io_def Let_def cong: if_cong)
      show thesis
      proof (cases "backfill_cap cfg tip \<le> ?pos")
        case True
        with run have "w' = w1" "r = Inr (BlockHeight ?pos)" by (simp_all add: ret_io_def)
        with True tip spec(2) show thesis by (intro idle) auto
      next
        case False
        with run tip spec(2) show thesis by (intro walk) auto
      qed
    qed
  qed
qed

lemma cursor_pos_range: "cursor_ok d \<Longrightarrow> - 1 \<le> cursor_pos d \<and> cursor_pos d \<le> i64_max"
  by (auto simp: cursor_ok_def cursor_pos_def cursor_of_def parse_i64_to_string rust_arith
      split: option.splits)

lemma run_backfill_run:
  assumes run: "run_backfill x n cfg var an cancel w = (r, w')"
    and honest: "honest_node n" and gaps: "\<And>h. node_gaps n h \<Longrightarrow> gaps h"
    and inv: "sync_inv gaps (w_db w)"
    and tip: "\<And>k v. eth_block_number n k = Inr v \<Longrightarrow>
      saturating_sub_i64 (height_val (block_height_from_u64 v)) (u64_as_i64 (safe_lag cfg)) \<le> hi"
    and hi: "0 \<le> hi" "in_i64 hi"
  shows "run_ok gaps (cursor_pos (w_db w) + 1) hi (w_db w) (w_db w')"
  using run
proof (cases rule: run_backfill_cases)
  case stopped
  with inv show ?thesis by (simp add: run_ok_refl)
next
  case (idle tip)
  with inv show ?thesis by (simp add: run_ok_refl)
next
  case (walk tip w1)
  let ?pos = "cursor_pos (w_db w)" and ?cap = "backfill_cap cfg tip"
  have pos: "- 1 \<le> ?pos"
    using cursor_pos_range sync_inv_cursor [OF inv] by blast
  obtain k v where "eth_block_number n k = Inr v" "tip = block_height_from_u64 v"
    using retried_tip [OF walk(1)] by blast
  then have cap: "?cap \<le> hi"
    using tip backfill_cap_le [of cfg tip] by fastforce
  then have "in_i64 ?cap"
    using hi walk(3) pos by (simp add: rust_arith)
  moreover have "fetch_ok gaps (fetch_one x n backoff_default)"
    using fetch_one_ok [OF honest] gaps by (fastforce simp: fetch_ok_def)
  moreover have "sync_inv gaps (w_db w1)" "pending gaps (?pos + 1) [] (w_db w1)"
    using inv walk(2) by (auto simp: sync_inv_def covered_def pending_empty)
  ultimately have "run_ok gaps (?pos + 1) ?cap (w_db w1) (w_db w')"
    using pos walk(3) by (intro backfill_loop_run [OF walk(4), THEN conjunct1]) (auto simp: buf_heights_def)
  then show ?thesis
    using cap by (auto simp: run_ok_def walk(2) le_max_iff_disj)
qed

lemma run_backfill_done:
  assumes run: "run_backfill x n cfg var an cancel w = (Inr c, w')"
    and honest: "honest_node n" and gaps: "\<And>h. node_gaps n h \<Longrightarrow> gaps h"
    and inv: "sync_inv gaps (w_db w)" and nc: "\<And>i. \<not> cancel i"
  shows "\<exists>tip. retried backoff_default (block_number n) = Inr tip \<and>
    (\<forall>h. 0 \<le> h \<longrightarrow> h \<le> backfill_cap cfg tip \<longrightarrow> h \<in> heights (w_db w') \<or> gaps h)"
  using run
proof (cases rule: run_backfill_cases)
  case stopped
  then show ?thesis by simp
next
  case (idle tip)
  with inv show ?thesis
    by (intro exI [of _ tip]) (auto simp: sync_inv_def covered_def)
next
  case (walk tip w1)
  let ?pos = "cursor_pos (w_db w)" and ?cap = "backfill_cap cfg tip"
  have pos: "- 1 \<le> ?pos"
    using cursor_pos_range sync_inv_cursor [OF inv] by blast
  have "?cap \<le> i64_max"
    using order_trans [OF backfill_cap_le [of cfg tip]] by (simp add: rust_arith)
  then have "in_i64 ?cap"
    using walk(3) pos by (simp add: rust_arith)
  moreover have "fetch_ok gaps (fetch_one x n backoff_default)"
    using fetch_one_ok [OF honest] gaps by (fastforce simp: fetch_ok_def)
  moreover have "sync_inv gaps (w_db w1)" "pending gaps (?pos + 1) [] (w_db w1)"
    using inv walk(2) by (auto simp: sync_inv_def covered_def pending_empty)
  ultimately have "pending gaps (?cap + 1) [] (w_db w')"
    using pos walk(3) nc backfill_loop_run [OF walk(4), where base = "?pos + 1" and gaps = gaps]
    by (auto simp: buf_heights_def)
  with walk(1) show ?thesis
    by (intro exI [of _ tip]) (auto simp: pending_empty)
qed

section \<open>Interleaved writers\<close>

text \<open>
  Several writers on one database, each with the next height it will fetch and a buffer of fetched
  bundles, interleaved transaction by transaction: the backfill (\<open>fetch\<close>, \<open>flush\<close>, \<open>gap\<close>) and the
  per-block ingestion of the tail loop (\<open>single\<close>). A failed transaction or a crash is a \<open>restart\<close>,
  which reads the cursor again.
\<close>

record sys =
  sys_db :: db
  sys_next :: "nat \<Rightarrow> i64"
  sys_buf :: "nat \<Rightarrow> block_bundle list"

inductive sys_step :: "(block_height \<Rightarrow> sync_error + block_bundle option) \<Rightarrow> sys \<Rightarrow> sys \<Rightarrow> bool"
  for fetch :: "block_height \<Rightarrow> sync_error + block_bundle option"
where
  restart: "sys_step fetch s (s\<lparr>sys_next := (sys_next s)(p := cursor_pos (sys_db s) + 1),
                               sys_buf := (sys_buf s)(p := [])\<rparr>)"
| fetch: "fetch (BlockHeight (sys_next s p)) = Inr (Some b) \<Longrightarrow> in_i64 (sys_next s p) \<Longrightarrow>
    sys_step fetch s (s\<lparr>sys_next := (sys_next s)(p := sys_next s p + 1),
                       sys_buf := (sys_buf s)(p := sys_buf s p @ [b])\<rparr>)"
| flush: "sys_buf s p \<noteq> [] \<Longrightarrow> batch_rows (sys_buf s p) (sys_db s) = (Inr (), d) \<Longrightarrow>
    sys_step fetch s (s\<lparr>sys_db := d, sys_buf := (sys_buf s)(p := [])\<rparr>)"
| gap: "sys_buf s p = [] \<Longrightarrow> fetch (BlockHeight (sys_next s p)) = Inr None \<Longrightarrow> in_i64 (sys_next s p) \<Longrightarrow>
    write_cursor_stmt (BlockHeight (sys_next s p)) 0 (sys_db s) = (Inr (), d) \<Longrightarrow>
    sys_step fetch s (s\<lparr>sys_db := d, sys_next := (sys_next s)(p := sys_next s p + 1)\<rparr>)"
| single: "sys_buf s p = [] \<Longrightarrow> fetch (BlockHeight (sys_next s p)) = Inr (Some b) \<Longrightarrow> in_i64 (sys_next s p) \<Longrightarrow>
    write_rows b (sys_db s) = (Inr (), d) \<Longrightarrow>
    sys_step fetch s (s\<lparr>sys_db := d, sys_next := (sys_next s)(p := sys_next s p + 1)\<rparr>)"

inductive sys_reach :: "(block_height \<Rightarrow> sync_error + block_bundle option) \<Rightarrow> sys \<Rightarrow> sys \<Rightarrow> bool"
  for fetch :: "block_height \<Rightarrow> sync_error + block_bundle option"
where
  start: "sys_reach fetch s s"
| step: "sys_reach fetch s s1 \<Longrightarrow> sys_step fetch s1 s2 \<Longrightarrow> sys_reach fetch s s2"

definition sys_inv :: "(i64 \<Rightarrow> bool) \<Rightarrow> sys \<Rightarrow> bool" where
  "sys_inv gaps s \<longleftrightarrow> sync_inv gaps (sys_db s) \<and>
     (\<forall>p. 0 \<le> sys_next s p \<and> pending gaps (sys_next s p) (sys_buf s p) (sys_db s))"

lemma pending_more: "pending gaps lo buf d \<Longrightarrow> heights d \<subseteq> heights d' \<Longrightarrow> pending gaps lo buf d'"
  by (auto simp: pending_def)

lemma single_write_sync:
  assumes w: "write_rows b d = (Inr (), d')" and inv: "sync_inv gaps d"
    and p: "pending gaps lo [] d" and h: "bundle_height b = BlockHeight lo" "0 \<le> lo" "in_i64 lo"
  shows "sync_inv gaps d'" "pending gaps (lo + 1) [] d'" "heights d \<subseteq> heights d'"
    "cursor_pos d \<le> cursor_pos d'"
proof -
  have "height_ok (bundle_height b)"
    using h by (simp add: height_ok_def)
  note eff = write_rows_effect [OF w sync_inv_cursor [OF inv] this]
  show hs: "heights d \<subseteq> heights d'" and "cursor_pos d \<le> cursor_pos d'"
    using eff by auto
  show p': "pending gaps (lo + 1) [] d'"
    using p eff(1) h(1) by (auto simp: pending_empty)
  show "sync_inv gaps d'"
    using inv eff h(1) p' by (auto simp: sync_inv_def covered_def pending_empty le_max_iff_disj)
qed

lemma sys_step_inv:
  assumes "sys_step fetch s s'" "sys_inv gaps s" "fetch_ok gaps fetch"
  shows "sys_inv gaps s' \<and> cursor_pos (sys_db s) \<le> cursor_pos (sys_db s')"
  using assms
proof cases
  case (restart p)
  with assms(2) cursor_pos_range [of "sys_db s"] show ?thesis
    by (auto simp: sys_inv_def sync_inv_def covered_def pending_empty)
next
  case (fetch p b)
  moreover from this assms(3) have "bundle_height b = BlockHeight (sys_next s p)"
    by (simp add: fetch_ok_def)
  ultimately show ?thesis
    using assms(2) by (auto simp: sys_inv_def intro: pending_push)
next
  case (flush p d)
  have inv: "sync_inv gaps (sys_db s)" "pending gaps (sys_next s p) (sys_buf s p) (sys_db s)"
    using assms(2) by (auto simp: sys_inv_def)
  note sync = batch_rows_sync [OF flush(3,2) inv]
  have "heights (sys_db s) \<subseteq> heights d" using sync(4) by simp
  with sync assms(2) flush(1) show ?thesis
    by (auto simp: sys_inv_def intro: pending_more)
next
  case (gap p d)
  have inv: "sync_inv gaps (sys_db s)" "pending gaps (sys_next s p) [] (sys_db s)" "0 \<le> sys_next s p"
    using assms(2) gap(2) by (auto simp: sys_inv_def) metis
  have "gaps (sys_next s p)"
    using assms(3) gap(3) by (metis block_height.sel fetch_ok_def)
  note sync = gap_write_sync [OF gap(5) inv(1,2) this inv(3) gap(4)]
  with assms(2) gap(1,2) show ?thesis
    by (auto simp: sys_inv_def intro: pending_more)
next
  case (single p b d)
  have inv: "sync_inv gaps (sys_db s)" "pending gaps (sys_next s p) [] (sys_db s)" "0 \<le> sys_next s p"
    using assms(2) single(2) by (auto simp: sys_inv_def) metis
  have "bundle_height b = BlockHeight (sys_next s p)"
    using assms(3) single(3) by (simp add: fetch_ok_def)
  note sync = single_write_sync [OF single(5) inv(1,2) this inv(3) single(4)]
  with assms(2) single(1,2) show ?thesis
    by (auto simp: sys_inv_def intro: pending_more)
qed

lemma sys_reach_inv:
  assumes "sys_reach fetch s s'" "sys_inv gaps s" "fetch_ok gaps fetch"
  shows "sys_inv gaps s' \<and> cursor_pos (sys_db s) \<le> cursor_pos (sys_db s')"
  using assms
proof induction
  case (start s)
  then show ?case by simp
next
  case (step s s1 s2)
  then show ?case using sys_step_inv [OF step.hyps(2)] by fastforce
qed

end
