(* ===== verification/Gate.thy ===== *)
theory Gate
  imports Domain
begin

text \<open>
  \<open>crates/sync/src/single_flight.rs\<close>. The gate is a flag and a stash of the highest tip offered while
  it was busy. The first part gives its methods as atomic operations, and the locale
  \<open>single_flight\<close> with what a worker loop relies on. The second part runs the two atomic actions of
  \<open>offer\<close> (the compare-exchange, then the locked update of the stash) as separate steps of any
  number of threads.
\<close>

section \<open>Methods\<close>

record gate =
  inflight :: bool
  stash :: "block_height option"

definition gate_new :: gate where
  "gate_new = \<lparr>inflight = False, stash = None\<rparr>"

datatype offer = Acquired block_height | Stashed

definition max_stash :: "block_height option \<Rightarrow> block_height \<Rightarrow> block_height" where
  "max_stash v tip = (case v of None \<Rightarrow> tip | Some s \<Rightarrow> max s tip)"

definition offer_tip :: "block_height \<Rightarrow> gate \<Rightarrow> offer \<times> gate" where
  "offer_tip tip g =
     (if \<not> inflight g
      then (Acquired (max_stash (stash g) tip), g\<lparr>inflight := True, stash := None\<rparr>)
      else (Stashed, g\<lparr>stash := Some (max_stash (stash g) tip)\<rparr>))"

definition take_pending_and_release :: "gate \<Rightarrow> block_height option \<times> gate" where
  "take_pending_and_release g =
     (case stash g of
        Some next \<Rightarrow> (Some next, g\<lparr>stash := None\<rparr>)
      | None \<Rightarrow> (None, g\<lparr>inflight := False\<rparr>))"

section \<open>The contract a worker relies on\<close>

text \<open>
  \<open>serve\<close> is the worker loop of the tail: take the gate, then keep releasing until nothing is left;
  \<open>arrivals\<close> are the tips others offer while the worker is busy with its first, second, ... height.
  It returns the heights it worked on.
\<close>

locale single_flight =
  fixes offer_op :: "block_height \<Rightarrow> 'g \<Rightarrow> offer \<times> 'g"
    and release_op :: "'g \<Rightarrow> block_height option \<times> 'g"
    and busy :: "'g \<Rightarrow> bool" and waiting :: "'g \<Rightarrow> block_height option"
  assumes offer_free: "\<not> busy g \<Longrightarrow> \<exists>h g'. offer_op tip g = (Acquired h, g') \<and> busy g' \<and>
              waiting g' = None \<and> tip \<le> h \<and> (\<forall>s. waiting g = Some s \<longrightarrow> s \<le> h)"
    and offer_busy: "busy g \<Longrightarrow> \<exists>s g'. offer_op tip g = (Stashed, g') \<and> busy g' \<and>
              waiting g' = Some s \<and> tip \<le> s \<and> (\<forall>r. waiting g = Some r \<longrightarrow> r \<le> s)"
    and release_some: "busy g \<Longrightarrow> waiting g = Some s \<Longrightarrow>
              \<exists>g'. release_op g = (Some s, g') \<and> busy g' \<and> waiting g' = None"
    and release_none: "busy g \<Longrightarrow> waiting g = None \<Longrightarrow>
              \<exists>g'. release_op g = (None, g') \<and> \<not> busy g' \<and> waiting g' = None"
begin

definition offers :: "block_height list \<Rightarrow> 'g \<Rightarrow> 'g" where
  "offers tips g = fold (\<lambda>t g. snd (offer_op t g)) tips g"

lemma offers_busy:
  assumes "busy g"
  shows "busy (offers tips g) \<and>
    (case waiting (offers tips g) of
       None \<Rightarrow> tips = [] \<and> waiting g = None
     | Some s \<Rightarrow> (\<forall>t\<in>set tips. t \<le> s) \<and> (\<forall>r. waiting g = Some r \<longrightarrow> r \<le> s))"
  using assms
proof (induction tips arbitrary: g)
  case Nil
  then show ?case by (simp add: offers_def split: option.splits)
next
  case (Cons t tips)
  then obtain s g' where g': "offer_op t g = (Stashed, g')" "busy g'" "waiting g' = Some s" "t \<le> s"
    "\<forall>r. waiting g = Some r \<longrightarrow> r \<le> s"
    using offer_busy by blast
  from Cons.IH [OF g'(2)] g' show ?case
    by (auto simp: offers_def split: option.splits dest: order_trans)
qed

fun serve :: "block_height list list \<Rightarrow> block_height \<Rightarrow> 'g \<Rightarrow> block_height list \<times> 'g" where
  "serve [] current g =
     (case release_op g of
        (None, g') \<Rightarrow> ([current], g')
      | (Some next, g') \<Rightarrow> ([current, next], snd (release_op g')))"
| "serve (tips # rest) current g =
     (case release_op (offers tips g) of
        (None, g') \<Rightarrow> ([current], g')
      | (Some next, g') \<Rightarrow> (let (hs, g'') = serve rest next g' in (current # hs, g'')))"

text \<open>
  The worker ends with the gate free and an empty stash, and every tip that arrived while it still
  held the gate is at most some height it worked on.
\<close>

lemma serve_releases:
  assumes "busy g" "serve arrivals current g = (hs, g')"
  shows "\<not> busy g' \<and> waiting g' = None \<and> current \<in> set hs \<and> hs \<noteq> [] \<and>
    (\<forall>r. arrivals = [] \<longrightarrow> waiting g = Some r \<longrightarrow> r \<in> set hs)"
  using assms
proof (induction arrivals arbitrary: current g hs g')
  case Nil
  show ?case
  proof (cases "waiting g")
    case None
    with Nil release_none [OF Nil(1)] show ?thesis by auto
  next
    case (Some s)
    then obtain g1 where "release_op g = (Some s, g1)" "busy g1" "waiting g1 = None"
      using release_some Nil(1) by blast
    moreover from this obtain g2 where "release_op g1 = (None, g2)" "\<not> busy g2" "waiting g2 = None"
      using release_none by blast
    ultimately show ?thesis using Nil Some by auto
  qed
next
  case (Cons tips rest)
  note b = offers_busy [OF Cons.prems(1), of tips]
  show ?case
  proof (cases "waiting (offers tips g)")
    case None
    with b Cons.prems release_none [of "offers tips g"] show ?thesis by auto
  next
    case (Some s)
    with b obtain g1 where g1: "release_op (offers tips g) = (Some s, g1)" "busy g1"
      using release_some by blast
    obtain hs1 g2 where s1: "serve rest s g1 = (hs1, g2)" by fastforce
    from Cons.IH [OF g1(2) s1] Cons.prems(2) g1 s1 show ?thesis by auto
  qed
qed

lemma serve_first_arrivals:
  assumes "busy g" "serve (tips # rest) current g = (hs, g')" "t \<in> set tips"
  shows "\<exists>h\<in>set hs. t \<le> h"
proof -
  note b = offers_busy [OF assms(1), of tips]
  with assms(3) obtain s where s: "waiting (offers tips g) = Some s" "t \<le> s"
    by (auto split: option.splits)
  then obtain g1 where g1: "release_op (offers tips g) = (Some s, g1)" "busy g1"
    using release_some b by blast
  obtain hs1 g2 where s1: "serve rest s g1 = (hs1, g2)" by fastforce
  have "s \<in> set hs1"
    using serve_releases [OF g1(2) s1] by blast
  with assms(2) g1 s1 s(2) show ?thesis by auto
qed

end

interpretation sf: single_flight offer_tip take_pending_and_release inflight stash
  by unfold_locales
    (auto simp: offer_tip_def take_pending_and_release_def max_stash_def split: option.splits)

section \<open>Threads\<close>

text \<open>
  A thread is idle, has won or lost the compare-exchange of an \<open>offer\<close> but not yet taken the lock, or
  works on a height. Releasing happens under the lock, so it is one step. \<open>offered\<close> and \<open>served\<close>
  record the tips offered and the heights worked on.
\<close>

datatype thread = Idle | Won block_height | Lost block_height | Working block_height

record gsys =
  g_inflight :: bool
  g_stash :: "block_height option"
  g_threads :: "nat \<Rightarrow> thread"
  g_offered :: "block_height set"
  g_served :: "block_height set"

definition gsys_init :: gsys where
  "gsys_init = \<lparr>g_inflight = False, g_stash = None, g_threads = (\<lambda>_. Idle), g_offered = {}, g_served = {}\<rparr>"

inductive gate_step :: "gsys \<Rightarrow> gsys \<Rightarrow> bool" where
  cas_ok: "g_threads s p = Idle \<Longrightarrow> \<not> g_inflight s \<Longrightarrow>
    gate_step s (s\<lparr>g_inflight := True, g_threads := (g_threads s)(p := Won tip),
                   g_offered := insert tip (g_offered s)\<rparr>)"
| cas_err: "g_threads s p = Idle \<Longrightarrow> g_inflight s \<Longrightarrow>
    gate_step s (s\<lparr>g_threads := (g_threads s)(p := Lost tip), g_offered := insert tip (g_offered s)\<rparr>)"
| lock_won: "g_threads s p = Won tip \<Longrightarrow>
    gate_step s (s\<lparr>g_stash := None,
                   g_threads := (g_threads s)(p := Working (max_stash (g_stash s) tip))\<rparr>)"
| lock_lost: "g_threads s p = Lost tip \<Longrightarrow>
    gate_step s (s\<lparr>g_stash := Some (max_stash (g_stash s) tip), g_threads := (g_threads s)(p := Idle)\<rparr>)"
| take_next: "g_threads s p = Working h \<Longrightarrow> g_stash s = Some next \<Longrightarrow>
    gate_step s (s\<lparr>g_stash := None, g_threads := (g_threads s)(p := Working next),
                   g_served := insert h (g_served s)\<rparr>)"
| release: "g_threads s p = Working h \<Longrightarrow> g_stash s = None \<Longrightarrow>
    gate_step s (s\<lparr>g_inflight := False, g_threads := (g_threads s)(p := Idle),
                   g_served := insert h (g_served s)\<rparr>)"

inductive gate_reach :: "gsys \<Rightarrow> bool" where
  init: "gate_reach gsys_init"
| step: "gate_reach s \<Longrightarrow> gate_step s s' \<Longrightarrow> gate_reach s'"

definition holds_gate :: "thread \<Rightarrow> bool" where
  "holds_gate t = (case t of Won _ \<Rightarrow> True | Working _ \<Rightarrow> True | _ \<Rightarrow> False)"

definition carries :: "block_height \<Rightarrow> thread \<Rightarrow> bool" where
  "carries h t \<longleftrightarrow> t = Won h \<or> t = Lost h \<or> t = Working h"

definition one_holder :: "gsys \<Rightarrow> bool" where
  "one_holder s \<longleftrightarrow>
     (\<forall>p q. holds_gate (g_threads s p) \<longrightarrow> holds_gate (g_threads s q) \<longrightarrow> p = q) \<and>
     (g_inflight s \<longleftrightarrow> (\<exists>p. holds_gate (g_threads s p)))"

definition tracks :: "gsys \<Rightarrow> block_height \<Rightarrow> bool" where
  "tracks s h \<longleftrightarrow> h \<in> g_served s \<or> g_stash s = Some h \<or> (\<exists>p. carries h (g_threads s p))"

definition tracked :: "gsys \<Rightarrow> block_height \<Rightarrow> bool" where
  "tracked s t \<longleftrightarrow> (\<exists>h\<ge>t. tracks s h)"

lemma holds_gate_simps [simp]:
  "\<not> holds_gate Idle" "holds_gate (Won h)" "\<not> holds_gate (Lost h)" "holds_gate (Working h)"
  by (simp_all add: holds_gate_def)

lemma max_stash_ge: "tip \<le> max_stash v tip" "v = Some s \<Longrightarrow> s \<le> max_stash v tip"
  by (auto simp: max_stash_def split: option.splits)

lemma gate_step_one_holder: "gate_step s s' \<Longrightarrow> one_holder s \<Longrightarrow> one_holder s'"
proof (induction rule: gate_step.induct)
  case (cas_ok s p tip)
  then have "\<And>q. \<not> holds_gate (g_threads s q)" by (auto simp: one_holder_def)
  then show ?case by (auto simp: one_holder_def)
next
  case (cas_err s p tip)
  then show ?case by (auto simp: one_holder_def split: if_splits) (metis holds_gate_simps(1))
next
  case (lock_won s p tip)
  then have "holds_gate (g_threads s p)" by simp
  with lock_won have "g_inflight s" "\<And>q. q \<noteq> p \<Longrightarrow> \<not> holds_gate (g_threads s q)"
    unfolding one_holder_def by blast+
  then show ?case by (auto simp: one_holder_def)
next
  case (lock_lost s p tip)
  then have "holds_gate (((g_threads s)(p := Idle)) q) = holds_gate (g_threads s q)" for q
    by simp
  with lock_lost show ?case by (simp add: one_holder_def del: fun_upd_apply)
next
  case (take_next s p h nxt)
  then have "holds_gate (g_threads s p)" by simp
  with take_next have "g_inflight s" "\<And>q. q \<noteq> p \<Longrightarrow> \<not> holds_gate (g_threads s q)"
    unfolding one_holder_def by blast+
  then show ?case by (auto simp: one_holder_def)
next
  case (release s p h)
  then have p: "holds_gate (g_threads s p)" by simp
  with release have "\<And>q. q \<noteq> p \<Longrightarrow> \<not> holds_gate (g_threads s q)"
    by (auto simp: one_holder_def)
  then show ?case by (auto simp: one_holder_def)
qed

lemma carries_simps [simp]:
  "\<not> carries h Idle" "carries h (Won k) \<longleftrightarrow> h = k" "carries h (Lost k) \<longleftrightarrow> h = k"
  "carries h (Working k) \<longleftrightarrow> h = k"
  by (auto simp: carries_def)

text \<open>What is carried, stashed or served before a step is matched by something as high after it.\<close>

lemma gate_step_tracks:
  assumes "gate_step s s'" "tracks s h"
  shows "\<exists>k\<ge>h. tracks s' k"
  using assms
proof (induction rule: gate_step.induct)
  case (cas_ok s p tip)
  then have "tracks (s\<lparr>g_inflight := True, g_threads := (g_threads s)(p := Won tip),
                   g_offered := insert tip (g_offered s)\<rparr>) h"
    by (auto simp: tracks_def) (metis carries_simps(1))
  then show ?case by blast
next
  case (cas_err s p tip)
  then have "tracks (s\<lparr>g_threads := (g_threads s)(p := Lost tip), g_offered := insert tip (g_offered s)\<rparr>) h"
    by (auto simp: tracks_def) (metis carries_simps(1))
  then show ?case by blast
next
  case (lock_won s p tip)
  let ?s = "s\<lparr>g_stash := None, g_threads := (g_threads s)(p := Working (max_stash (g_stash s) tip))\<rparr>"
  have new: "tracks ?s (max_stash (g_stash s) tip)"
    by (auto simp: tracks_def)
  have "tracks ?s h \<or> g_stash s = Some h \<or> h = tip"
    using lock_won by (auto simp: tracks_def) (metis carries_simps(2))
  with new max_stash_ge show ?case by blast
next
  case (lock_lost s p tip)
  let ?s = "s\<lparr>g_stash := Some (max_stash (g_stash s) tip), g_threads := (g_threads s)(p := Idle)\<rparr>"
  have new: "tracks ?s (max_stash (g_stash s) tip)"
    by (auto simp: tracks_def)
  have "tracks ?s h \<or> g_stash s = Some h \<or> h = tip"
    using lock_lost by (auto simp: tracks_def) (metis carries_simps(3))
  with new max_stash_ge show ?case by blast
next
  case (take_next s p w nxt)
  then have "tracks (s\<lparr>g_stash := None, g_threads := (g_threads s)(p := Working nxt),
                   g_served := insert w (g_served s)\<rparr>) h"
    by (auto simp: tracks_def) (metis carries_simps(4))
  then show ?case by blast
next
  case (release s p w)
  then have "tracks (s\<lparr>g_inflight := False, g_threads := (g_threads s)(p := Idle),
                   g_served := insert w (g_served s)\<rparr>) h"
    by (auto simp: tracks_def) (metis carries_simps(4))
  then show ?case by blast
qed

lemma gate_step_offered:
  assumes "gate_step s s'" "t \<in> g_offered s'"
  shows "t \<in> g_offered s \<or> tracks s' t"
  using assms by (induction rule: gate_step.induct) (auto simp: tracks_def)

lemma gate_step_tracked:
  assumes "gate_step s s'" "\<forall>t\<in>g_offered s. tracked s t"
  shows "\<forall>t\<in>g_offered s'. tracked s' t"
proof
  fix t
  assume "t \<in> g_offered s'"
  with gate_step_offered [OF assms(1)] consider "t \<in> g_offered s" | "tracks s' t"
    by blast
  then show "tracked s' t"
  proof cases
    case 1
    with assms(2) obtain h where "t \<le> h" "tracks s h"
      by (auto simp: tracked_def)
    moreover from this obtain k where "h \<le> k" "tracks s' k"
      using gate_step_tracks [OF assms(1)] by blast
    ultimately show ?thesis
      unfolding tracked_def by (blast intro: order_trans)
  next
    case 2
    then show ?thesis by (auto simp: tracked_def)
  qed
qed

lemma gate_reach_inv: "gate_reach s \<Longrightarrow> one_holder s \<and> (\<forall>t\<in>g_offered s. tracked s t)"
proof (induction rule: gate_reach.induct)
  case init
  then show ?case by (simp add: gsys_init_def one_holder_def)
next
  case (step s s')
  then show ?case using gate_step_one_holder gate_step_tracked by blast
qed

end
