(* ===== verification/Tail.thy ===== *)
theory Tail
  imports Backfill_Props Gate
begin

text \<open>
  \<open>crates/sync/src/tail.rs\<close>: the loop that consumes the chain's event stream and walks the cursor up
  to each finalized tip behind the single-flight gate. The stream is a list of messages, each with
  the state of the cancellation token when it is awaited, the node that answers while it is handled
  and the tips other holders of the gate offer meanwhile.
\<close>

section \<open>One finalized tip\<close>

definition walk_to :: "ext \<Rightarrow> node \<Rightarrow> sync_config \<Rightarrow> backoff_config \<Rightarrow> bool \<Rightarrow> block_height \<Rightarrow>
    ('z sync_world_scheme, sync_error, unit) io" where
  "walk_to x n cfg backoff an current =
     bind_io read_cursor (\<lambda>stored.
       let cursor = (case stored of None \<Rightarrow> - 1 | Some c \<Rightarrow> height_val c);
           cap = saturating_sub_i64 (height_val current) (u64_as_i64 (safe_lag cfg)) in
       if cursor < cap
       then for_io (ingest_one x n backoff an) (map BlockHeight [cursor + 1 .. cap])
       else ret_io ())"

definition offer_all :: "block_height list \<Rightarrow> gate \<Rightarrow> gate" where
  "offer_all tips g = fold (\<lambda>t g. snd (offer_tip t g)) tips g"

text \<open>
  The inner loop of \<open>handle_finalized\<close>. A failed ingestion returns at once: the gate is left as it is.
  \<open>arrivals\<close> holds the tips others offer during the first, second, ... walk.
\<close>

function handle_loop :: "ext \<Rightarrow> node \<Rightarrow> sync_config \<Rightarrow> backoff_config \<Rightarrow> bool \<Rightarrow>
    block_height list list \<Rightarrow> block_height \<Rightarrow> gate \<Rightarrow> 'z sync_world_scheme \<Rightarrow>
    (sync_error + unit) \<times> gate \<times> 'z sync_world_scheme" where
  "handle_loop x n cfg backoff an arrivals current g w =
     (let (r, w') = walk_to x n cfg backoff an current w;
          g1 = (case arrivals of [] \<Rightarrow> g | tips # _ \<Rightarrow> offer_all tips g) in
      case r of
        Inl e \<Rightarrow> (Inl e, g1, w')
      | Inr _ \<Rightarrow>
          (case take_pending_and_release g1 of
             (None, g2) \<Rightarrow> (Inr (), g2, w')
           | (Some next, g2) \<Rightarrow> handle_loop x n cfg backoff an (tl arrivals) next g2 w'))"
  by pat_completeness auto
termination
  by (relation "measure (\<lambda>(x, n, cfg, backoff, an, arrivals, current, g, w).
        2 * length arrivals + (if stash g = None then 0 else 1))")
    (auto simp: take_pending_and_release_def split: option.splits list.splits)

declare handle_loop.simps [simp del]

definition handle_finalized :: "ext \<Rightarrow> node \<Rightarrow> sync_config \<Rightarrow> backoff_config \<Rightarrow> bool \<Rightarrow>
    block_height list list \<Rightarrow> block_height \<Rightarrow> gate \<Rightarrow> 'z sync_world_scheme \<Rightarrow>
    (sync_error + unit) \<times> gate \<times> 'z sync_world_scheme" where
  "handle_finalized x n cfg backoff an arrivals tip g w =
     (case offer_tip tip g of
        (Stashed, g') \<Rightarrow> (Inr (), g', w)
      | (Acquired h, g') \<Rightarrow> handle_loop x n cfg backoff an arrivals h g' w)"

section \<open>The stream\<close>

datatype chain_event =
    BlockFinalized "u64 option"
  | LaggedEvent
  | PendingTx
  | ValidatorSetChange
  | LogEvent
  | NoEvent

datatype stream_msg = StreamFailed grpc_code | StreamClosed | StreamEvent chain_event

datatype tail_exit = Cancelled | Lagged | StreamEnded

record tail_input =
  ti_cancelled :: bool
  ti_msg :: stream_msg
  ti_node :: node
  ti_arrivals :: "block_height list list"

text \<open>\<open>None\<close>: every message so far was handled and the loop waits for the next.\<close>

fun tail_loop :: "ext \<Rightarrow> sync_config \<Rightarrow> bool \<Rightarrow> tail_input list \<Rightarrow> gate \<Rightarrow> 'z sync_world_scheme \<Rightarrow>
    (sync_error + tail_exit) option \<times> gate \<times> 'z sync_world_scheme" where
  "tail_loop x cfg an [] g w = (None, g, w)"
| "tail_loop x cfg an (i # is) g w =
     (if ti_cancelled i then (Some (Inr Cancelled), g, w)
      else case ti_msg i of
        StreamFailed code \<Rightarrow> (Some (Inl (ChainErr (Grpc code))), g, w)
      | StreamClosed \<Rightarrow> (Some (Inr StreamEnded), g, w)
      | StreamEvent ev \<Rightarrow>
          (case ev of
             BlockFinalized (Some idx) \<Rightarrow>
               (let (r, g', w') = handle_finalized x (ti_node i) cfg backoff_default an
                                    (ti_arrivals i) (block_height_from_u64 idx) g w in
                case r of
                  Inl e \<Rightarrow> (Some (Inl e), g', w')
                | Inr _ \<Rightarrow> tail_loop x cfg an is g' w')
           | LaggedEvent \<Rightarrow> (Some (Inr Lagged), g, w)
           | _ \<Rightarrow> tail_loop x cfg an is g w))"

definition run_tail :: "ext \<Rightarrow> sync_config \<Rightarrow> bool \<Rightarrow> chain_error + unit \<Rightarrow> tail_input list \<Rightarrow> gate \<Rightarrow>
    'z sync_world_scheme \<Rightarrow> (sync_error + tail_exit) option \<times> gate \<times> 'z sync_world_scheme" where
  "run_tail x cfg an opened inputs g w =
     (case opened of
        Inl e \<Rightarrow> (Some (Inl (ChainErr e)), g, w)
      | Inr _ \<Rightarrow> tail_loop x cfg an inputs g w)"

section \<open>Walking\<close>

lemma ingest_one_cases:
  assumes "ingest_one x n cfg an h w = (r, w')"
  obtains (failed) e where "fetch_one x n cfg h = Inl e" "w' = w" "r = Inl e"
    | (block) b where "fetch_one x n cfg h = Inr (Some b)" "write_block x an b w = (r, w')"
    | (gap) "fetch_one x n cfg h = Inr None" "write_cursor h 0 w = (r, w')"
  using assms by (auto simp: ingest_one_def bind_io_def lift_io_def split: sum.splits option.splits)

lemma write_block_run:
  assumes run: "write_block x an b w = (r, w')"
    and inv: "sync_inv gaps (w_db w)" and p: "pending gaps lo [] (w_db w)"
    and lo: "bundle_height b = BlockHeight lo" "0 \<le> lo" "in_i64 lo" "lo \<le> hi" "base \<le> lo"
  shows "run_ok gaps base hi (w_db w) (w_db w') \<and> (r = Inr () \<longrightarrow> pending gaps (lo + 1) [] (w_db w'))"
  using run
proof (cases rule: write_block_cases)
  case unchanged
  with inv show ?thesis by (auto simp: run_ok_refl)
next
  case written
  note s = single_write_sync [OF written inv p lo(1-3)]
  have "height_ok (bundle_height b)"
    using lo by (simp add: height_ok_def)
  note eff = write_rows_effect [OF written sync_inv_cursor [OF inv] this]
  have "run_ok gaps base hi (w_db w) (w_db w')"
    using s eff lo by (auto simp: run_ok_def le_max_iff_disj)
  with s show ?thesis by blast
qed

lemma ingest_one_run:
  assumes run: "ingest_one x n cfg an (BlockHeight lo) w = (r, w')"
    and honest: "honest_node n" and gaps: "\<And>h. node_gaps n h \<Longrightarrow> gaps h"
    and inv: "sync_inv gaps (w_db w)" and p: "pending gaps lo [] (w_db w)"
    and lo: "0 \<le> lo" "in_i64 lo" "lo \<le> hi" "base \<le> lo"
  shows "run_ok gaps base hi (w_db w) (w_db w') \<and> (r = Inr () \<longrightarrow> pending gaps (lo + 1) [] (w_db w'))"
proof -
  have ok: "fetch_ok gaps (fetch_one x n cfg)"
    using fetch_one_ok [OF honest] gaps by (fastforce simp: fetch_ok_def)
  from run show ?thesis
  proof (cases rule: ingest_one_cases)
    case failed
    with inv show ?thesis by (simp add: run_ok_refl)
  next
    case (block b)
    with ok have "bundle_height b = BlockHeight lo" by (simp add: fetch_ok_def)
    from write_block_run [OF block(2) inv p this lo] show ?thesis .
  next
    case gap
    with ok have "gaps lo" by (metis block_height.sel fetch_ok_def)
    from gap_run [OF gap(2) inv p this lo(1-3)] show ?thesis by blast
  qed
qed

lemma ingest_all_run:
  assumes "for_io (ingest_one x n cfg an) (map BlockHeight [lo..hi]) w = (r, w')"
    and "honest_node n" "\<And>h. node_gaps n h \<Longrightarrow> gaps h"
    and "sync_inv gaps (w_db w)" "pending gaps lo [] (w_db w)"
    and "0 \<le> lo" "lo \<le> hi + 1" "in_i64 hi" "base \<le> lo"
  shows "run_ok gaps base hi (w_db w) (w_db w') \<and>
    (r = Inr () \<longrightarrow> pending gaps (hi + 1) [] (w_db w'))"
  using assms
proof (induction "nat (hi + 1 - lo)" arbitrary: lo w)
  case 0
  then have "lo = hi + 1" by simp
  with 0 show ?case by (auto simp: ret_io_def run_ok_refl)
next
  case (Suc k)
  then have le: "lo \<le> hi" and inl: "in_i64 lo" by (auto simp: rust_arith)
  obtain r1 w1 where 1: "ingest_one x n cfg an (BlockHeight lo) w = (r1, w1)" by fastforce
  note one = ingest_one_run [OF 1 Suc.prems(2,3,4,5,6) inl le Suc.prems(9)]
  show ?case
  proof (cases r1)
    case (Inl e)
    with Suc.prems(1) 1 le have "w' = w1" "r = Inl e"
      by (simp_all add: upto_heights bind_io_def)
    with one show ?thesis by simp
  next
    case (Inr u)
    with Suc.prems(1) 1 le
    have rest: "for_io (ingest_one x n cfg an) (map BlockHeight [lo + 1..hi]) w1 = (r, w')"
      by (simp add: upto_heights bind_io_def)
    have "run_ok gaps base hi (w_db w1) (w_db w') \<and>
        (r = Inr () \<longrightarrow> pending gaps (hi + 1) [] (w_db w'))"
      using Suc.hyps(2) Suc.prems one Inr
      by (intro Suc.hyps(1) [OF _ rest]) (auto simp: run_ok_def)
    with one show ?thesis by (auto intro: run_ok_trans)
  qed
qed

definition tail_cap :: "sync_config \<Rightarrow> block_height \<Rightarrow> i64" where
  "tail_cap cfg tip = saturating_sub_i64 (height_val tip) (u64_as_i64 (safe_lag cfg))"

lemma in_i64_tail_cap [simp]: "in_i64 (tail_cap cfg tip)"
  by (simp add: tail_cap_def)

lemma read_cursor_failed: "read_cursor w = (Inl e, w') \<Longrightarrow> w_db w' = w_db w"
  unfolding read_cursor_def meta_get_i64_def meta_get_def query_def bind_io_def
    map_err_io_def ret_io_def fail_io_def request_def statement_def restore_def
  by (auto split: list.splits pg_outcome.splits prod.splits sum.splits option.splits)

lemma walk_to_cases:
  assumes "walk_to x n cfg backoff an tip w = (r, w')"
  obtains (unread) e where "r = Inl e" "w_db w' = w_db w"
    | (idle) "tail_cap cfg tip \<le> cursor_pos (w_db w)" "w_db w' = w_db w"
    | (walk) c w1 where "read_cursor w = (Inr c, w1)" "w_db w1 = w_db w" "cursor_pos (w_db w) < tail_cap cfg tip"
        "for_io (ingest_one x n backoff an) (map BlockHeight [cursor_pos (w_db w) + 1 .. tail_cap cfg tip]) w1 = (r, w')"
proof (cases "read_cursor w")
  case (Pair rc w1)
  show thesis
  proof (cases rc)
    case (Inl e)
    with Pair assms have "w' = w1" "r = Inl e"
      by (simp_all add: walk_to_def bind_io_def)
    with read_cursor_failed [OF Pair [unfolded Inl]] show thesis by (intro unread) simp_all
  next
    case (Inr c)
    note spec = read_cursor_spec [OF Pair [unfolded Inr]]
    have cur: "(case c of None \<Rightarrow> - 1 | Some c \<Rightarrow> height_val c) = cursor_pos (w_db w)"
      by (simp add: spec(1) cursor_pos_def split: option.splits)
    have body: "(if cursor_pos (w_db w) < tail_cap cfg tip
        then for_io (ingest_one x n backoff an) (map BlockHeight [cursor_pos (w_db w) + 1 .. tail_cap cfg tip])
        else ret_io ()) w1 = (r, w')"
      using assms Pair Inr cur
      by (simp add: walk_to_def bind_io_def Let_def tail_cap_def cong: if_cong)
    show thesis
    proof (cases "cursor_pos (w_db w) < tail_cap cfg tip")
      case True
      with body Pair Inr spec(2) show thesis by (intro walk) simp_all
    next
      case False
      with body spec(2) show thesis by (intro idle) (simp_all add: ret_io_def)
    qed
  qed
qed

lemma walk_to_run:
  assumes run: "walk_to x n cfg backoff an current w = (r, w')"
    and honest: "honest_node n" and gaps: "\<And>h. node_gaps n h \<Longrightarrow> gaps h"
    and inv: "sync_inv gaps (w_db w)" and hi: "tail_cap cfg current \<le> hi"
  shows "run_ok gaps 0 hi (w_db w) (w_db w')"
    and "r = Inr () \<Longrightarrow> pending gaps (tail_cap cfg current + 1) [] (w_db w')"
proof -
  let ?cap = "tail_cap cfg current" and ?pos = "cursor_pos (w_db w)"
  have "run_ok gaps 0 hi (w_db w) (w_db w') \<and> (r = Inr () \<longrightarrow> pending gaps (?cap + 1) [] (w_db w'))"
    using run
  proof (cases rule: walk_to_cases)
    case unread
    with inv show ?thesis by (simp add: run_ok_refl)
  next
    case idle
    with inv show ?thesis
      by (auto simp: run_ok_refl sync_inv_def covered_def pending_empty)
  next
    case (walk c w1)
    have pos: "- 1 \<le> ?pos"
      using cursor_pos_range sync_inv_cursor [OF inv] by blast
    have "sync_inv gaps (w_db w1)" "pending gaps (?pos + 1) [] (w_db w1)"
      using inv walk(2) by (auto simp: sync_inv_def covered_def pending_empty)
    from ingest_all_run [OF walk(4) honest gaps this, of 0] pos walk(3)
    have "run_ok gaps 0 ?cap (w_db w1) (w_db w') \<and> (r = Inr () \<longrightarrow> pending gaps (?cap + 1) [] (w_db w'))"
      by simp
    with hi show ?thesis
      by (auto simp: run_ok_def walk(2) le_max_iff_disj)
  qed
  then show "run_ok gaps 0 hi (w_db w) (w_db w')"
    and "r = Inr () \<Longrightarrow> pending gaps (?cap + 1) [] (w_db w')" by blast+
qed

section \<open>The gate around the walk\<close>

lemma offer_all_busy: "inflight g \<Longrightarrow> inflight (offer_all tips g)"
  by (induction tips arbitrary: g) (auto simp: offer_all_def offer_tip_def)

lemma offer_all_stash_bound:
  assumes "inflight g" "stash (offer_all tips g) = Some s"
  shows "s \<in> set tips \<or> stash g = Some s"
  using assms
proof (induction tips arbitrary: g)
  case Nil
  then show ?case by (simp add: offer_all_def)
next
  case (Cons t tips)
  let ?g = "g\<lparr>stash := Some (max_stash (stash g) t)\<rparr>"
  from Cons.prems have "stash (offer_all tips ?g) = Some s"
    by (simp add: offer_all_def offer_tip_def)
  with Cons.IH [of ?g] Cons.prems(1) show ?case
    by (auto simp: max_stash_def max_def split: option.splits if_splits)
qed

text \<open>
  Success leaves the gate free; failure leaves it taken. Either way the invariant of the database
  is kept and, after a success, the first height's range is covered.
\<close>

text \<open>The gate after the tips that arrive during a walk, and induction over the walks of one call.\<close>

definition arrived :: "block_height list list \<Rightarrow> gate \<Rightarrow> gate" where
  "arrived arrivals g = (case arrivals of [] \<Rightarrow> g | tips # _ \<Rightarrow> offer_all tips g)"

lemma handle_loop_rule [consumes 1, case_names failed released again]:
  assumes "handle_loop x n cfg backoff an arrivals current g w = (r, g', w')"
    and failed: "\<And>arrivals current g w e w1. walk_to x n cfg backoff an current w = (Inl e, w1) \<Longrightarrow>
      P arrivals current g w (Inl e) (arrived arrivals g) w1"
    and released: "\<And>arrivals current g w w1. walk_to x n cfg backoff an current w = (Inr (), w1) \<Longrightarrow>
      stash (arrived arrivals g) = None \<Longrightarrow> P arrivals current g w (Inr ()) ((arrived arrivals g)\<lparr>inflight := False\<rparr>) w1"
    and again: "\<And>arrivals current g w w1 h r g' w'. walk_to x n cfg backoff an current w = (Inr (), w1) \<Longrightarrow>
      stash (arrived arrivals g) = Some h \<Longrightarrow>
      P (tl arrivals) h ((arrived arrivals g)\<lparr>stash := None\<rparr>) w1 r g' w' \<Longrightarrow> P arrivals current g w r g' w'"
  shows "P arrivals current g w r g' w'"
  using assms
proof (induction x n cfg backoff an arrivals current g w arbitrary: r g' w' rule: handle_loop.induct)
  case (1 x n cfg backoff an arrivals current g w)
  obtain rw w1 where walk: "walk_to x n cfg backoff an current w = (rw, w1)" by fastforce
  have eq: "handle_loop x n cfg backoff an arrivals current g w =
      (case rw of Inl e \<Rightarrow> (Inl e, arrived arrivals g, w1)
       | Inr _ \<Rightarrow> (case take_pending_and_release (arrived arrivals g) of
             (None, g2) \<Rightarrow> (Inr (), g2, w1)
           | (Some next, g2) \<Rightarrow> handle_loop x n cfg backoff an (tl arrivals) next g2 w1))"
    by (subst handle_loop.simps) (simp only: walk Let_def prod.case arrived_def)
  show ?case
  proof (cases rw)
    case (Inl e)
    with eq "1.prems"(1,2) walk show ?thesis by auto
  next
    case (Inr u)
    show ?thesis
    proof (cases "stash (arrived arrivals g)")
      case None
      with eq Inr walk "1.prems"(1,3) show ?thesis by (auto simp: take_pending_and_release_def)
    next
      case (Some h)
      then have tpr: "(Some h, (arrived arrivals g)\<lparr>stash := None\<rparr>) = take_pending_and_release
          (case arrivals of [] \<Rightarrow> g | tips # x \<Rightarrow> offer_all tips g)"
        by (simp add: take_pending_and_release_def arrived_def)
      have "handle_loop x n cfg backoff an (tl arrivals) h ((arrived arrivals g)\<lparr>stash := None\<rparr>) w1 = (r, g', w')"
        using eq Inr Some "1.prems"(1) by (simp add: take_pending_and_release_def)
      from "1.IH" [OF refl walk [symmetric] refl Inr tpr refl this "1.prems"(2-4)]
      show ?thesis using "1.prems"(4) walk Inr Some by simp
    qed
  qed
qed

lemma arrived_busy: "inflight g \<Longrightarrow> inflight (arrived arrivals g)"
  by (auto simp: arrived_def offer_all_busy split: list.splits)

lemma arrived_stash:
  "inflight g \<Longrightarrow> stash (arrived arrivals g) = Some s \<Longrightarrow> s \<in> \<Union>(set ` set arrivals) \<or> stash g = Some s"
  by (auto simp: arrived_def split: list.splits dest!: offer_all_stash_bound)

lemma handle_loop_run:
  assumes "handle_loop x n cfg backoff an arrivals current g w = (r, g', w')"
    and honest: "honest_node n" and gaps: "\<And>h. node_gaps n h \<Longrightarrow> gaps h"
    and "sync_inv gaps (w_db w)" "inflight g"
    and "tail_cap cfg current \<le> hi" "\<And>t. t \<in> \<Union>(set ` set arrivals) \<Longrightarrow> tail_cap cfg t \<le> hi"
    and "\<And>s. stash g = Some s \<Longrightarrow> tail_cap cfg s \<le> hi"
  shows "run_ok gaps 0 hi (w_db w) (w_db w') \<and> inflight g' = (\<exists>e. r = Inl e) \<and>
    (r = Inr () \<longrightarrow> stash g' = None \<and> pending gaps (tail_cap cfg current + 1) [] (w_db w'))"
  using assms(1,4-8)
proof (induction rule: handle_loop_rule)
  case (failed arrivals current g w e w1)
  with walk_to_run(1) [OF failed(1) honest gaps] arrived_busy show ?case by simp
next
  case (released arrivals current g w w1)
  with walk_to_run [OF released(1) honest gaps] show ?case by simp
next
  case (again arrivals current g w w1 h r g' w')
  note run = walk_to_run [OF again(1) honest gaps again(4,6)]
  have "tail_cap cfg h \<le> hi"
    using arrived_stash [OF again(5,2)] again(7,8) by blast
  moreover have "tail_cap cfg t \<le> hi" if "t \<in> \<Union>(set ` set (tl arrivals))" for t
    using that again(7) by (cases arrivals) auto
  ultimately have "run_ok gaps 0 hi (w_db w1) (w_db w') \<and> inflight g' = (\<exists>e. r = Inl e) \<and>
      (r = Inr () \<longrightarrow> stash g' = None \<and> pending gaps (tail_cap cfg h + 1) [] (w_db w'))"
    using run_ok_inv [OF run(1)] arrived_busy [OF again(5)] by (intro again(3)) simp_all
  with run show ?case
    by (auto simp: run_ok_def dest: pending_more)
qed

end
