(* ===== verification/Reorg.thy ===== *)
theory Reorg
  imports Tail
begin

text \<open>
  \<open>crates/sync/src/reorg.rs\<close>: probing the chain's hash some blocks below the cursor, walking back to
  the first height that still agrees, deleting everything from the divergence on. The checker is not
  started by any binary of the repository; it is modelled as the function it is.
\<close>

section \<open>The checker\<close>

definition remote_hash :: "ext \<Rightarrow> u8 list \<Rightarrow> string" where
  "remote_hash x h = ''0x'' @ hex_encode x h"

fun walk_back :: "ext \<Rightarrow> node \<Rightarrow> nat \<Rightarrow> ('z world_scheme, sync_error, block_height) io" where
  "walk_back x n 0 = ret_io (BlockHeight 0)"
| "walk_back x n (Suc k) =
     (let parent = BlockHeight (int k); cursor = BlockHeight (int (Suc k)) in
      bind_io (map_err_io DbErr (blocks_get_by_height parent)) (\<lambda>local.
      bind_io (lift_io (map_err ChainErr (block_with_txs n parent))) (\<lambda>remote.
        case (local, remote) of
          (Some l, Some r) \<Rightarrow>
            if remote_hash x r = b_hash l then ret_io cursor else walk_back x n k
        | (None, _) \<Rightarrow> ret_io cursor
        | (_, None) \<Rightarrow> ret_io cursor)))"

definition rewind_body :: "block_height \<Rightarrow> ('z world_scheme, sync_error, unit) io" where
  "rewind_body h =
     bind_io (map_err_io DbErr (delete_from h)) (\<lambda>dropped.
       write_cursor (BlockHeight (saturating_sub_i64 (height_val h) 1)) 0)"

definition rewind_to :: "block_height \<Rightarrow> ('z world_scheme, sync_error, unit) io" where
  "rewind_to h = transaction SqlxErr (rewind_body h)"

definition probe_height :: "sync_config \<Rightarrow> block_height \<Rightarrow> nat" where
  "probe_height cfg cursor =
     nat (max (saturating_sub_i64 (height_val cursor) (u64_as_i64 (reorg_probe_depth cfg))) 0)"

definition check_once :: "ext \<Rightarrow> node \<Rightarrow> sync_config \<Rightarrow> block_height \<Rightarrow>
    ('z world_scheme, sync_error, block_height) io" where
  "check_once x n cfg cursor =
     (if height_val cursor < 0 then ret_io cursor
      else let probe = probe_height cfg cursor; probe_h = BlockHeight (int probe) in
        bind_io (map_err_io DbErr (blocks_get_by_height probe_h)) (\<lambda>local.
          case local of None \<Rightarrow> ret_io cursor
          | Some l \<Rightarrow>
        bind_io (lift_io (map_err ChainErr (block_with_txs n probe_h))) (\<lambda>remote.
          case remote of None \<Rightarrow> ret_io cursor
          | Some r \<Rightarrow>
            if remote_hash x r = b_hash l then ret_io cursor
            else bind_io (walk_back x n probe) (\<lambda>divergence.
                 bind_io (rewind_to divergence) (\<lambda>_.
                   ret_io (BlockHeight (saturating_sub_i64 (height_val divergence) 1)))))))"

section \<open>What the two sides say about a height\<close>

definition local_block :: "db \<Rightarrow> nat \<Rightarrow> block option" where
  "local_block d k =
     (case find (\<lambda>r. br_height r = int k) (tbl_blocks d) of
        None \<Rightarrow> None
      | Some r \<Rightarrow> (case row_to_block r of Inl _ \<Rightarrow> None | Inr b \<Rightarrow> Some b))"

definition differs :: "ext \<Rightarrow> node \<Rightarrow> db \<Rightarrow> nat \<Rightarrow> bool" where
  "differs x n d k \<longleftrightarrow>
     (\<exists>l r. local_block d k = Some l \<and> block_with_txs n (BlockHeight (int k)) = Inr (Some r) \<and>
        remote_hash x r \<noteq> b_hash l)"

lemma query_db:
  assumes "query f w = (r, w')"
  shows "w_db w' = w_db w" "r = Inr v \<Longrightarrow> f (w_db w) = Inr v"
  using assms
  by (auto simp: query_def map_err_io_def request_def statement_def
      split: list.splits pg_outcome.splits prod.splits sum.splits)

lemma get_by_height_spec:
  assumes "blocks_get_by_height (BlockHeight (int k)) w = (Inr v, w')"
  shows "v = local_block (w_db w) k" "w_db w' = w_db w"
  using query_db [OF assms [unfolded blocks_get_by_height_def]]
  by (auto simp: local_block_def split: option.splits sum.splits)

lemma get_by_height_db: "blocks_get_by_height h w = (r, w') \<Longrightarrow> w_db w' = w_db w"
  unfolding blocks_get_by_height_def by (rule query_db(1))

lemma walk_back_spec:
  assumes "walk_back x n k w = (r, w')"
  shows "w_db w' = w_db w \<and>
    (\<forall>d. r = Inr d \<longrightarrow> (\<exists>j\<le>k. d = BlockHeight (int j) \<and>
       (\<forall>i. j \<le> i \<longrightarrow> i < k \<longrightarrow> differs x n (w_db w) i) \<and>
       (j = 0 \<or> \<not> differs x n (w_db w) (j - 1))))"
  using assms
proof (induction k arbitrary: w)
  case 0
  then show ?case by (auto simp: ret_io_def)
next
  case (Suc k)
  obtain rl w1 where l: "blocks_get_by_height (BlockHeight (int k)) w = (rl, w1)" by fastforce
  have db1: "w_db w1 = w_db w" by (rule get_by_height_db [OF l])
  show ?case
  proof (cases rl)
    case (Inl e)
    with Suc.prems l db1 show ?thesis
      by (auto simp: Let_def bind_io_def map_err_io_def)
  next
    case (Inr lb)
    have lb: "lb = local_block (w_db w) k"
      by (rule get_by_height_spec(1) [OF l [unfolded Inr]])
    show ?thesis
    proof (cases "block_with_txs n (BlockHeight (int k))")
      case (Inl e)
      with Suc.prems l Inr db1 show ?thesis
        by (auto simp: Let_def bind_io_def map_err_io_def lift_io_def)
    next
      case rb: (Inr rb)
      have run: "(case (lb, rb) of
          (Some l, Some r) \<Rightarrow>
            if remote_hash x r = b_hash l then ret_io (BlockHeight (int (Suc k))) else walk_back x n k
        | (None, _) \<Rightarrow> ret_io (BlockHeight (int (Suc k)))
        | (_, None) \<Rightarrow> ret_io (BlockHeight (int (Suc k)))) w1 = (r, w')"
        using Suc.prems l Inr rb
        by (simp add: Let_def bind_io_def map_err_io_def lift_io_def cong: option.case_cong if_cong)
      show ?thesis
      proof (cases "differs x n (w_db w) k")
        case True
        then obtain l' r' where "lb = Some l'" "rb = Some r'" "remote_hash x r' \<noteq> b_hash l'"
          using lb rb by (auto simp: differs_def)
        with run have "walk_back x n k w1 = (r, w')" by simp
        from Suc.IH [OF this] True db1 show ?thesis
          by (auto simp: less_Suc_eq)
      next
        case False
        then have "w' = w1 \<and> r = Inr (BlockHeight (int (Suc k)))"
          using run lb rb
          by (auto simp: differs_def ret_io_def split: option.splits if_splits)
        with False db1 show ?thesis by auto
      qed
    qed
  qed
qed

section \<open>The rewind\<close>

definition rewind_rows :: "block_height \<Rightarrow> (db, sync_error, unit) io" where
  "rewind_rows h =
     bind_io (map_err_io DbErr (map_err_io DbSqlx
       (delete_blocks_where (\<lambda>r. height_val h \<le> br_height r)))) (\<lambda>_.
       map_err_io SqlxErr (write_cursor_stmt (BlockHeight (saturating_sub_i64 (height_val h) 1)) 0))"

lemma rewind_body_implements: "implements (rewind_body h) (rewind_rows h)"
  unfolding rewind_body_def rewind_rows_def delete_from_def by (intro implements_intros)

lemma rewind_rows_effect:
  assumes "rewind_rows (BlockHeight (int j)) d = (Inr (), d')" "cursor_ok d" "in_i64 (int j)"
  shows "heights d' = {h \<in> heights d. h < int j}" "tbl_transfers d' = tbl_transfers d"
    "cursor_pos d' = max (cursor_pos d) (int j - 1)" "cursor_ok d'"
    "\<And>t. t \<in> set (tbl_txs d') \<Longrightarrow> t \<in> set (tbl_txs d) \<and> (fk_ok d \<longrightarrow> tr_block_height t < int j)"
    "\<And>l. l \<in> set (tbl_logs d') \<Longrightarrow> l \<in> set (tbl_logs d) \<and> (fk_ok d \<longrightarrow> lr_block_height l < int j)"
proof -
  let ?p = "\<lambda>r. int j \<le> br_height r"
  obtain m d1 where del: "delete_blocks_where ?p d = (Inr m, d1)"
    and cur: "write_cursor_stmt (BlockHeight (saturating_sub_i64 (int j) 1)) 0 d1 = (Inr (), d')"
    using assms(1) by (auto simp: rewind_rows_def bind_io_Inr)
  have sub: "saturating_sub_i64 (int j) 1 = int j - 1"
    using assms(3) by (intro saturating_sub_i64_exact) (auto simp: rust_arith)
  have d1: "tbl_blocks d1 = filter (\<lambda>b. \<not> ?p b) (tbl_blocks d)" "tbl_meta d1 = tbl_meta d"
    "tbl_transfers d1 = tbl_transfers d" "set (tbl_txs d1) \<subseteq> set (tbl_txs d)"
    "set (tbl_logs d1) \<subseteq> set (tbl_logs d)"
    and txs: "\<And>t. t \<in> set (tbl_txs d1) \<Longrightarrow> tr_block_height t \<notin> br_height ` set (filter ?p (tbl_blocks d))"
    and logs: "\<And>l. l \<in> set (tbl_logs d1) \<Longrightarrow> lr_block_height l \<notin> br_height ` set (filter ?p (tbl_blocks d))"
    using del by (auto simp: delete_blocks_where_def Let_def)
  note meta = cursor_depends_on_meta [OF d1(2)]
  have h: "in_i64 (height_val (BlockHeight (int j - 1)))" "- 1 \<le> height_val (BlockHeight (int j - 1))"
    using assms(3) by (auto simp: rust_arith)
  note c = write_cursor_Inr [OF cur [unfolded sub] _ h]
  have ok: "cursor_ok d1" using assms(2) meta by simp
  show "cursor_pos d' = max (cursor_pos d) (int j - 1)" "cursor_ok d'"
    using c(2,3) ok meta by simp_all
  have same: "tbl_blocks d' = tbl_blocks d1" "tbl_transfers d' = tbl_transfers d1"
    "tbl_txs d' = tbl_txs d1" "tbl_logs d' = tbl_logs d1"
    using arg_cong [OF c(1) [OF ok], of tbl_blocks] arg_cong [OF c(1) [OF ok], of tbl_transfers]
      arg_cong [OF c(1) [OF ok], of tbl_txs] arg_cong [OF c(1) [OF ok], of tbl_logs] by simp_all
  show "heights d' = {h \<in> heights d. h < int j}" "tbl_transfers d' = tbl_transfers d"
    using same d1 by (auto simp: heights_def)
  have below: "g < int j" if "g \<in> br_height ` set (tbl_blocks d)"
      "g \<notin> br_height ` set (filter ?p (tbl_blocks d))" for g
    using that by force
  show "t \<in> set (tbl_txs d) \<and> (fk_ok d \<longrightarrow> tr_block_height t < int j)" if "t \<in> set (tbl_txs d')" for t
    using that same d1 txs below by (auto simp: fk_ok_def has_block_iff)
  show "l \<in> set (tbl_logs d) \<and> (fk_ok d \<longrightarrow> lr_block_height l < int j)" if "l \<in> set (tbl_logs d')" for l
    using that same d1 logs below by (auto simp: fk_ok_def has_block_iff)
qed

lemma rewind_wf [keeps_intros]: "keeps (\<lambda>w. db_wf (w_db w)) (rewind_to h)"
  unfolding rewind_to_def
  by (intro wf.keeps_transaction) (unfold rewind_body_def, intro keeps_intros)

text \<open>How a pass of the checker can end.\<close>

lemma check_once_cases:
  assumes "check_once x n cfg cursor w = (Inr c, w')"
  obtains (agree) "c = cursor" "w_db w' = w_db w"
    | (rewound) j where "j \<le> probe_height cfg cursor" "c = BlockHeight (saturating_sub_i64 (int j) 1)"
        "\<And>i. j \<le> i \<Longrightarrow> i \<le> probe_height cfg cursor \<Longrightarrow> differs x n (w_db w) i"
        "j = 0 \<or> \<not> differs x n (w_db w) (j - 1)"
        "rewind_rows (BlockHeight (int j)) (w_db w) = (Inr (), w_db w')"
proof (cases "height_val cursor < 0")
  case True
  with assms show thesis by (intro agree) (simp_all add: check_once_def ret_io_def)
next
  case False
  let ?p = "probe_height cfg cursor"
  obtain lb w1 where l: "blocks_get_by_height (BlockHeight (int ?p)) w = (Inr lb, w1)"
    and run: "(case lb of None \<Rightarrow> ret_io cursor
          | Some l \<Rightarrow> bind_io (lift_io (map_err ChainErr (block_with_txs n (BlockHeight (int ?p))))) (\<lambda>remote.
          case remote of None \<Rightarrow> ret_io cursor
          | Some r \<Rightarrow>
            if remote_hash x r = b_hash l then ret_io cursor
            else bind_io (walk_back x n ?p) (\<lambda>divergence.
                 bind_io (rewind_to divergence) (\<lambda>_.
                   ret_io (BlockHeight (saturating_sub_i64 (height_val divergence) 1)))))) w1 = (Inr c, w')"
    using assms False by (auto simp: check_once_def Let_def bind_io_Inr)
  note spec = get_by_height_spec [OF l]
  show thesis
  proof (cases lb)
    case None
    with run spec show thesis by (intro agree) (simp_all add: ret_io_def)
  next
    case (Some l)
    with run obtain rb where rb: "block_with_txs n (BlockHeight (int ?p)) = Inr rb"
      and run2: "(case rb of None \<Rightarrow> ret_io cursor
          | Some r \<Rightarrow> if remote_hash x r = b_hash l then ret_io cursor
            else bind_io (walk_back x n ?p) (\<lambda>divergence.
                 bind_io (rewind_to divergence) (\<lambda>_.
                   ret_io (BlockHeight (saturating_sub_i64 (height_val divergence) 1))))) w1 = (Inr c, w')"
      by (auto simp: bind_io_Inr lift_io_def)
    show thesis
    proof (cases "differs x n (w_db w) ?p")
      case False
      with run2 rb Some spec have "c = cursor \<and> w' = w1"
        by (auto simp: differs_def ret_io_def split: option.splits if_splits)
      with spec(2) show thesis by (intro agree) auto
    next
      case True
      with rb Some spec obtain r where "rb = Some r" "remote_hash x r \<noteq> b_hash l"
        by (auto simp: differs_def)
      with run2 obtain d w2 where wb: "walk_back x n ?p w1 = (Inr d, w2)"
        and rw: "rewind_to d w2 = (Inr (), w')"
        and c: "c = BlockHeight (saturating_sub_i64 (height_val d) 1)"
        by (auto simp: bind_io_Inr ret_io_def)
      from walk_back_spec [OF wb] spec(2) obtain j where j: "j \<le> ?p" "d = BlockHeight (int j)"
        "\<forall>i. j \<le> i \<longrightarrow> i < ?p \<longrightarrow> differs x n (w_db w) i" "j = 0 \<or> \<not> differs x n (w_db w) (j - 1)"
        and db2: "w_db w2 = w_db w" by auto
      have "rewind_rows d (w_db w2) = (Inr (), w_db w')"
        using transaction_Inr_spec [OF rewind_body_implements rw [unfolded rewind_to_def]] .
      with db2 j c True show thesis
        by (intro rewound [of j]) (auto simp: le_less)
    qed
  qed
qed

end
