(* ===== verification/Samples.thy ===== *)
theory Samples
  imports Reorg "HOL-Library.Code_Target_Numeral"
begin

text \<open>
  Concrete data the theorems are applied to: a native block with a coinbase and a token transfer, the
  log of that transfer, a node that serves it, and databases in known states.
\<close>

definition addr_bytes :: "nat \<Rightarrow> u8 list" where
  "addr_bytes k = replicate 20 (of_nat k)"

definition hash_bytes :: "nat \<Rightarrow> u8 list" where
  "hash_bytes k = replicate 32 (of_nat k)"

definition transfer_topic_bytes :: "u8 list" where
  "transfer_topic_bytes = the (hex_decode_ref (drop 2 transfer_topic0))"

definition s_native :: "nat \<Rightarrow> native_block" where
  "s_native h = \<lparr>nb_index = int h, nb_hash = ''b'' @ dec_nat h, nb_previous_hash = ''b'' @ dec_nat (h - 1),
     nb_timestamp = 1000 + int h, nb_validator = ''v'', nb_round = 0, nb_state_root = None,
     nb_transactions =
       [\<lparr>nx_txid = hex_encode ext_ref (hash_bytes h), nx_from_address = ''COINBASE'', nx_to_address = Some ''aa'',
          nx_amount = 5, nx_fee = 0, nx_nonce = 0, nx_timestamp = 0, nx_chain_id = 0, nx_data = None\<rparr>]\<rparr>"

text \<open>The log of an ERC-20 transfer of 7 units from address 1 to address 2.\<close>

definition s_rpc_log :: "nat \<Rightarrow> rpc_log" where
  "s_rpc_log h = \<lparr>rl_block_number = Some (of_nat h), rl_log_index = Some 0,
     rl_transaction_hash = Some (hash_bytes h),
     rl_topics = [transfer_topic_bytes, replicate 12 0 @ addr_bytes 1, replicate 12 0 @ addr_bytes 2],
     rl_address = addr_bytes 9, rl_data = u256_to_be_bytes 7\<rparr>"

definition s_block :: "nat \<Rightarrow> block" where
  "s_block h = \<lparr>b_height = BlockHeight (int h), b_hash = ''0xb'' @ dec_nat h,
     b_parent_hash = ''0xb'' @ dec_nat (h - 1), b_timestamp = 1000 + int h, b_validator = ''0xv'',
     b_gas_used = 0, b_gas_limit = 0, b_base_fee = None, b_tx_count = 1, b_state_root = None,
     b_round = 0, b_justification_signers = []\<rparr>"

definition s_tx :: "nat \<Rightarrow> transaction" where
  "s_tx h = \<lparr>t_hash = ''0xc'' @ dec_nat h, t_block_height = BlockHeight (int h), t_tx_index = TxIndex 0,
     t_from_addr = ''0xf'', t_to_addr = Some ''0xaa'', t_value = Wei 5, t_gas_limit = 0,
     t_gas_used = None, t_gas_price = None, t_fee = Wei 0, t_nonce = 0, t_data = None, t_status = 1,
     t_contract_address = None, t_tx_type = Evm\<rparr>"

definition s_log :: "nat \<Rightarrow> log" where
  "s_log h = \<lparr>l_block_height = BlockHeight (int h), l_tx_hash = ''0xc'' @ dec_nat h,
     l_log_index = LogIndex 0, l_address = ''0xtoken'', l_topic0 = Some ''0x01'', l_topic1 = None,
     l_topic2 = None, l_topic3 = None, l_data = Some ''0x''\<rparr>"

definition s_transfer :: "nat \<Rightarrow> token_transfer" where
  "s_transfer h = \<lparr>tt_id = None, tt_block_height = BlockHeight (int h), tt_tx_hash = ''0xc'' @ dec_nat h,
     tt_log_index = LogIndex 0, tt_contract = ''0xtoken'', tt_standard = Erc20, tt_from_addr = ''0xf'',
     tt_to_addr = ''0xaa'', tt_token_id = None, tt_amount = Wei 7\<rparr>"

definition s_bundle :: "nat \<Rightarrow> block_bundle" where
  "s_bundle h = \<lparr>bb_block = s_block h, bb_txs = [s_tx h], bb_logs = [s_log h],
     bb_token_transfers = [s_transfer h]\<rparr>"

definition s_world :: "db \<Rightarrow> pg_outcome list \<Rightarrow> sync_world" where
  "s_world d net = \<lparr>w_db = d, w_net = net, ch_rows = [], ch_closed = False\<rparr>"

definition s_db :: db where
  "s_db = snd (for_io write_rows [s_bundle 0, s_bundle 1] empty_db)"

text \<open>A node that has the blocks up to its tip, with no logs, and answers at once.\<close>

definition s_node :: "nat \<Rightarrow> node" where
  "s_node tip = \<lparr>rest_block_at = (\<lambda>h k. if 0 \<le> height_val h \<and> height_val h \<le> int tip
                                    then Inr (Some (s_native (nat (height_val h)))) else Inr None),
     eth_block_number = (\<lambda>k. Inr (of_nat tip)),
     eth_get_block = (\<lambda>v. if v \<le> of_nat tip then Inr (Some (hash_bytes (unat v))) else Inr None),
     eth_get_logs = (\<lambda>f t a k. Inr []), eth_get_code = (\<lambda>a. Inr []), eth_call = (\<lambda>a d. Inr [])\<rparr>"

lemma s_world_sel [simp]:
  "w_db (s_world d net) = d" "w_net (s_world d net) = net"
  by (simp_all add: s_world_def)

lemma dec_nat_digit [simp]: "n < 10 \<Longrightarrow> dec_nat n = [digit_char n]"
  by (simp add: dec_nat.simps)

end
