(* ===== verification/Writer_Theorems.thy ===== *)
theory Writer_Theorems
  imports Samples
begin

text \<open>
  The properties of the block writer, with the lemmas only they need.
\<close>

section \<open>Foreign keys of a fetched bundle\<close>
















lemma adv_all_for_io:
  assumes "for_io (\<lambda>h. write_cursor_stmt (BlockHeight h) ts) hs d = (Inr (), d')"
    and "cursor_ok d" "\<forall>h\<in>set hs. height_ok (BlockHeight h)"
  shows "cur.adv_all ts hs d = Some d'"
  using assms
proof (induction hs arbitrary: d)
  case Nil
  then show ?case by (simp add: ret_io_def)
next
  case (Cons h hs)
  then obtain d1 where 1: "write_cursor_stmt (BlockHeight h) ts d = (Inr (), d1)"
    and 2: "for_io (\<lambda>h. write_cursor_stmt (BlockHeight h) ts) hs d1 = (Inr (), d')"
    by (auto simp: bind_io_Inr)
  have h: "in_i64 (height_val (BlockHeight h))" "- 1 \<le> height_val (BlockHeight h)"
    using Cons.prems(3) by (simp_all add: height_ok_def)
  have "cur.adv_all ts hs d1 = Some d'"
    using write_cursor_Inr(2) [OF 1 Cons.prems(2) h] Cons.prems(3) by (intro Cons.IH [OF 2]) auto
  moreover have "advance ts h d = Some d1"
    using 1 Cons.prems(2) h by (simp add: advance_def)
  ultimately show ?case by simp
qed

section \<open>Properties\<close>

text \<open>C2: At-least-once delivery of a bundle has the effect of exactly one write. However many times
  \<open>write_block\<close> is attempted on a bundle that can be written, and whatever the connection does to each
  attempt (refused begin or statement, refused commit, commit whose answer is lost), the database
  either is the one before, and then every attempt reported an error, or has the content of one
  successful write; only surrogate identities may differ.\<close>

theorem write_block_exactly_once:
  assumes "attempts x an b w rs w'"
    and "write_rows b (w_db w) = (Inr (), d)"
    and "in_i64 (height_val (b_height (bb_block b)))"
  shows "(same_content (w_db w) (w_db w') \<and> (\<forall>r\<in>set rs. \<exists>e. r = Inl e)) \<or> same_content d (w_db w')"
  using attempts_content [OF assms] .

lemma s_write_rows: "write_rows (s_bundle 1) empty_db = (Inr (), snd (write_rows (s_bundle 1) empty_db))"
proof -
  have "fst (write_rows (s_bundle 1) empty_db) = Inr ()"
    by code_simp
  then show ?thesis by (metis prod.collapse)
qed

theorem write_block_exactly_once_witness:
  "let w = s_world empty_db [Done, Done, Refused];
       w1 = snd (write_block ext_ref True (s_bundle 1) w);
       w2 = snd (write_block ext_ref True (s_bundle 1) w1)
   in (same_content empty_db (w_db w2) \<and>
       (\<forall>r\<in>{fst (write_block ext_ref True (s_bundle 1) w), fst (write_block ext_ref True (s_bundle 1) w1)}.
          \<exists>e. r = Inl e)) \<or>
      same_content (snd (write_rows (s_bundle 1) empty_db)) (w_db w2)"
proof -
  define w where "w = s_world empty_db [Done, Done, Refused]"
  define w1 where "w1 = snd (write_block ext_ref True (s_bundle 1) w)"
  define w2 where "w2 = snd (write_block ext_ref True (s_bundle 1) w1)"
  define r1 where "r1 = fst (write_block ext_ref True (s_bundle 1) w)"
  define r2 where "r2 = fst (write_block ext_ref True (s_bundle 1) w1)"
  have "attempts ext_ref True (s_bundle 1) w (([] @ [r1]) @ [r2]) w2"
    by (intro attempts.again [of _ _ _ _ _ w1] attempts.again [of _ _ _ _ _ w] attempts.none)
      (simp_all add: w1_def w2_def r1_def r2_def)
  moreover have "w_db w = empty_db" by (simp add: w_def s_world_def)
  ultimately have "(same_content empty_db (w_db w2) \<and> (\<forall>r\<in>{r1, r2}. \<exists>e. r = Inl e)) \<or>
      same_content (snd (write_rows (s_bundle 1) empty_db)) (w_db w2)"
    using write_block_exactly_once [of ext_ref True "s_bundle 1" w "([] @ [r1]) @ [r2]" w2
        "snd (write_rows (s_bundle 1) empty_db)"] s_write_rows
    by (simp add: s_bundle_def s_block_def rust_arith)
  then show ?thesis
    unfolding r1_def r2_def w2_def w1_def w_def Let_def .
qed

text \<open>C3: A block is written entirely or not at all. After \<open>write_block\<close>, whatever the connection
  did, either every table is as before and the caller has an error, or the database is the one that
  writing block, transactions, addresses, logs, transfers and cursor one after the other gives. If
  the connection has no faults and the rows are acceptable, the call succeeds.\<close>

theorem write_block_all_or_nothing:
  "((same_tables (w_db w) (w_db (snd (write_block x an b w))) \<and> (\<exists>e. fst (write_block x an b w) = Inl e)) \<or>
    write_rows b (w_db w) = (Inr (), w_db (snd (write_block x an b w)))) \<and>
   (w_net w = [] \<and> write_rows b (w_db w) = (Inr (), d) \<longrightarrow>
      fst (write_block x an b w) = Inr () \<and> w_db (snd (write_block x an b w)) = d)"
proof -
  obtain r w' where r: "write_block x an b w = (r, w')" by fastforce
  have "same_tables (w_db w) (w_db w') \<and> (\<exists>e. r = Inl e) \<or> write_rows b (w_db w) = (Inr (), w_db w')"
    using r by (cases rule: write_block_cases) auto
  moreover have "w_net w = [] \<and> write_rows b (w_db w) = (Inr (), d) \<longrightarrow> r = Inr () \<and> w_db w' = d"
    using write_block_complete [of w b d x an] r by auto
  ultimately show ?thesis by (simp add: r)
qed

theorem write_block_all_or_nothing_witness:
  "fst (write_block ext_ref True (s_bundle 1) (s_world empty_db [])) = Inr () \<and>
   w_db (snd (write_block ext_ref True (s_bundle 1) (s_world empty_db []))) =
     snd (write_rows (s_bundle 1) empty_db)"
  using write_block_all_or_nothing [of "s_world empty_db []" ext_ref True "s_bundle 1"
      "snd (write_rows (s_bundle 1) empty_db)"] s_write_rows
  by (simp add: s_world_def)







text \<open>The cursor is a register that only moves up, and the order of writes does not matter: after
  any series of cursor writes the stored value is the maximum of what was there and what was written,
  so two series that write the same heights end at the same cursor.\<close>

lemma cursor_order_irrelevant:
  assumes "for_io (\<lambda>h. write_cursor_stmt (BlockHeight h) ts) hs d = (Inr (), d1)"
    and "for_io (\<lambda>h. write_cursor_stmt (BlockHeight h) ts') hs' d = (Inr (), d2)"
    and "cursor_ok d" and "\<forall>h\<in>set hs. height_ok (BlockHeight h)" and "set hs' = set hs"
  shows "cursor_pos d1 = Max (insert (cursor_pos d) (set hs)) \<and> cursor_pos d2 = cursor_pos d1"
  using cur.adv_all_max [OF adv_all_for_io [OF assms(1,3,4)]]
    cur.adv_all_max [OF adv_all_for_io [OF assms(2,3)]] assms(4,5)
  by simp

lemma cursor_order_irrelevant_witness:
  "cursor_pos (snd (for_io (\<lambda>h. write_cursor_stmt (BlockHeight h) 0) [7, 3] empty_db)) = 7 \<and>
   cursor_pos (snd (for_io (\<lambda>h. write_cursor_stmt (BlockHeight h) 9) [3, 7] empty_db)) = 7"
proof -
  let ?r1 = "for_io (\<lambda>h. write_cursor_stmt (BlockHeight h) 0) [7, 3] empty_db"
  let ?r2 = "for_io (\<lambda>h. write_cursor_stmt (BlockHeight h) 9) [3, 7] empty_db"
  have "fst ?r1 = Inr ()" "fst ?r2 = Inr ()"
    by code_simp+
  then have r: "?r1 = (Inr (), snd ?r1)" "?r2 = (Inr (), snd ?r2)"
    by (metis prod.collapse)+
  have "cursor_ok empty_db" "cursor_pos empty_db = - 1"
    by (simp_all add: cursor_ok_def cursor_pos_def cursor_of_def meta_row_of_def empty_db_def)
  then show ?thesis
    using cursor_order_irrelevant [OF r] by (simp add: height_ok_def rust_arith insert_commute)
qed

text \<open>\<open>tx_addresses\<close> names every sender and receiver once, with the lowest block that mentions
  it, and nobody else; so the registry upsert never hits the same row twice.\<close>

lemma tx_addresses_earliest:
  "distinct (map fst (tx_addresses txs)) \<and>
   map_of (tx_addresses txs) a = (if heights_of a txs = {} then None else Some (Min (heights_of a txs)))"
  using tx_addresses_distinct_keys tx_addresses_lookup [of txs a] by (simp add: min_opt_def)

end
