(* ===== verification/Sync_Theorems.thy ===== *)
theory Sync_Theorems
  imports Samples
begin

text \<open>
  The properties of the synchronisation loops: the backfill, the writers side by side, the
  single-flight gate, the tail loop and the reorg checker, with the lemmas only they need.
\<close>

section \<open>Schema\<close>

lemma fetch_writers_wf [keeps_intros]:
  "keeps (\<lambda>w. db_wf (w_db w)) (ingest_one x n cfg an h)"
  "keeps (\<lambda>w. db_wf (w_db w)) (flush_buf x an buf c)"
  unfolding ingest_one_def flush_buf_def
  by (auto intro!: keeps_intros split: option.splits)


lemma query_wf [keeps_intros]: "keeps (\<lambda>w. db_wf (w_db w)) (query f)"
  by (auto simp: keeps_def query_db [OF prod.collapse [symmetric]])

lemma read_cursor_wf [keeps_intros]: "keeps (\<lambda>w. db_wf (w_db w)) read_cursor"
  unfolding read_cursor_def meta_get_i64_def meta_get_def Let_def
  by (auto intro!: keeps_intros split: option.splits)





section \<open>The tail loop\<close>

lemma tail_cap_mono: "t \<le> t' \<Longrightarrow> tail_cap cfg t \<le> tail_cap cfg t'"
  by (auto simp: tail_cap_def saturating_sub_i64_def less_eq_block_height_def)

lemma handle_loop_caught:
  assumes loop: "handle_loop x n cfg backoff an (tips # rest) cur g w = (Inr (), g', w')"
    and honest: "honest_node n" and inv: "sync_inv (node_gaps n) (w_db w)" and g: "inflight g"
  shows "\<not> inflight g' \<and> stash g' = None \<and> sync_inv (node_gaps n) (w_db w') \<and>
    (\<forall>t\<in>insert cur (set tips). pending (node_gaps n) (tail_cap cfg t + 1) [] (w_db w'))"
proof -
  have cap: "tail_cap cfg t \<le> i64_max" for t
    using in_i64_tail_cap [of cfg t] by (simp add: rust_arith)
  note all = handle_loop_run [OF loop honest _ inv g cap cap cap]
  obtain rw w1 where walk: "walk_to x n cfg backoff an cur w = (rw, w1)" by fastforce
  with loop have rw: "rw = Inr ()"
    by (subst (asm) handle_loop.simps) (auto simp: Let_def split: sum.splits)
  have inv1: "sync_inv (node_gaps n) (w_db w1)"
    using walk_to_run(1) [OF walk honest _ inv cap] by (simp add: run_ok_def)
  let ?g1 = "offer_all tips g"
  have busy: "inflight ?g1" using g by (rule offer_all_busy)
  have tips: "pending (node_gaps n) (tail_cap cfg t + 1) [] (w_db w')" if "t \<in> set tips" for t
  proof -
    have "offer_all tips g = sf.offers tips g"
      by (simp add: offer_all_def sf.offers_def)
    with sf.offers_busy [OF g, of tips] that obtain s where s: "stash ?g1 = Some s" "t \<le> s"
      by (auto split: option.splits)
    with loop walk rw have "handle_loop x n cfg backoff an rest s (?g1\<lparr>stash := None\<rparr>) w1 = (Inr (), g', w')"
      by (subst (asm) handle_loop.simps) (simp add: Let_def take_pending_and_release_def)
    from handle_loop_run [OF this honest _ inv1 _ cap cap cap] busy
    have "pending (node_gaps n) (tail_cap cfg s + 1) [] (w_db w')" by simp
    with tail_cap_mono [OF s(2), of cfg] show ?thesis
      by (auto simp: pending_empty)
  qed
  with all show ?thesis by (auto simp: run_ok_def)
qed

lemma handle_loop_error:
  "handle_loop x n cfg backoff an arrivals cur g w = (Inl e, g', w') \<Longrightarrow> inflight g \<Longrightarrow> inflight g'"
proof (induction x n cfg backoff an arrivals cur g w rule: handle_loop.induct)
  case (1 x n cfg backoff an arrivals cur g w)
  obtain r w1 where walk: "walk_to x n cfg backoff an cur w = (r, w1)" by fastforce
  let ?g1 = "case arrivals of [] \<Rightarrow> g | tips # x \<Rightarrow> offer_all tips g"
  have busy: "inflight ?g1"
    using "1.prems"(2) by (auto simp: offer_all_busy split: list.splits)
  obtain nxt g2 where t: "take_pending_and_release ?g1 = (nxt, g2)" by fastforce
  show ?case
  proof (cases r)
    case (Inl e')
    with walk "1.prems"(1) busy show ?thesis
      by (subst (asm) handle_loop.simps) (simp add: Let_def)
  next
    case (Inr u)
    show ?thesis
    proof (cases nxt)
      case None
      with walk Inr t "1.prems"(1) show ?thesis
        by (subst (asm) handle_loop.simps) (simp add: Let_def)
    next
      case (Some nh)
      with walk Inr t "1.prems"(1)
      have rest: "handle_loop x n cfg backoff an (tl arrivals) nh g2 w1 = (Inl e, g', w')"
        by (subst (asm) handle_loop.simps) (simp add: Let_def)
      have "inflight g2"
        using t busy Some by (auto simp: take_pending_and_release_def split: option.splits)
      from "1.IH" [OF refl walk [symmetric] refl Inr t [symmetric] Some rest this] show ?thesis .
    qed
  qed
qed

lemma offer_acquired: "offer_tip tip g = (Acquired h, g') \<Longrightarrow> inflight g'"
  by (auto simp: offer_tip_def split: if_splits)

lemma tail_loop_stuck:
  assumes "inflight g"
  shows "let (r, g', w') = tail_loop x cfg an inputs g w in w' = w \<and> inflight g'"
  using assms
proof (induction inputs arbitrary: g)
  case Nil
  then show ?case by simp
next
  case (Cons i inputs)
  then show ?case
    by (auto simp: handle_finalized_def offer_tip_def Let_def split: stream_msg.splits chain_event.splits
        option.splits prod.splits)
qed

section \<open>Running on the sample node\<close>

lemma s_node_honest: "honest_node (s_node k)"
  by (auto simp: honest_node_def s_node_def s_native_def)

lemma cursor_empty: "cursor_ok empty_db" "cursor_pos empty_db = - 1" "heights empty_db = {}"
  by (simp_all add: cursor_ok_def cursor_pos_def cursor_of_def meta_row_of_def empty_db_def heights_def)

lemma sync_inv_empty: "sync_inv gaps empty_db"
  by (simp add: sync_inv_def covered_def cursor_empty)

lemma s_backfill_8:
  "fst (run_backfill ext_ref (s_node 8) sync_config_default None True (\<lambda>_. False) (s_world empty_db [])) =
     Inr (BlockHeight 0)"
  by code_simp

lemma s_node_tip: "eth_block_number (s_node 9) k = Inr v \<Longrightarrow>
    saturating_sub_i64 (height_val (block_height_from_u64 v)) (u64_as_i64 (safe_lag sync_config_default)) \<le> 1"
  by (auto simp: s_node_def sync_config_default_def block_height_from_u64_def saturating_sub_i64_def
      u64_as_i64_def rust_arith)

lemma s_fetch_0:
  "case fetch_one ext_ref (s_node 9) backoff_default (BlockHeight 0) of
     Inr (Some b) \<Rightarrow> fst (write_rows b empty_db) = Inr () | _ \<Rightarrow> False"
  by code_simp

lemma db_wf_empty: "db_wf empty_db"
  by (simp add: db_wf_def keys_ok_def fk_ok_def empty_db_def)

lemma s_db_facts: "cursor_ok s_db" "cursor_pos s_db = 1" "heights s_db = {0, 1}" "db_wf s_db"
proof -
  have "fst (for_io write_rows [s_bundle 0, s_bundle 1] empty_db) = Inr ()"
    by code_simp
  then have "for_io write_rows [s_bundle 0, s_bundle 1] empty_db = (Inr (), s_db)"
    by (metis s_db_def prod.collapse)
  then obtain d where d: "write_rows (s_bundle 0) empty_db = (Inr (), d)" "write_rows (s_bundle 1) d = (Inr (), s_db)"
    by (auto simp: bind_io_Inr ret_io_def)
  have "height_ok (bundle_height (s_bundle 0))" "height_ok (bundle_height (s_bundle 1))"
    by code_simp+
  from write_rows_effect [OF d(2) write_rows_effect(3) [OF d(1) cursor_empty(1) this(1)] this(2)]
  show "cursor_ok s_db" by simp
  show "cursor_pos s_db = 1" "heights s_db = {0, 1}"
    by code_simp+
  have "keeps db_wf (write_rows b)" for b
    unfolding write_rows_def write_cursor_stmt_def insert_rows_def
    by (intro keeps_intros table_ops_wf)
  from keeps_run [OF this keeps_run [OF this db_wf_empty d(1)] d(2)] show "db_wf s_db" .
qed

section \<open>Properties\<close>



text \<open>C1: The backfill never puts the cursor ahead of the data. Whatever fails and wherever it is
  cancelled, afterwards every height up to the cursor is stored or is one the node has no block for,
  the cursor has not moved down, and neither the cursor nor any newly stored block is beyond the safe
  lag behind the highest tip the node reported.\<close>

theorem backfill_cursor_behind_data:
  assumes "honest_node n" and "sync_inv (node_gaps n) (w_db w)" and "0 \<le> hi" "in_i64 hi"
    and "\<And>k v. eth_block_number n k = Inr v \<Longrightarrow>
      saturating_sub_i64 (height_val (block_height_from_u64 v)) (u64_as_i64 (safe_lag cfg)) \<le> hi"
  shows "let d = w_db w; d' = w_db (snd (run_backfill x n cfg var an cancel w)) in
    sync_inv (node_gaps n) d' \<and> cursor_pos d \<le> cursor_pos d' \<and> cursor_pos d' \<le> max (cursor_pos d) hi \<and>
    heights d \<subseteq> heights d' \<and> heights d' \<subseteq> heights d \<union> {cursor_pos d + 1..hi}"
  using run_backfill_run [OF prod.collapse [symmetric] assms(1) _ assms(2,5,3,4), of _ x var an cancel]
  by (simp add: Let_def run_ok_def)

theorem backfill_cursor_behind_data_witness:
  "let d' = w_db (snd (run_backfill ext_ref (s_node 9) sync_config_default None True (\<lambda>_. False)
       (s_world empty_db [Done, Done, Done, Done, Done, Done, Refused]))) in
   sync_inv (node_gaps (s_node 9)) d' \<and> cursor_pos d' \<le> 1 \<and> heights d' \<subseteq> {0..1}"
proof -
  let ?w = "s_world empty_db [Done, Done, Done, Done, Done, Done, Refused]"
  have "sync_inv (node_gaps (s_node 9)) (w_db ?w)" "(0::int) \<le> 1" "in_i64 1"
    by (simp_all add: sync_inv_empty rust_arith)
  from backfill_cursor_behind_data [OF s_node_honest this s_node_tip,
      where x = ext_ref and var = None and an = True and cancel = "\<lambda>_. False"]
  show ?thesis by (simp add: Let_def cursor_empty)
qed

text \<open>C7: A backfill that returns has done its work. If it is not cancelled and returns a height, every
  height from genesis to the cap (the safe lag behind the reported tip, or the configured maximum if
  that is lower) is stored or has no block on the node.\<close>

theorem backfill_complete:
  assumes "run_backfill x n cfg var an cancel w = (Inr c, w')"
    and "honest_node n" and "sync_inv (node_gaps n) (w_db w)" and "\<And>i. \<not> cancel i"
  shows "\<exists>tip. retried backoff_default (block_number n) = Inr tip \<and>
    (\<forall>h. 0 \<le> h \<longrightarrow> h \<le> backfill_cap cfg tip \<longrightarrow> h \<in> heights (w_db w') \<or> node_gaps n h)"
  using run_backfill_done [OF assms(1,2) _ assms(3,4)] by blast

theorem backfill_complete_witness:
  "0 \<in> heights (w_db (snd (run_backfill ext_ref (s_node 8) sync_config_default None True (\<lambda>_. False)
     (s_world empty_db []))))"
proof -
  obtain w' where w': "run_backfill ext_ref (s_node 8) sync_config_default None True (\<lambda>_. False)
      (s_world empty_db []) = (Inr (BlockHeight 0), w')"
    by (metis s_backfill_8 prod.collapse)
  have "retried backoff_default (block_number (s_node 8)) = Inr (BlockHeight 8)"
    by code_simp
  moreover have "backfill_cap sync_config_default (BlockHeight 8) = 0"
    by code_simp
  moreover have "sync_inv (node_gaps (s_node 8)) (w_db (s_world empty_db []))"
    by (simp add: sync_inv_empty)
  ultimately have "0 \<in> heights (w_db w') \<or> node_gaps (s_node 8) 0"
    using backfill_complete [OF w' s_node_honest] by force
  moreover have "\<not> node_gaps (s_node 8) 0"
    by (simp add: node_gaps_def s_node_def)
  ultimately show ?thesis by (simp add: w')
qed

text \<open>Writers side by side. Any number of backfill and tail writers on one database, interleaved
  transaction by transaction and restarted at any point, keep the cursor behind the data: whatever
  one of them does, every height up to the cursor is stored or a gap, and the cursor never moves
  down.\<close>

lemma interleaved_writers_safe:
  assumes "sys_reach (fetch_one x n cfg) s s'" and "honest_node n"
    and "sync_inv (node_gaps n) (sys_db s)" and "\<And>p. sys_next s p = cursor_pos (sys_db s) + 1"
    and "\<And>p. sys_buf s p = []"
  shows "sync_inv (node_gaps n) (sys_db s') \<and> cursor_pos (sys_db s) \<le> cursor_pos (sys_db s')"
proof -
  have "sys_inv (node_gaps n) s"
    using assms(3-5) cursor_pos_range [OF sync_inv_cursor [OF assms(3)]]
    by (auto simp: sys_inv_def sync_inv_def covered_def pending_empty)
  from sys_reach_inv [OF assms(1) this fetch_one_ok [OF assms(2)]] show ?thesis
    by (simp add: sys_inv_def)
qed

lemma interleaved_writers_safe_witness:
  "\<exists>s'. sys_reach (fetch_one ext_ref (s_node 9) backoff_default)
          \<lparr>sys_db = empty_db, sys_next = \<lambda>_. 0, sys_buf = \<lambda>_. []\<rparr> s' \<and>
        sys_next s' 0 = 1 \<and> sys_buf s' 1 \<noteq> [] \<and> sync_inv (node_gaps (s_node 9)) (sys_db s')"
proof -
  let ?f = "fetch_one ext_ref (s_node 9) backoff_default"
  let ?s = "\<lparr>sys_db = empty_db, sys_next = \<lambda>_. 0, sys_buf = \<lambda>_. []\<rparr>"
  have "\<exists>b. ?f (BlockHeight 0) = Inr (Some b) \<and> fst (write_rows b empty_db) = Inr ()"
    using s_fetch_0 by (auto split: sum.splits option.splits)
  then obtain b d where b: "?f (BlockHeight 0) = Inr (Some b)" "write_rows b empty_db = (Inr (), d)"
    by (metis prod.collapse)
  let ?s1 = "?s\<lparr>sys_next := (sys_next ?s)(1 := 1), sys_buf := (sys_buf ?s)(1 := [b])\<rparr>"
  let ?s2 = "?s1\<lparr>sys_db := d, sys_next := (sys_next ?s1)(0 := 1)\<rparr>"
  have "sys_step ?f ?s ?s1"
    using sys_step.fetch [of ?f ?s 1 b] b(1) by (simp add: rust_arith)
  moreover have "sys_step ?f ?s1 ?s2"
    using sys_step.single [of ?s1 0 ?f b d] b by (simp add: rust_arith)
  ultimately have reach: "sys_reach ?f ?s ?s2"
    by (meson sys_reach.start sys_reach.step)
  have "sync_inv (node_gaps (s_node 9)) (sys_db ?s2)"
    using interleaved_writers_safe [OF reach s_node_honest] by (simp add: sync_inv_empty cursor_empty)
  with reach show ?thesis by (intro exI [of _ ?s2]) simp
qed

text \<open>C14: The gate excludes. However the threads interleave between the compare-exchange and the lock,
  at most one of them is between winning the gate and releasing it, the flag is set exactly then, and
  for every tip ever offered a height at least as high has been worked on, is being carried by a
  thread, or waits in the stash.\<close>

theorem gate_excludes_and_keeps_tips:
  assumes "gate_reach s"
  shows "(\<forall>p q. holds_gate (g_threads s p) \<longrightarrow> holds_gate (g_threads s q) \<longrightarrow> p = q) \<and>
    (g_inflight s \<longleftrightarrow> (\<exists>p. holds_gate (g_threads s p))) \<and>
    (\<forall>t\<in>g_offered s. \<exists>h\<ge>t. h \<in> g_served s \<or> g_stash s = Some h \<or> (\<exists>p. carries h (g_threads s p)))"
  using gate_reach_inv [OF assms] by (simp add: one_holder_def tracked_def tracks_def)

lemma gate_stranded_reach:
  "\<exists>s. gate_reach s \<and> \<not> g_inflight s \<and> g_stash s = Some (BlockHeight 2) \<and>
     (\<forall>p. g_threads s p = Idle) \<and> BlockHeight 2 \<in> g_offered s \<and> g_served s = {BlockHeight 1}"
proof -
  let ?h1 = "BlockHeight 1" and ?h2 = "BlockHeight 2"
  have "gate_reach gsys_init" by (rule gate_reach.init)
  from gate_reach.step [OF this gate_step.cas_ok [of gsys_init 0 ?h1]]
  have 1: "gate_reach \<lparr>g_inflight = True, g_stash = None, g_threads = (\<lambda>_. Idle)(0 := Won ?h1),
      g_offered = {?h1}, g_served = {}\<rparr>" (is "gate_reach ?s1")
    by (simp add: gsys_init_def)
  from gate_reach.step [OF 1 gate_step.lock_won [of ?s1 0 ?h1]]
  have 2: "gate_reach \<lparr>g_inflight = True, g_stash = None, g_threads = (\<lambda>_. Idle)(0 := Working ?h1),
      g_offered = {?h1}, g_served = {}\<rparr>" (is "gate_reach ?s2")
    by (simp add: max_stash_def)
  from gate_reach.step [OF 2 gate_step.cas_err [of ?s2 1 ?h2]]
  have 3: "gate_reach \<lparr>g_inflight = True, g_stash = None,
      g_threads = (\<lambda>_. Idle)(0 := Working ?h1, 1 := Lost ?h2), g_offered = {?h1, ?h2}, g_served = {}\<rparr>"
    (is "gate_reach ?s3")
    by (simp add: insert_commute)
  from gate_reach.step [OF 3 gate_step.release [of ?s3 0 ?h1]]
  have 4: "gate_reach \<lparr>g_inflight = False, g_stash = None, g_threads = (\<lambda>_. Idle)(1 := Lost ?h2),
      g_offered = {?h1, ?h2}, g_served = {?h1}\<rparr>" (is "gate_reach ?s4")
    by (simp add: fun_upd_idem fun_upd_twist [of "0::nat" 1])
  from gate_reach.step [OF 4 gate_step.lock_lost [of ?s4 1 ?h2]]
  have 5: "gate_reach \<lparr>g_inflight = False, g_stash = Some ?h2, g_threads = (\<lambda>_. Idle),
      g_offered = {?h1, ?h2}, g_served = {?h1}\<rparr>"
    by (simp add: max_stash_def fun_upd_idem)
  then show ?thesis by (intro exI [of _ "\<lparr>g_inflight = False, g_stash = Some ?h2, g_threads = (\<lambda>_. Idle),
      g_offered = {?h1, ?h2}, g_served = {?h1}\<rparr>"]) simp
qed

theorem gate_excludes_and_keeps_tips_witness:
  "\<exists>s. gate_reach s \<and> g_stash s = Some (BlockHeight 2) \<and>
     (\<forall>t\<in>g_offered s. \<exists>h\<ge>t. h \<in> g_served s \<or> g_stash s = Some h \<or> (\<exists>p. carries h (g_threads s p)))"
proof -
  from gate_stranded_reach obtain s where "gate_reach s" "g_stash s = Some (BlockHeight 2)" by blast
  with gate_excludes_and_keeps_tips [OF this(1)] show ?thesis by (intro exI [of _ s]) simp
qed

text \<open>A stash can be left behind. Because a losing \<open>offer\<close> takes the lock only after its
  compare-exchange, the holder can release in between: a state is reachable in which every thread is
  idle, the gate is free, and an offered tip sits in the stash unserved until somebody offers again.\<close>

lemma stash_can_be_stranded:
  "\<exists>s t. gate_reach s \<and> \<not> g_inflight s \<and> (\<forall>p. g_threads s p = Idle) \<and>
     g_stash s = Some t \<and> t \<in> g_offered s \<and> (\<forall>h\<in>g_served s. h < t)"
proof -
  from gate_stranded_reach obtain s where "gate_reach s \<and> \<not> g_inflight s \<and> g_stash s = Some (BlockHeight 2) \<and>
     (\<forall>p. g_threads s p = Idle) \<and> BlockHeight 2 \<in> g_offered s \<and> g_served s = {BlockHeight 1}" ..
  then show ?thesis
    by (intro exI [of _ s] exI [of _ "BlockHeight 2"]) (simp add: less_block_height_def)
qed

text \<open>C5: A finalized tip that is handled is caught up with. If the gate was free and
  \<open>handle_finalized\<close> returns \<open>Ok\<close>, the gate is free again with nothing stashed, the cursor is behind
  the data, and every height up to the safe lag behind the tip, and behind every tip that arrived
  during the first walk, is stored or a gap.\<close>

theorem finalized_tip_caught_up:
  assumes "handle_finalized x n cfg backoff an (tips # rest) tip g w = (Inr (), g', w')"
    and "\<not> inflight g" and "honest_node n" and "sync_inv (node_gaps n) (w_db w)"
  shows "\<not> inflight g' \<and> stash g' = None \<and> sync_inv (node_gaps n) (w_db w') \<and>
    (\<forall>t\<in>insert tip (set tips). \<forall>h. 0 \<le> h \<longrightarrow> h \<le> tail_cap cfg t \<longrightarrow> h \<in> heights (w_db w') \<or> node_gaps n h)"
proof -
  let ?cur = "max_stash (stash g) tip" and ?g = "g\<lparr>inflight := True, stash := None\<rparr>"
  have loop: "handle_loop x n cfg backoff an (tips # rest) ?cur ?g w = (Inr (), g', w')"
    using assms(1,2) by (simp add: handle_finalized_def offer_tip_def)
  note caught = handle_loop_caught [OF loop assms(3,4)]
  have "tip \<le> ?cur" by (simp add: max_stash_ge)
  with caught tail_cap_mono [OF this, of cfg] show ?thesis
    by (auto simp: pending_empty)
qed

theorem finalized_tip_caught_up_witness:
  "\<exists>g' w'. handle_finalized ext_ref (s_node 8) sync_config_default backoff_default False [[BlockHeight 7]]
       (BlockHeight 8) gate_new (s_world empty_db []) = (Inr (), g', w') \<and>
     \<not> inflight g' \<and> 0 \<in> heights (w_db w')"
proof -
  let ?r = "handle_finalized ext_ref (s_node 8) sync_config_default backoff_default False [[BlockHeight 7]]
       (BlockHeight 8) gate_new (s_world empty_db [])"
  have "case fst ?r of Inl e \<Rightarrow> False | Inr _ \<Rightarrow> True"
    by code_simp
  then obtain g' w' where r: "?r = (Inr (), g', w')"
    by (cases ?r) (auto split: sum.splits)
  have "\<not> inflight gate_new" "sync_inv (node_gaps (s_node 8)) (w_db (s_world empty_db []))"
    by (simp_all add: gate_new_def sync_inv_empty)
  note caught = finalized_tip_caught_up [OF r this(1) s_node_honest this(2)]
  have "tail_cap sync_config_default (BlockHeight 8) = 0"
    by code_simp
  moreover have "\<not> node_gaps (s_node 8) 0"
    by (simp add: node_gaps_def s_node_def)
  ultimately have "\<not> inflight g' \<and> 0 \<in> heights (w_db w')"
    using caught by force
  with r show ?thesis by blast
qed

text \<open>C6: An error in the tail stops it for good. When ingestion fails, \<open>handle_finalized\<close> returns with
  the gate still taken; every later run of the tail on that gate, over any stream and any node,
  leaves the database and the connection as they are and the gate taken.\<close>

theorem failed_tail_keeps_gate:
  assumes "handle_finalized x n cfg backoff an arrivals tip g w = (Inl e, g', w')"
  shows "inflight g' \<and>
    (let (r, g'', w'') = run_tail x cfg an opened inputs g' w2 in w'' = w2 \<and> inflight g'')"
proof -
  have "inflight g'"
    using assms by (auto simp: handle_finalized_def split: prod.splits offer.splits dest: handle_loop_error
        offer_acquired)
  then show ?thesis
    using tail_loop_stuck [of g' x cfg an inputs w2]
    by (auto simp: run_tail_def split: sum.splits)
qed

theorem failed_tail_keeps_gate_witness:
  "\<exists>e g' w'. handle_finalized ext_ref (s_node 9) sync_config_default backoff_default False [] (BlockHeight 9)
       gate_new (s_world empty_db [Refused]) = (Inl e, g', w') \<and>
     w_db (snd (snd (run_tail ext_ref sync_config_default False (Inr ())
       [\<lparr>ti_cancelled = False, ti_msg = StreamEvent (BlockFinalized (Some 10)), ti_node = s_node 10,
         ti_arrivals = []\<rparr>] g' (s_world empty_db [])))) = empty_db"
proof -
  let ?r = "handle_finalized ext_ref (s_node 9) sync_config_default backoff_default False [] (BlockHeight 9)
       gate_new (s_world empty_db [Refused])"
  have "case fst ?r of Inl e \<Rightarrow> True | Inr _ \<Rightarrow> False"
    by code_simp
  then obtain e g' w' where r: "?r = (Inl e, g', w')"
    by (cases ?r) (auto split: sum.splits)
  let ?t = "run_tail ext_ref sync_config_default False (Inr ())
       [\<lparr>ti_cancelled = False, ti_msg = StreamEvent (BlockFinalized (Some 10)), ti_node = s_node 10,
         ti_arrivals = []\<rparr>] g' (s_world empty_db [])"
  obtain rt gt wt where t: "?t = (rt, gt, wt)"
    by (metis surj_pair)
  with failed_tail_keeps_gate [OF r, of "Inr ()"
      "[\<lparr>ti_cancelled = False, ti_msg = StreamEvent (BlockFinalized (Some 10)), ti_node = s_node 10,
         ti_arrivals = []\<rparr>]" "s_world empty_db []"]
  have "wt = s_world empty_db []" by simp
  with r t show ?thesis by auto
qed



text \<open>C11: A rewind loses blocks for good. The cursor row only moves up, so a successful rewind to a
  height at or below the cursor leaves the cursor where it was, and no later backfill, against any
  honest node, brings the deleted heights back; the token transfers of the deleted blocks stay.\<close>

theorem rewind_is_never_refilled:
  assumes "rewind_to (BlockHeight (int j)) w = (Inr (), w')" and "cursor_ok (w_db w)"
    and "int j - 1 \<le> cursor_pos (w_db w)" and "in_i64 (int j)" and "honest_node n"
    and "w_db w2 = w_db w'" and "int j \<le> h" "h \<le> cursor_pos (w_db w)"
  shows "cursor_pos (w_db w') = cursor_pos (w_db w) \<and> tbl_transfers (w_db w') = tbl_transfers (w_db w) \<and>
    h \<notin> heights (w_db (snd (run_backfill x n cfg var an cancel w2)))"
proof -
  note eff = rewind_rows_effect [OF transaction_Inr_spec [OF rewind_body_implements assms(1)
        [unfolded rewind_to_def]] assms(2,4)]
  have pos: "cursor_pos (w_db w') = cursor_pos (w_db w)"
    using eff(3) assms(3) by simp
  have "sync_inv (\<lambda>_. True) (w_db w2)"
    using eff(4) assms(6) by (simp add: sync_inv_def covered_def)
  from run_backfill_run [OF prod.collapse [symmetric] assms(5) _ this, of cfg i64_max x var an cancel]
  have "heights (w_db (snd (run_backfill x n cfg var an cancel w2))) \<subseteq>
      heights (w_db w') \<union> {cursor_pos (w_db w') + 1..i64_max}"
    by (simp add: run_ok_def assms(6) saturating_sub_i64_def rust_arith)
  with pos eff(1,2) assms(7,8) show ?thesis by auto
qed

theorem rewind_is_never_refilled_witness:
  "\<exists>w'. rewind_to (BlockHeight 1) (s_world s_db []) = (Inr (), w') \<and> cursor_pos (w_db w') = 1 \<and>
     1 \<notin> heights (w_db (snd (run_backfill ext_ref (s_node 9) sync_config_default None True (\<lambda>_. False) w')))"
proof -
  have "fst (rewind_to (BlockHeight (int 1)) (s_world s_db [])) = Inr ()"
    by code_simp
  then obtain w' where w': "rewind_to (BlockHeight (int 1)) (s_world s_db []) = (Inr (), w')"
    by (metis prod.collapse)
  from rewind_is_never_refilled [OF w' _ _ _ s_node_honest refl, of 1] s_db_facts
  have "cursor_pos (w_db w') = 1 \<and>
     1 \<notin> heights (w_db (snd (run_backfill ext_ref (s_node 9) sync_config_default None True (\<lambda>_. False) w')))"
    by (simp add: rust_arith)
  with w' show ?thesis by auto
qed

end
