(* ===== verification/Chain_Theorems.thy ===== *)
theory Chain_Theorems
  imports Samples
begin

text \<open>
  The properties of the chain clients (retry, delays, endpoint rotation, URL lists, REST answers)
  and of the conversions from what the chain returns to the domain types and to database rows.
\<close>

section \<open>Retry\<close>

lemma deciding_spec:
  assumes "deciding op lo hi = k" "lo \<le> hi"
  shows "lo \<le> k \<and> k \<le> hi \<and> (\<forall>j. lo \<le> j \<longrightarrow> j < k \<longrightarrow> \<not> decisive (op j)) \<and> (k < hi \<longrightarrow> decisive (op k))"
  using assms
proof (induction "hi - lo" arbitrary: lo)
  case 0
  then show ?case by (simp add: deciding_def)
next
  case (Suc n)
  then have lt: "lo < hi" by simp
  show ?case
  proof (cases "decisive (op lo)")
    case True
    with Suc.prems(1) deciding_first [OF lt, of op] lt show ?thesis by auto
  next
    case False
    with Suc.prems(1) deciding_next [OF lt, of op] have "deciding op (Suc lo) hi = k" by simp
    from Suc.hyps(1) [OF _ this] Suc.hyps(2) lt have IH: "Suc lo \<le> k \<and> k \<le> hi \<and>
        (\<forall>j. Suc lo \<le> j \<longrightarrow> j < k \<longrightarrow> \<not> decisive (op j)) \<and> (k < hi \<longrightarrow> decisive (op k))"
      by simp
    have "\<not> decisive (op j)" if "lo \<le> j" "j < k" for j
      using that False IH by (cases "j = lo") auto
    with IH show ?thesis by auto
  qed
qed

lemma not_decisive: "\<not> decisive r \<longleftrightarrow> (\<exists>e. r = Inl e \<and> is_transient e)"
  by (cases r) (auto simp: decisive_def)

lemma sum_delays: "sum_list (map (delay_after cfg) [a..<b]) \<le> (b - a) * max_delay cfg"
proof (induction b)
  case 0
  then show ?case by simp
next
  case (Suc b)
  have "delay_after cfg b \<le> max_delay cfg"
    using delay_le_ceiling ceiling_le_max_delay order_trans by blast
  with Suc show ?case by (auto simp: Suc_diff_le)
qed

text \<open>C15: \<open>retry_with_backoff\<close> returns the first decisive answer. With at least one attempt allowed it
  returns the answer of attempt \<open>k\<close>, where every earlier attempt failed transiently and \<open>k\<close> succeeded,
  failed permanently or was the last allowed; it slept exactly once after each earlier attempt, and
  in total at most \<open>k - 1\<close> times the maximal delay.\<close>

theorem retry_returns_first_decisive:
  assumes "0 < max_attempts cfg"
  shows "\<exists>k. 1 \<le> k \<and> k \<le> max_attempts cfg \<and>
    (\<forall>j. 1 \<le> j \<longrightarrow> j < k \<longrightarrow> (\<exists>e. op j = Inl e \<and> is_transient e)) \<and>
    (k = max_attempts cfg \<or> (\<exists>v. op k = Inr v) \<or> (\<exists>e. op k = Inl e \<and> \<not> is_transient e)) \<and>
    retry_with_backoff cfg op = (Some (op k), map (delay_after cfg) [1..<k]) \<and>
    sum_list (snd (retry_with_backoff cfg op)) \<le> (k - 1) * max_delay cfg"
proof -
  let ?m = "max_attempts cfg"
  define k where "k = deciding op 1 (Suc ?m)"
  note spec = deciding_spec [OF k_def [symmetric]]
  have run: "retry_with_backoff cfg op = (Some (op (min k ?m)), map (delay_after cfg) [1..<min k ?m])"
    using retry_result [OF assms, of op] by (simp add: k_def Let_def)
  have "op j = Inl e \<longrightarrow> is_transient e" "\<exists>e. op j = Inl e" if "1 \<le> j" "j < min k ?m" for j e
    using that spec not_decisive [of "op j"] by fastforce+
  moreover have "min k ?m = ?m \<or> decisive (op (min k ?m))"
    using spec by (cases "k \<le> ?m") (auto simp: min_def)
  moreover have "decisive (op (min k ?m)) \<longrightarrow>
      (\<exists>v. op (min k ?m) = Inr v) \<or> (\<exists>e. op (min k ?m) = Inl e \<and> \<not> is_transient e)"
    by (cases "op (min k ?m)") (auto simp: decisive_def)
  moreover have "1 \<le> min k ?m"
    using spec assms by simp
  ultimately show ?thesis
    using run sum_delays [of cfg 1 "min k ?m"] by (intro exI [of _ "min k ?m"]) fastforce
qed

theorem retry_returns_first_decisive_witness:
  "sum_list (snd (retry_with_backoff backoff_default
     (\<lambda>k. if k < 3 then Inl (Rpc ''down'') else Inr ()))) \<le> 5 * max_delay backoff_default"
proof -
  have "0 < max_attempts backoff_default" "max_attempts backoff_default \<le> 6"
    by (simp_all add: backoff_default_def)
  from retry_returns_first_decisive [OF this(1), of "\<lambda>k. if k < 3 then Inl (Rpc ''down'') else Inr ()"] this(2)
  show ?thesis by (auto intro: order_trans [OF _ mult_le_mono1])
qed

text \<open>Delays are bounded and the ceilings grow. Every delay is at most the ceiling of its attempt,
  the ceiling is at most \<open>max_delay\<close>, and with a positive multiplier the ceilings never decrease.\<close>

lemma delays_bounded_ceilings_grow:
  "delay_after cfg a \<le> ceiling_for_attempt cfg a \<and> ceiling_for_attempt cfg a \<le> max_delay cfg \<and>
   (0 < multiplier cfg \<and> a \<le> b \<longrightarrow> ceiling_for_attempt cfg a \<le> ceiling_for_attempt cfg b)"
  using delay_le_ceiling [of cfg a] ceiling_le_max_delay [of cfg a] ceiling_mono [of cfg a b] by blast

lemma delays_bounded_ceilings_grow_witness:
  "ceiling_for_attempt backoff_default 2 \<le> ceiling_for_attempt backoff_default 4"
  using delays_bounded_ceilings_grow [of backoff_default 2 4]
  by (simp add: backoff_default_def)

section \<open>Endpoints\<close>

lemma mset_rounds_mod:
  assumes "xs \<noteq> []"
  shows "mset (map (\<lambda>k. xs ! ((c + k) mod length xs)) [0..<m * length xs]) = repeat_mset m (mset xs)"
proof (induction m)
  case 0
  then show ?case by simp
next
  case (Suc m)
  let ?f = "\<lambda>k. xs ! ((c + k) mod length xs)" and ?L = "length xs"
  have "[0..<Suc m * ?L] = [0..<m * ?L] @ map (\<lambda>k. k + m * ?L) [0..<?L]"
    using upt_add_eq_append [of 0 "m * ?L" ?L] by (simp add: add.commute map_add_upt)
  moreover have "?f (k + m * ?L) = ?f k" for k
    by (simp add: add.assoc [symmetric])
  ultimately have "mset (map ?f [0..<Suc m * ?L]) = mset (map ?f [0..<m * ?L]) + mset (map ?f [0..<?L])"
    by (simp add: comp_def)
  with Suc mset_consecutive_mod [OF assms, of c] show ?case by simp
qed

lemma unat_plus_small:
  fixes a :: u64
  assumes "unat a + k < 2 ^ 64"
  shows "unat (a + of_nat k) = unat a + k"
  using assms by (simp add: unat_word_ariths unat_of_nat)

text \<open>Endpoint rotation is fair. As long as the 64-bit counter does not wrap, any \<open>m\<close> rounds of
  consecutive calls, starting wherever the counter stands, use each configured endpoint exactly \<open>m\<close>
  times as often as it is listed.\<close>

lemma endpoints_share_load:
  assumes "bases c \<noteq> []" and "unat (rr_cursor c) + m * length (bases c) < 2 ^ 64"
  shows "mset (fst (next_bases (m * length (bases c)) c)) = repeat_mset m (mset (bases c))"
proof -
  have "fst (next_bases (m * length (bases c)) c) =
      map (\<lambda>k. bases c ! ((unat (rr_cursor c) + k) mod length (bases c))) [0..<m * length (bases c)]"
    using assms(2) by (auto simp: next_bases_run unat_plus_small)
  with mset_rounds_mod [OF assms(1)] show ?thesis by simp
qed

lemma endpoints_share_load_witness:
  "mset (fst (next_bases 4 \<lparr>bases = [''a'', ''b''], rr_cursor = 7\<rparr>)) = {#''a'', ''a'', ''b'', ''b''#}"
proof -
  have "repeat_mset 2 {#''a'', ''b''#} = {#''a'', ''a'', ''b'', ''b''#}"
    by (simp add: numeral_2_eq_2)
  then show ?thesis
    using endpoints_share_load [of "\<lparr>bases = [''a'', ''b''], rr_cursor = 7\<rparr>" 2] by simp
qed

text \<open>URL lists. A client is built exactly when every entry that is not blank parses and there is
  one: the endpoints are then the entries, in order, trimmed (and for the REST client without their
  trailing slashes), and the counter starts at zero. No entry or a bad one is \<open>InvalidArgument\<close>,
  which is never retried.\<close>

lemma url_list_accepted:
  "(rest_client_new parse (Inr ()) raw = Inr c \<longleftrightarrow>
      bases c = filter (\<lambda>e. e \<noteq> []) (map (\<lambda>e. trim_end_slash (trim e)) (split_on (CHR '','') raw)) \<and>
      bases c \<noteq> [] \<and> (\<forall>b\<in>set (bases c). \<exists>u. parse b = Inr u) \<and> rr_cursor c = 0) \<and>
   (\<forall>e. rest_client_new parse (Inr ()) raw = Inl e \<longrightarrow> (\<exists>s. e = InvalidArgument s) \<and> \<not> is_transient e) \<and>
   (\<forall>e. chain_provider_http parse raw = Inl e \<longrightarrow> (\<exists>s. e = InvalidArgument s) \<and> \<not> is_transient e)"
proof -
  have err: "parse_bases norm what parse es = Inl e \<Longrightarrow> \<exists>s. e = InvalidArgument s" for norm what es e
    by (induction es) (auto simp: Let_def bind_result_def split: if_splits sum.splits)
  have "rest_client_new parse (Inr ()) raw = Inr c \<longleftrightarrow>
      bases c = filter (\<lambda>e. e \<noteq> []) (map (\<lambda>e. trim_end_slash (trim e)) (split_on (CHR '','') raw)) \<and>
      bases c \<noteq> [] \<and> (\<forall>b\<in>set (bases c). \<exists>u. parse b = Inr u) \<and> rr_cursor c = 0"
    unfolding rest_client_new_def bind_result_Inr parse_bases_Inr
    by (cases c) auto
  moreover have "\<exists>s. e = InvalidArgument s"
    if "rest_client_new parse (Inr ()) raw = Inl e \<or> chain_provider_http parse raw = Inl e" for e
    using that err
    by (auto simp: rest_client_new_def chain_provider_http_def bind_result_def split: sum.splits if_splits)
  moreover have "\<not> is_transient (InvalidArgument s)" for s by simp
  ultimately show ?thesis by blast
qed

lemma url_list_accepted_witness:
  "rest_client_new (\<lambda>_. Inr ()) (Inr ()) ''a/, ,b'' = Inr \<lparr>bases = [''a'', ''b''], rr_cursor = 0\<rparr>"
proof -
  have "filter (\<lambda>e. e \<noteq> []) (map (\<lambda>e. trim_end_slash (trim e)) (split_on (CHR '','') ''a/, ,b'')) = [''a'', ''b'']"
    by code_simp
  then show ?thesis
    using url_list_accepted [of "\<lambda>_. Inr ()" "''a/, ,b''" "\<lparr>bases = [''a'', ''b''], rr_cursor = 0\<rparr>"] by simp
qed



end
