(* ===== verification/Codec_Theorems.thy ===== *)
theory Codec_Theorems
  imports Samples
begin

text \<open>
  The properties of what the synchroniser reads and stores: token transfers decoded from logs, the
  bundle built from a native block, and rows read back.
\<close>

section \<open>Token transfers\<close>

lemma hex_encode_Nil: "hex_laws x \<Longrightarrow> hex_encode x [] = []"
  by (auto simp: hex_laws_def dest: spec [of _ "[]"])

lemma trim_0x_only: "trim_start_0x ''0x'' = []"
  by code_simp

text \<open>C17: An ERC-20 transfer survives the way from the chain to the indexer: the log an ERC-20 contract
  emits for a transfer of \<open>v\<close> units (the event's topic, both addresses left-padded to 32 bytes, the
  amount as a big-endian word) is converted and decoded to a transfer of exactly these addresses and
  this amount, at the position of the log.\<close>

theorem erc20_transfer_decoded:
  assumes "hex_laws x" and "be_laws x" and "hex_hash x topic = transfer_topic0"
    and "length pad1 = 12" "length src = 20" "length pad2 = 12" "length dst = 20"
    and "i32_try_from_u64 li = Some i"
  shows "\<exists>l. to_domain_log x \<lparr>rl_block_number = Some bn, rl_log_index = Some li, rl_transaction_hash = Some th,
      rl_topics = [topic, pad1 @ src, pad2 @ dst], rl_address = token, rl_data = u256_to_be_bytes v\<rparr> = Inr l \<and>
    decode_transfer x l = Some \<lparr>tt_id = None, tt_block_height = block_height_from_u64 bn,
      tt_tx_hash = hex_hash x th, tt_log_index = LogIndex i, tt_contract = hex_addr x token,
      tt_standard = Erc20, tt_from_addr = hex_addr x src, tt_to_addr = hex_addr x dst,
      tt_token_id = None, tt_amount = Wei v\<rparr>"
  using assms
  by (simp add: to_domain_log_def decode_transfer_def topic_to_address_padded
      data_to_u256_word [simplified] transfer_of_def nth_opt_def Let_def)

lemma s_topic: "hex_hash ext_ref transfer_topic_bytes = transfer_topic0"
  by code_simp

theorem erc20_transfer_decoded_witness:
  "\<exists>l. to_domain_log ext_ref (s_rpc_log 3) = Inr l \<and>
     map_option tt_amount (decode_transfer ext_ref l) = Some (Wei 7)"
proof -
  have "i32_try_from_u64 0 = Some 0"
    by code_simp
  from erc20_transfer_decoded [OF ext_ref_hex ext_ref_be s_topic _ _ _ _ this,
      of "replicate 12 0" "addr_bytes 1" "replicate 12 0" "addr_bytes 2" 3 "hash_bytes 3" "addr_bytes 9" 7]
  show ?thesis
    by (auto simp: s_rpc_log_def addr_bytes_def)
qed

text \<open>An ERC-721 transfer is decoded to its token: four topics and no data give a transfer of one
  unit of the token the fourth topic names.\<close>

lemma erc721_transfer_decoded:
  assumes "hex_laws x" and "be_laws x" and "hex_hash x topic = transfer_topic0"
    and "length pad1 = 12" "length src = 20" "length pad2 = 12" "length dst = 20"
    and "i32_try_from_u64 li = Some i"
  shows "\<exists>l. to_domain_log x \<lparr>rl_block_number = Some bn, rl_log_index = Some li, rl_transaction_hash = Some th,
      rl_topics = [topic, pad1 @ src, pad2 @ dst, u256_to_be_bytes token_id], rl_address = token,
      rl_data = []\<rparr> = Inr l \<and>
    decode_transfer x l = Some \<lparr>tt_id = None, tt_block_height = block_height_from_u64 bn,
      tt_tx_hash = hex_hash x th, tt_log_index = LogIndex i, tt_contract = hex_addr x token,
      tt_standard = Erc721, tt_from_addr = hex_addr x src, tt_to_addr = hex_addr x dst,
      tt_token_id = Some (Wei token_id), tt_amount = Wei 1\<rparr>"
  using assms
  by (simp add: to_domain_log_def decode_transfer_def topic_to_address_padded topic_to_u256_word
      data_empty_def trim_0x_only transfer_of_def nth_opt_def Let_def hex_encode_Nil)

lemma erc721_transfer_decoded_witness:
  "\<exists>l. to_domain_log ext_ref ((s_rpc_log 3)\<lparr>rl_topics := rl_topics (s_rpc_log 3) @ [u256_to_be_bytes 42],
       rl_data := []\<rparr>) = Inr l \<and>
     map_option tt_token_id (decode_transfer ext_ref l) = Some (Some (Wei 42))"
proof -
  have "i32_try_from_u64 0 = Some 0"
    by code_simp
  from erc721_transfer_decoded [OF ext_ref_hex ext_ref_be s_topic _ _ _ _ this,
      of "replicate 12 0" "addr_bytes 1" "replicate 12 0" "addr_bytes 2" 3 "hash_bytes 3" 42 "addr_bytes 9"]
  show ?thesis
    by (auto simp: s_rpc_log_def addr_bytes_def)
qed



section \<open>Blocks\<close>





section \<open>Rows read back\<close>

lemma read_cursor_complete:
  assumes "cursor_of (w_db w) = Some h" and "cursor_ok (w_db w)" and "w_net w = []"
  shows "fst (read_cursor w) = Inr (Some (BlockHeight h))"
  using assms
  by (auto simp: read_cursor_def meta_get_i64_def meta_get_def query_def bind_io_def map_err_io_def
      request_no_faults statement_def ret_io_def cursor_of_def cursor_ok_def split: option.splits)

text \<open>C20: A stored block reads back as itself. After inserting a block at a height that was free, over
  a connection without faults, \<open>get_by_height\<close> returns that very block; and rows of transactions,
  logs and transfers decode to what was encoded, up to the identity the table assigns.\<close>

theorem stored_block_reads_back:
  assumes "blocks_insert_stmt b d = (Inr (), d')" and "height_val (b_height b) \<notin> heights d"
    and "w_db w = d'" and "w_net w = []"
  shows "fst (blocks_get_by_height (b_height b) w) = Inr (Some b) \<and>
    row_to_tx (tx_to_row t) = Inr t \<and> row_to_log (log_to_row l) = l \<and>
    row_to_transfer (transfer_to_row tt i) = Inr (tt\<lparr>tt_id := Some i\<rparr>)"
proof -
  have free: "br_height r \<noteq> height_val (b_height b)" if "r \<in> set (tbl_blocks d)" for r
    using assms(2) that by (force simp: heights_def)
  then have "\<not> list_ex (\<lambda>y. br_height (block_to_row b) = br_height y) (tbl_blocks d)"
    by (simp add: list_ex_iff block_to_row_def) metis
  moreover have "\<not> list_ex (\<lambda>y. br_height y = br_height (block_to_row b)) (tbl_blocks d)"
    using free by (simp add: list_ex_iff block_to_row_def)
  ultimately have rows: "tbl_blocks d' = tbl_blocks d @ [block_to_row b]"
    using assms(1)
    by (auto simp: blocks_insert_stmt_def exec_def bind_io_def ret_io_def block_row_insert_def
        insert_do_nothing_def split: prod.splits sum.splits if_splits)
  have none: "find (\<lambda>r. br_height r = height_val (b_height b)) (tbl_blocks d) = None"
    using free by (simp add: find_None_iff)
  have "find (\<lambda>r. br_height r = height_val (b_height b)) (tbl_blocks d') = Some (block_to_row b)"
    unfolding rows find_append none by (simp add: block_to_row_def)
  then show ?thesis
    using assms(3,4)
    by (simp add: blocks_get_by_height_def query_def map_err_io_def request_no_faults statement_def
        row_to_block_to_row row_to_tx_to_row row_to_log_to_row row_to_transfer_to_row)
qed

theorem stored_block_reads_back_witness:
  "fst (blocks_get_by_height (BlockHeight 1)
     (s_world (snd (blocks_insert_stmt (s_block 1) empty_db)) [])) = Inr (Some (s_block 1))"
proof -
  have "fst (blocks_insert_stmt (s_block 1) empty_db) = Inr ()"
    by code_simp
  then have "blocks_insert_stmt (s_block 1) empty_db = (Inr (), snd (blocks_insert_stmt (s_block 1) empty_db))"
    by (metis prod.collapse)
  from stored_block_reads_back [OF this, of "s_world (snd (blocks_insert_stmt (s_block 1) empty_db)) []"]
  show ?thesis by (simp add: heights_def empty_db_def s_block_def)
qed

text \<open>The cursor reads back as the highest height written. On a connection without faults, after
  \<open>write_cursor h\<close> the next \<open>read_cursor\<close> returns the larger of \<open>h\<close> and the cursor before.\<close>

lemma cursor_reads_back:
  assumes "cursor_ok (w_db w)" and "height_ok h" and "w_net w = []"
  shows "fst (write_cursor h ts w) = Inr () \<and>
    fst (read_cursor (snd (write_cursor h ts w))) = Inr (Some (BlockHeight (max (cursor_pos (w_db w)) (height_val h))))"
proof -
  let ?m = "max (cursor_pos (w_db w)) (height_val h)"
  obtain d where d: "write_cursor_stmt h ts (w_db w) = (Inr (), d)" "cursor_of d = Some ?m" "cursor_ok d"
    using write_cursor_run [OF assms(1), of h ts] assms(2) by (auto simp: height_ok_def)
  have run: "write_cursor h ts w = (Inr (), w\<lparr>w_db := d\<rparr>)"
    using d(1) assms(3) by (simp add: write_cursor_def map_err_io_def request_no_faults statement_def)
  let ?w = "w\<lparr>w_db := d\<rparr>"
  have "fst (read_cursor ?w) = Inr (Some (BlockHeight ?m))"
    using d(2,3) assms(3) by (intro read_cursor_complete) simp_all
  with run show ?thesis by simp
qed

lemma cursor_reads_back_witness:
  "fst (read_cursor (snd (write_cursor (BlockHeight 5) 0 (s_world empty_db [])))) = Inr (Some (BlockHeight 5))"
  using cursor_reads_back [of "s_world empty_db []" "BlockHeight 5" 0]
  by (simp add: cursor_ok_def cursor_pos_def cursor_of_def meta_row_of_def empty_db_def height_ok_def rust_arith)

end
