(* ===== verification/Coinblast.thy ===== *)
theory Coinblast
  imports Tables_Laws Chain_Laws
begin

text \<open>
  \<open>crates/coinblast\<close> with \<open>crates/db/src/cb_tokens.rs\<close> and \<open>cb_trades.rs\<close>: the launchpad worker. The
  ABI coding of events and calls (the \<open>sol!\<close> macro) is the parameter \<open>abi\<close>; what the node answers is
  a \<open>node\<close>. \<open>known_curves\<close> and \<open>known_non_curves\<close> are the worker's caches; the element a full cache
  drops is chosen by the parameter \<open>pick\<close> (the iteration order of a \<open>HashSet\<close>).
\<close>

section \<open>Rows and statements\<close>

datatype trade_kind = Buy | Sell | Graduated

fun trade_kind_as_str :: "trade_kind \<Rightarrow> string" where
  "trade_kind_as_str Buy = ''buy''"
| "trade_kind_as_str Sell = ''sell''"
| "trade_kind_as_str Graduated = ''graduated''"

record insert_cb_token =
  it_curve_address :: string
  it_token_address :: string
  it_owner_address :: string
  it_name :: string
  it_symbol :: string
  it_curve_supply :: wei
  it_graduation_threshold :: wei
  it_created_block :: i64
  it_created_tx_hash :: string

record insert_cb_trade =
  ic_curve_address :: string
  ic_token_address :: "string option"
  ic_kind :: trade_kind
  ic_trader_address :: string
  ic_srx_amount :: wei
  ic_token_amount :: wei
  ic_fee :: wei
  ic_block_number :: i64
  ic_tx_hash :: string
  ic_log_index :: i32

definition cb_token_to_row :: "insert_cb_token \<Rightarrow> cb_token_row" where
  "cb_token_to_row t =
     \<lparr>ct_curve = it_curve_address t, ct_token = it_token_address t, ct_owner = it_owner_address t,
       ct_name = it_name t, ct_symbol = it_symbol t, ct_supply = wei_encode (it_curve_supply t),
       ct_threshold = wei_encode (it_graduation_threshold t), ct_graduated = False,
       ct_created_block = it_created_block t, ct_created_tx = it_created_tx_hash t,
       ct_volume = 0, ct_trade_count = 0, ct_last_price = 0\<rparr>"

definition cb_token_fits :: "cb_token_row \<Rightarrow> bool" where
  "cb_token_fits r \<longleftrightarrow> varchar_fits 42 (ct_curve r) \<and> varchar_fits 42 (ct_token r) \<and>
     varchar_fits 42 (ct_owner r) \<and> varchar_fits 66 (ct_created_tx r)"

text \<open>A \<open>text\<close> value cannot contain the NUL character.\<close>

definition pg_text :: "string \<Rightarrow> bool" where
  "pg_text s \<longleftrightarrow> CHR 0x00 \<notin> set s"

definition cb_tokens_insert_stmt :: "insert_cb_token \<Rightarrow> (db, sqlx_error, unit) io" where
  "cb_tokens_insert_stmt t d =
     (if \<not> (pg_text (it_name t) \<and> pg_text (it_symbol t))
      then (Inl (SqlxDatabase InvalidTextRepresentation), d)
      else case insert_do_nothing cb_token_fits (\<lambda>x y. ct_curve x = ct_curve y)
                  (\<lambda>x y. ct_token x = ct_token y) (\<lambda>_. True) (cb_token_to_row t) (tbl_cb_tokens d) of
        Inl e \<Rightarrow> (Inl (SqlxDatabase e), d)
      | Inr (rows, ins) \<Rightarrow> (Inr (), d\<lparr>tbl_cb_tokens := rows\<rparr>))"

definition cb_tokens_insert :: "insert_cb_token \<Rightarrow> ('z world_scheme, db_error, unit) io" where
  "cb_tokens_insert t = map_err_io DbSqlx (request (cb_tokens_insert_stmt t))"

definition bump_row :: "wei \<Rightarrow> wei \<Rightarrow> cb_token_row \<Rightarrow> cb_token_row" where
  "bump_row srx price r = r\<lparr>ct_volume := ct_volume r + wei_encode srx,
     ct_trade_count := ct_trade_count r + 1, ct_last_price := wei_encode price\<rparr>"

definition bump_trade_aggregate_stmt :: "string \<Rightarrow> wei \<Rightarrow> wei \<Rightarrow> (db, sqlx_error, unit) io" where
  "bump_trade_aggregate_stmt curve srx price d =
     (if list_ex (\<lambda>r. ct_curve r = curve \<and>
           \<not> (numeric_fits (ct_volume r + wei_encode srx) \<and> ct_trade_count r < i32_max)) (tbl_cb_tokens d)
      then (Inl (SqlxDatabase NumericOutOfRange), d)
      else (Inr (), d\<lparr>tbl_cb_tokens :=
              map (\<lambda>r. if ct_curve r = curve then bump_row srx price r else r) (tbl_cb_tokens d)\<rparr>))"

definition bump_trade_aggregate :: "string \<Rightarrow> wei \<Rightarrow> wei \<Rightarrow> ('z world_scheme, db_error, unit) io" where
  "bump_trade_aggregate curve srx price =
     map_err_io DbSqlx (request (bump_trade_aggregate_stmt curve srx price))"

definition mark_graduated_stmt :: "string \<Rightarrow> (db, sqlx_error, unit) io" where
  "mark_graduated_stmt curve d =
     (Inr (), d\<lparr>tbl_cb_tokens :=
        map (\<lambda>r. if ct_curve r = curve then r\<lparr>ct_graduated := True\<rparr> else r) (tbl_cb_tokens d)\<rparr>)"

definition mark_graduated :: "string \<Rightarrow> ('z world_scheme, db_error, unit) io" where
  "mark_graduated curve = map_err_io DbSqlx (request (mark_graduated_stmt curve))"

definition known_curve_addresses :: "('z world_scheme, db_error, string list) io" where
  "known_curve_addresses =
     map_err_io DbSqlx (request (\<lambda>d. (Inr (map ct_curve (tbl_cb_tokens d)), d)))"

definition cb_trade_to_row :: "insert_cb_trade \<Rightarrow> i64 \<Rightarrow> cb_trade_row" where
  "cb_trade_to_row t i =
     \<lparr>cr_id = i, cr_curve = ic_curve_address t, cr_token = ic_token_address t,
       cr_type = trade_kind_as_str (ic_kind t), cr_trader = ic_trader_address t,
       cr_srx = wei_encode (ic_srx_amount t), cr_tokens = wei_encode (ic_token_amount t),
       cr_fee = wei_encode (ic_fee t), cr_block = ic_block_number t, cr_tx_hash = ic_tx_hash t,
       cr_log_index = ic_log_index t\<rparr>"

definition cb_trade_fits :: "cb_trade_row \<Rightarrow> bool" where
  "cb_trade_fits r \<longleftrightarrow> varchar_fits 42 (cr_curve r) \<and> opt_fits 42 (cr_token r) \<and>
     varchar_fits 12 (cr_type r) \<and> varchar_fits 42 (cr_trader r) \<and> varchar_fits 66 (cr_tx_hash r)"

definition cb_trades_insert_stmt :: "insert_cb_trade \<Rightarrow> (db, sqlx_error, bool) io" where
  "cb_trades_insert_stmt t d =
     (let i = Suc (trades_seq d); d1 = d\<lparr>trades_seq := i\<rparr> in
      case insert_do_nothing cb_trade_fits (\<lambda>x y. cb_trade_key x = cb_trade_key y) (\<lambda>_ _. False)
             (\<lambda>_. True) (cb_trade_to_row t (int i)) (tbl_cb_trades d) of
        Inl e \<Rightarrow> (Inl (SqlxDatabase e), d1)
      | Inr (rows, ins) \<Rightarrow> (Inr ins, d1\<lparr>tbl_cb_trades := rows\<rparr>))"

definition cb_trades_insert :: "insert_cb_trade \<Rightarrow> ('z world_scheme, db_error, bool) io" where
  "cb_trades_insert t = map_err_io DbSqlx (request (cb_trades_insert_stmt t))"

section \<open>Events\<close>

datatype network = Mainnet | Testnet

fun coinblast_deploy_block :: "network \<Rightarrow> u64" where
  "coinblast_deploy_block Mainnet = 1178667"
| "coinblast_deploy_block Testnet = 1637883"

record curve_created =
  ev_curve :: "u8 list"
  ev_token :: "u8 list"
  ev_owner :: "u8 list"
  ev_name :: string
  ev_symbol :: string
  ev_curve_supply :: u256
  ev_graduation_srx_threshold :: u256

record buy_event =
  ev_buyer :: "u8 list"
  ev_srx_in :: u256
  ev_buy_fee :: u256
  ev_tokens_out :: u256

record sell_event =
  ev_seller :: "u8 list"
  ev_tokens_in :: u256
  ev_sell_fee :: u256
  ev_srx_out :: u256

record graduated_event =
  ev_pair :: "u8 list"
  ev_srx_liquidity :: u256
  ev_token_liquidity :: u256
  ev_lp_burned :: u256

record abi =
  topic_curve_created :: "u8 list"
  topic_buy :: "u8 list"
  topic_sell :: "u8 list"
  topic_graduated :: "u8 list"
  decode_curve_created :: "u8 list list \<Rightarrow> u8 list \<Rightarrow> string + curve_created"
  decode_buy :: "u8 list list \<Rightarrow> u8 list \<Rightarrow> string + buy_event"
  decode_sell :: "u8 list list \<Rightarrow> u8 list \<Rightarrow> string + sell_event"
  decode_graduated :: "u8 list list \<Rightarrow> u8 list \<Rightarrow> string + graduated_event"
  call_data_token :: "u8 list"
  call_data_curve_supply :: "u8 list"
  call_data_threshold :: "u8 list"
  call_data_name :: "u8 list"
  call_data_symbol :: "u8 list"
  decode_address_return :: "u8 list \<Rightarrow> string + u8 list"
  decode_string_return :: "u8 list \<Rightarrow> string + string"

section \<open>Handlers\<close>

datatype cb_error =
    CbChain chain_error
  | CbDb db_error
  | CbSqlx sqlx_error
  | CbDecode string
  | CbInvalid string
  | CbPanicked

definition cb_hex_addr :: "ext \<Rightarrow> u8 list \<Rightarrow> string" where
  "cb_hex_addr x a = ''0x'' @ hex_encode x a"

definition decode_log :: "(u8 list list \<Rightarrow> u8 list \<Rightarrow> string + 'ev) \<Rightarrow> rpc_log \<Rightarrow> cb_error + 'ev" where
  "decode_log dec l = map_err CbDecode (dec (rl_topics l) (rl_data l))"

definition require_block_number :: "rpc_log \<Rightarrow> cb_error + i64" where
  "require_block_number l =
     bind_result (ok_or (CbInvalid ''log.block_number missing'') (rl_block_number l)) (\<lambda>n.
       ok_or (CbInvalid (''block_number '' @ dec_nat (unat n) @ '' > i64::MAX'')) (i64_try_from_u64 n))"

definition require_log_index :: "rpc_log \<Rightarrow> cb_error + i32" where
  "require_log_index l =
     bind_result (ok_or (CbInvalid ''log.log_index missing'') (rl_log_index l)) (\<lambda>n.
       ok_or (CbInvalid (''log_index '' @ dec_nat (unat n) @ '' > i32::MAX'')) (i32_try_from_u64 n))"

definition require_tx_hash :: "ext \<Rightarrow> rpc_log \<Rightarrow> cb_error + string" where
  "require_tx_hash x l =
     ok_or (CbInvalid ''log.transaction_hash missing'')
       (map_option (\<lambda>h. ''0x'' @ hex_encode x h) (rl_transaction_hash l))"

definition require_emitter :: "ext \<Rightarrow> rpc_log \<Rightarrow> cb_error + string" where
  "require_emitter x l = Inr (cb_hex_addr x (rl_address l))"

definition price_per_token :: "wei \<Rightarrow> wei \<Rightarrow> wei" where
  "price_per_token srx tokens =
     (if wei_val tokens = 0 then wei_zero else Wei (wei_val srx div wei_val tokens))"

definition write_trade :: "insert_cb_trade \<Rightarrow> wei \<Rightarrow> wei \<Rightarrow> bool \<Rightarrow> ('z world_scheme, cb_error, bool) io" where
  "write_trade row srx_amount last_price bump =
     transaction CbSqlx
       (bind_io (map_err_io CbDb (cb_trades_insert row)) (\<lambda>inserted.
        bind_io (if inserted \<and> bump
                 then map_err_io CbDb (bump_trade_aggregate (ic_curve_address row) srx_amount last_price)
                 else ret_io ()) (\<lambda>_.
          ret_io inserted)))"

definition apply_curve_created :: "ext \<Rightarrow> abi \<Rightarrow> rpc_log \<Rightarrow> ('z world_scheme, cb_error, unit) io" where
  "apply_curve_created x a l =
     bind_io (lift_io (require_block_number l)) (\<lambda>block_no.
     bind_io (lift_io (require_tx_hash x l)) (\<lambda>tx_hash.
     bind_io (lift_io (decode_log (decode_curve_created a) l)) (\<lambda>event.
       map_err_io CbDb (cb_tokens_insert
         \<lparr>it_curve_address = cb_hex_addr x (ev_curve event),
           it_token_address = cb_hex_addr x (ev_token event),
           it_owner_address = cb_hex_addr x (ev_owner event),
           it_name = ev_name event, it_symbol = ev_symbol event,
           it_curve_supply = Wei (ev_curve_supply event),
           it_graduation_threshold = Wei (ev_graduation_srx_threshold event),
           it_created_block = block_no, it_created_tx_hash = tx_hash\<rparr>))))"

text \<open>What \<open>apply_buy\<close>, \<open>apply_sell\<close> and \<open>apply_graduated\<close> read from a log before they decode it.\<close>

definition trade_position :: "ext \<Rightarrow> rpc_log \<Rightarrow> cb_error + i64 \<times> i32 \<times> string \<times> string" where
  "trade_position x l =
     bind_result (require_block_number l) (\<lambda>block_no.
     bind_result (require_log_index l) (\<lambda>log_index.
     bind_result (require_tx_hash x l) (\<lambda>tx_hash.
     bind_result (require_emitter x l) (\<lambda>curve.
       Inr (block_no, log_index, tx_hash, curve)))))"

definition buy_row :: "ext \<Rightarrow> abi \<Rightarrow> rpc_log \<Rightarrow> cb_error + insert_cb_trade" where
  "buy_row x a l =
     bind_result (trade_position x l) (\<lambda>(block_no, log_index, tx_hash, curve).
     bind_result (decode_log (decode_buy a) l) (\<lambda>event.
       Inr \<lparr>ic_curve_address = curve, ic_token_address = None, ic_kind = Buy,
         ic_trader_address = cb_hex_addr x (ev_buyer event), ic_srx_amount = Wei (ev_srx_in event),
         ic_token_amount = Wei (ev_tokens_out event), ic_fee = Wei (ev_buy_fee event),
         ic_block_number = block_no, ic_tx_hash = tx_hash, ic_log_index = log_index\<rparr>))"

definition sell_row :: "ext \<Rightarrow> abi \<Rightarrow> rpc_log \<Rightarrow> cb_error + insert_cb_trade" where
  "sell_row x a l =
     bind_result (trade_position x l) (\<lambda>(block_no, log_index, tx_hash, curve).
     bind_result (decode_log (decode_sell a) l) (\<lambda>event.
       Inr \<lparr>ic_curve_address = curve, ic_token_address = None, ic_kind = Sell,
         ic_trader_address = cb_hex_addr x (ev_seller event), ic_srx_amount = Wei (ev_srx_out event),
         ic_token_amount = Wei (ev_tokens_in event), ic_fee = Wei (ev_sell_fee event),
         ic_block_number = block_no, ic_tx_hash = tx_hash, ic_log_index = log_index\<rparr>))"

definition graduated_row :: "ext \<Rightarrow> abi \<Rightarrow> rpc_log \<Rightarrow> cb_error + insert_cb_trade" where
  "graduated_row x a l =
     bind_result (trade_position x l) (\<lambda>(block_no, log_index, tx_hash, curve).
     bind_result (decode_log (decode_graduated a) l) (\<lambda>event.
       Inr \<lparr>ic_curve_address = curve, ic_token_address = None, ic_kind = Graduated,
         ic_trader_address = cb_hex_addr x (ev_pair event), ic_srx_amount = Wei (ev_srx_liquidity event),
         ic_token_amount = Wei (ev_token_liquidity event), ic_fee = wei_zero,
         ic_block_number = block_no, ic_tx_hash = tx_hash, ic_log_index = log_index\<rparr>))"

definition swap_trade :: "insert_cb_trade \<Rightarrow> ('z world_scheme, cb_error, bool) io" where
  "swap_trade row =
     write_trade row (ic_srx_amount row) (price_per_token (ic_srx_amount row) (ic_token_amount row)) True"

definition apply_buy :: "ext \<Rightarrow> abi \<Rightarrow> rpc_log \<Rightarrow> ('z world_scheme, cb_error, bool) io" where
  "apply_buy x a l = bind_io (lift_io (buy_row x a l)) swap_trade"

definition apply_sell :: "ext \<Rightarrow> abi \<Rightarrow> rpc_log \<Rightarrow> ('z world_scheme, cb_error, bool) io" where
  "apply_sell x a l = bind_io (lift_io (sell_row x a l)) swap_trade"

definition graduate :: "insert_cb_trade \<Rightarrow> ('z world_scheme, cb_error, bool) io" where
  "graduate row =
     transaction CbSqlx
       (bind_io (map_err_io CbDb (cb_trades_insert row)) (\<lambda>inserted.
        bind_io (if inserted then map_err_io CbDb (mark_graduated (ic_curve_address row)) else ret_io ()) (\<lambda>_.
          ret_io inserted)))"

definition apply_graduated :: "ext \<Rightarrow> abi \<Rightarrow> rpc_log \<Rightarrow> ('z world_scheme, cb_error, bool) io" where
  "apply_graduated x a l = bind_io (lift_io (graduated_row x a l)) graduate"

section \<open>Orphan adoption\<close>

definition cb_call_token :: "abi \<Rightarrow> node \<Rightarrow> u8 list \<Rightarrow> cb_error + u8 list" where
  "cb_call_token a n addr =
     bind_result (map_err CbChain (chain_call n addr (call_data_token a))) (\<lambda>raw.
       map_err CbDecode (decode_address_return a raw))"

definition cb_call_uint256 :: "ext \<Rightarrow> node \<Rightarrow> u8 list \<Rightarrow> u8 list \<Rightarrow> cb_error + u256" where
  "cb_call_uint256 x n addr data =
     bind_result (map_err CbChain (chain_call n addr data)) (\<lambda>raw.
       if length raw < 32
       then Inl (CbDecode (''uint256 return too short: '' @ dec_nat (length raw) @ '' bytes''))
       else Inr (u256_from_be_slice x (take 32 raw)))"

definition cb_call_string :: "abi \<Rightarrow> node \<Rightarrow> u8 list \<Rightarrow> u8 list \<Rightarrow> cb_error + string" where
  "cb_call_string a n addr data =
     bind_result (map_err CbChain (chain_call n addr data)) (\<lambda>raw.
       map_err CbDecode (decode_string_return a raw))"

definition unwrap_or :: "'e + 'a \<Rightarrow> 'a \<Rightarrow> 'a" where
  "unwrap_or r v = (case r of Inl _ \<Rightarrow> v | Inr u \<Rightarrow> u)"

definition zero_owner :: string where
  "zero_owner = ''0x0000000000000000000000000000000000000000''"

text \<open>The probes: \<open>None\<close> when one of the three view calls fails.\<close>

definition orphan_row :: "ext \<Rightarrow> abi \<Rightarrow> node \<Rightarrow> u8 list \<Rightarrow> i64 \<Rightarrow> string \<Rightarrow> insert_cb_token option" where
  "orphan_row x a n candidate created_block created_tx_hash =
     (case cb_call_token a n candidate of
        Inl _ \<Rightarrow> None
      | Inr token \<Rightarrow>
     (case cb_call_uint256 x n candidate (call_data_curve_supply a) of
        Inl _ \<Rightarrow> None
      | Inr curve_supply \<Rightarrow>
     (case cb_call_uint256 x n candidate (call_data_threshold a) of
        Inl _ \<Rightarrow> None
      | Inr threshold \<Rightarrow>
          Some \<lparr>it_curve_address = cb_hex_addr x candidate, it_token_address = cb_hex_addr x token,
            it_owner_address = zero_owner,
            it_name = unwrap_or (cb_call_string a n token (call_data_name a)) ''Unknown'',
            it_symbol = unwrap_or (cb_call_string a n token (call_data_symbol a)) ''???'',
            it_curve_supply = Wei curve_supply, it_graduation_threshold = Wei threshold,
            it_created_block = created_block, it_created_tx_hash = created_tx_hash\<rparr>)))"

definition try_adopt :: "ext \<Rightarrow> abi \<Rightarrow> node \<Rightarrow> u8 list \<Rightarrow> i64 \<Rightarrow> string \<Rightarrow>
    ('z world_scheme, cb_error, bool) io" where
  "try_adopt x a n candidate created_block created_tx_hash =
     (case orphan_row x a n candidate created_block created_tx_hash of
        None \<Rightarrow> ret_io False
      | Some row \<Rightarrow> bind_io (map_err_io CbDb (cb_tokens_insert row)) (\<lambda>_. ret_io True))"

section \<open>Worker\<close>

record worker_config =
  wc_network :: network
  wc_chunk_size :: u64
  wc_safe_lag :: u64

definition worker_config_for_network :: "network \<Rightarrow> worker_config" where
  "worker_config_for_network net = \<lparr>wc_network = net, wc_chunk_size = 4000, wc_safe_lag = 5\<rparr>"

record cb_world = world +
  known_curves :: "string set"
  known_non_curves :: "string list"

definition known_non_curves_max :: nat where
  "known_non_curves_max = 10000"

definition cache_non_curve :: "(string list \<Rightarrow> string) \<Rightarrow> string \<Rightarrow> string list \<Rightarrow> string list" where
  "cache_non_curve pick addr s =
     (let s' = (if known_non_curves_max \<le> length s then removeAll (pick s) s else s)
      in if addr \<in> set s' then s' else s' @ [addr])"

definition cb_retried :: "backoff_config \<Rightarrow> (nat \<Rightarrow> chain_error + 'a) \<Rightarrow> cb_error + 'a" where
  "cb_retried cfg op =
     (case fst (retry_with_backoff cfg op) of
        None \<Rightarrow> Inl CbPanicked
      | Some r \<Rightarrow> map_err CbChain r)"

definition note_curve :: "string \<Rightarrow> ('z cb_world_scheme, cb_error, unit) io" where
  "note_curve c w = (Inr (), w\<lparr>known_curves := insert c (known_curves w)\<rparr>)"

definition factory_log :: "ext \<Rightarrow> abi \<Rightarrow> rpc_log \<Rightarrow> ('z cb_world_scheme, cb_error, unit) io" where
  "factory_log x a l =
     (if take 1 (rl_topics l) = [topic_curve_created a]
      then bind_io (apply_curve_created x a l) (\<lambda>_. note_curve (''0x'' @ hex_encode x (rl_address l)))
      else ret_io ())"

text \<open>Whether the emitter of a log counts as a curve: known, vetted out, or probed now.\<close>

definition vet_emitter :: "ext \<Rightarrow> abi \<Rightarrow> node \<Rightarrow> (string list \<Rightarrow> string) \<Rightarrow> rpc_log \<Rightarrow>
    ('z cb_world_scheme, cb_error, bool) io" where
  "vet_emitter x a n pick l w =
     (let emitter = ''0x'' @ hex_encode x (rl_address l) in
      if emitter \<in> known_curves w then (Inr True, w)
      else if emitter \<in> set (known_non_curves w) then (Inr False, w)
      else
        let created_block = (case rl_block_number l of None \<Rightarrow> 0 | Some b \<Rightarrow> u64_as_i64 b);
            tx_hash = (case rl_transaction_hash l of None \<Rightarrow> [] | Some h \<Rightarrow> ''0x'' @ hex_encode x h) in
        case try_adopt x a n (rl_address l) created_block tx_hash w of
          (Inr True, w') \<Rightarrow> (Inr True, w'\<lparr>known_curves := insert emitter (known_curves w')\<rparr>)
        | (_, w') \<Rightarrow>
            (Inr False, w'\<lparr>known_non_curves := cache_non_curve pick emitter (known_non_curves w')\<rparr>))"

definition discard :: "('w, 'e, 'a) io \<Rightarrow> ('w, 'e, unit) io" where
  "discard m = bind_io m (\<lambda>_. ret_io ())"

definition curve_log :: "ext \<Rightarrow> abi \<Rightarrow> node \<Rightarrow> (string list \<Rightarrow> string) \<Rightarrow> rpc_log \<Rightarrow>
    ('z cb_world_scheme, cb_error, unit) io" where
  "curve_log x a n pick l =
     (case rl_topics l of
        [] \<Rightarrow> ret_io ()
      | t0 # _ \<Rightarrow>
          if t0 \<noteq> topic_buy a \<and> t0 \<noteq> topic_sell a \<and> t0 \<noteq> topic_graduated a then ret_io ()
          else bind_io (vet_emitter x a n pick l) (\<lambda>is_curve.
            if \<not> is_curve then ret_io ()
            else if t0 = topic_buy a then discard (apply_buy x a l)
            else if t0 = topic_sell a then discard (apply_sell x a l)
            else discard (apply_graduated x a l)))"

definition run_chunk :: "ext \<Rightarrow> abi \<Rightarrow> node \<Rightarrow> (string list \<Rightarrow> string) \<Rightarrow> backoff_config \<Rightarrow> u8 list \<Rightarrow>
    block_height \<Rightarrow> block_height \<Rightarrow> ('z cb_world_scheme, cb_error, unit) io" where
  "run_chunk x a n pick backoff factory lo hi =
     bind_io (lift_io (cb_retried backoff (logs_in_range n lo hi (Some factory)))) (\<lambda>factory_logs.
     bind_io (for_io (factory_log x a) factory_logs) (\<lambda>_.
     bind_io (lift_io (cb_retried backoff (logs_in_range n lo hi None))) (\<lambda>curve_logs.
       for_io (curve_log x a n pick) curve_logs)))"

definition coinblast_cursor_key :: string where
  "coinblast_cursor_key = ''last_synced_coinblast_height''"

definition cb_read_cursor :: "network \<Rightarrow> ('z world_scheme, cb_error, i64) io" where
  "cb_read_cursor net =
     bind_io (map_err_io CbDb (meta_get_i64 coinblast_cursor_key)) (\<lambda>v.
       let floor = u64_as_i64 (coinblast_deploy_block net) - 1 in
       ret_io (max (case v of None \<Rightarrow> floor | Some c \<Rightarrow> c) floor))"

definition cb_write_cursor :: "block_height \<Rightarrow> ('z world_scheme, cb_error, unit) io" where
  "cb_write_cursor to = map_err_io CbDb (meta_set_i64 coinblast_cursor_key (height_val to) 0)"

definition hydrate_known_curves :: "('z cb_world_scheme, cb_error, unit) io" where
  "hydrate_known_curves =
     bind_io (map_err_io CbDb known_curve_addresses) (\<lambda>curves w.
       (Inr (), w\<lparr>known_curves := set (map to_lowercase curves), known_non_curves := []\<rparr>))"

datatype chunk_outcome = CaughtUp | ChunkFailed cb_error | ChunkDone block_height block_height

text \<open>One turn of the worker's loop.\<close>

definition worker_turn :: "ext \<Rightarrow> abi \<Rightarrow> (string list \<Rightarrow> string) \<Rightarrow> u8 list \<Rightarrow> worker_config \<Rightarrow> node \<Rightarrow>
    ('z cb_world_scheme, cb_error, chunk_outcome) io" where
  "worker_turn x a pick factory cfg n =
     bind_io (cb_read_cursor (wc_network cfg)) (\<lambda>cursor.
     bind_io (lift_io (cb_retried backoff_default (block_number n))) (\<lambda>tip.
       let target = saturating_sub_i64 (height_val tip) (u64_as_i64 (wc_safe_lag cfg)) in
       if target \<le> cursor then ret_io CaughtUp
       else
         let lo = BlockHeight (cursor + 1);
             to_proposed = saturating_add_i64 cursor (u64_as_i64 (wc_chunk_size cfg));
             hi = BlockHeight (min to_proposed target) in
         (\<lambda>w. case run_chunk x a n pick backoff_default factory lo hi w of
               (Inl e, w') \<Rightarrow> (Inr (ChunkFailed e), w')
             | (Inr _, w') \<Rightarrow> bind_io (cb_write_cursor hi) (\<lambda>_. ret_io (ChunkDone lo hi)) w')))"

text \<open>
  The loop: one entry of the input per turn, with whether cancellation is seen and the node as it
  answers during the turn. \<open>None\<close> is a worker that is still running.
\<close>

fun worker_loop :: "ext \<Rightarrow> abi \<Rightarrow> (string list \<Rightarrow> string) \<Rightarrow> u8 list \<Rightarrow> worker_config \<Rightarrow> (bool \<times> node) list \<Rightarrow>
    'z cb_world_scheme \<Rightarrow> (cb_error + unit) option \<times> 'z cb_world_scheme" where
  "worker_loop x a pick factory cfg [] w = (None, w)"
| "worker_loop x a pick factory cfg ((cancelled, n) # turns) w =
     (if cancelled then (Some (Inr ()), w)
      else case worker_turn x a pick factory cfg n w of
        (Inl e, w') \<Rightarrow> (Some (Inl e), w')
      | (Inr _, w') \<Rightarrow> worker_loop x a pick factory cfg turns w')"

definition run_coinblast_worker :: "ext \<Rightarrow> abi \<Rightarrow> (string list \<Rightarrow> string) \<Rightarrow> u8 list \<Rightarrow> worker_config \<Rightarrow>
    (bool \<times> node) list \<Rightarrow> 'z cb_world_scheme \<Rightarrow> (cb_error + unit) option \<times> 'z cb_world_scheme" where
  "run_coinblast_worker x a pick factory cfg turns w =
     (case hydrate_known_curves w of
        (Inl e, w') \<Rightarrow> (Some (Inl e), w')
      | (Inr _, w') \<Rightarrow> worker_loop x a pick factory cfg turns w')"

end
