(* ===== verification/Coinblast_Laws.thy ===== *)
theory Coinblast_Laws
  imports Coinblast
begin

text \<open>
  The invariant of the launchpad tables: the aggregates of a token row are those of its trades. It is
  carried from statements through handlers and chunks to the worker's loop.
\<close>

section \<open>Aggregates\<close>

definition trades_of :: "db \<Rightarrow> string \<Rightarrow> cb_trade_row list" where
  "trades_of d c = filter (\<lambda>r. cr_curve r = c) (tbl_cb_trades d)"

definition is_swap :: "cb_trade_row \<Rightarrow> bool" where
  "is_swap r \<longleftrightarrow> cr_type r \<noteq> ''graduated''"

definition aggregates_ok :: "db \<Rightarrow> cb_token_row \<Rightarrow> bool" where
  "aggregates_ok d t \<longleftrightarrow>
     (let ts = trades_of d (ct_curve t); swaps = filter is_swap ts in
      ct_trade_count t = int (length swaps) \<and> ct_volume t = sum_list (map cr_srx swaps) \<and>
      (ct_graduated t \<longleftrightarrow> (\<exists>r\<in>set ts. \<not> is_swap r)))"

definition curve_rows :: "db \<Rightarrow> string set" where
  "curve_rows d = ct_curve ` set (tbl_cb_tokens d)"

definition cb_inv :: "string \<Rightarrow> db \<Rightarrow> bool" where
  "cb_inv factory d \<longleftrightarrow> (\<forall>t\<in>set (tbl_cb_tokens d). aggregates_ok d t) \<and>
     (\<forall>r\<in>set (tbl_cb_trades d). cr_curve r \<in> curve_rows d \<or> cr_curve r = factory)"

lemma cb_inv_tables:
  assumes "tbl_cb_tokens d' = tbl_cb_tokens d" "tbl_cb_trades d' = tbl_cb_trades d"
  shows "cb_inv f d' = cb_inv f d" "curve_rows d' = curve_rows d"
  using assms by (simp_all add: cb_inv_def aggregates_ok_def trades_of_def curve_rows_def)

interpretation cb: db_invariant "cb_inv factory" for factory
  by unfold_locales (simp only: cb_inv_tables(1) [OF restore_tables(7,8)])

section \<open>Statements\<close>

lemma is_swap_kind [simp]: "is_swap (cb_trade_to_row t i) \<longleftrightarrow> ic_kind t \<noteq> Graduated"
  by (cases "ic_kind t") (simp_all add: is_swap_def cb_trade_to_row_def)

lemma cb_trade_row_sel [simp]:
  "cr_curve (cb_trade_to_row t i) = ic_curve_address t" "cr_srx (cb_trade_to_row t i) = wei_encode (ic_srx_amount t)"
  "cb_trade_key (cb_trade_to_row t i) = (ic_tx_hash t, ic_log_index t)"
  by (simp_all add: cb_trade_to_row_def cb_trade_key_def)

lemma cb_trades_insert_stmt_cases:
  assumes "cb_trades_insert_stmt t d = (Inr ins, d')"
  obtains (old) "\<not> ins" "(ic_tx_hash t, ic_log_index t) \<in> cb_trade_key ` set (tbl_cb_trades d)"
      "d' = d\<lparr>trades_seq := Suc (trades_seq d)\<rparr>"
    | (new) "ins" "(ic_tx_hash t, ic_log_index t) \<notin> cb_trade_key ` set (tbl_cb_trades d)"
      "d' = d\<lparr>trades_seq := Suc (trades_seq d),
              tbl_cb_trades := tbl_cb_trades d @ [cb_trade_to_row t (int (Suc (trades_seq d)))]\<rparr>"
proof -
  let ?r = "cb_trade_to_row t (int (Suc (trades_seq d)))"
  have key: "list_ex (\<lambda>y. cb_trade_key ?r = cb_trade_key y) (tbl_cb_trades d) \<longleftrightarrow>
      (ic_tx_hash t, ic_log_index t) \<in> cb_trade_key ` set (tbl_cb_trades d)"
    by (auto simp: list_ex_iff)
  from assms obtain rows where
    "insert_do_nothing cb_trade_fits (\<lambda>x y. cb_trade_key x = cb_trade_key y) (\<lambda>_ _. False)
       (\<lambda>_. True) ?r (tbl_cb_trades d) = Inr (rows, ins)"
    and d': "d' = d\<lparr>trades_seq := Suc (trades_seq d), tbl_cb_trades := rows\<rparr>"
    by (auto simp: cb_trades_insert_stmt_def Let_def split: sum.splits prod.splits)
  then show thesis
    using key that by (auto simp: insert_do_nothing_Inr split: if_splits)
qed

lemma cb_tokens_insert_stmt_cases:
  assumes "cb_tokens_insert_stmt t d = (r, d')"
  obtains (same) "d' = d" "r = Inr () \<Longrightarrow> it_curve_address t \<in> curve_rows d"
    | (new) "r = Inr ()" "it_curve_address t \<notin> curve_rows d"
      "d' = d\<lparr>tbl_cb_tokens := tbl_cb_tokens d @ [cb_token_to_row t]\<rparr>"
proof -
  have key: "list_ex (\<lambda>y. ct_curve (cb_token_to_row t) = ct_curve y) (tbl_cb_tokens d) \<longleftrightarrow>
      it_curve_address t \<in> curve_rows d"
    by (auto simp: list_ex_iff curve_rows_def cb_token_to_row_def)
  consider (e) e where "insert_do_nothing cb_token_fits (\<lambda>x y. ct_curve x = ct_curve y)
      (\<lambda>x y. ct_token x = ct_token y) (\<lambda>_. True) (cb_token_to_row t) (tbl_cb_tokens d) = Inl e"
    | (ok) rows ins where "insert_do_nothing cb_token_fits (\<lambda>x y. ct_curve x = ct_curve y)
      (\<lambda>x y. ct_token x = ct_token y) (\<lambda>_. True) (cb_token_to_row t) (tbl_cb_tokens d) = Inr (rows, ins)"
    by (metis old.sum.exhaust surj_pair)
  then show thesis
  proof cases
    case e
    with assms show thesis
      by (intro same) (auto simp: cb_tokens_insert_stmt_def split: if_splits)
  next
    case (ok rows ins)
    note spec = ok [unfolded insert_do_nothing_Inr key]
    show thesis
    proof (cases "it_curve_address t \<in> curve_rows d \<or> r \<noteq> Inr ()")
      case True
      with spec assms ok show thesis
        by (intro same) (auto simp: cb_tokens_insert_stmt_def split: if_splits)
    next
      case False
      with spec assms ok show thesis
        by (intro new) (auto simp: cb_tokens_insert_stmt_def split: if_splits)
    qed
  qed
qed

lemma cb_tokens_insert_inv:
  assumes "cb_tokens_insert_stmt t d = (r, d')" "cb_inv f d" "it_curve_address t \<noteq> f"
  shows "cb_inv f d'" "curve_rows d \<subseteq> curve_rows d'" "r = Inr () \<Longrightarrow> it_curve_address t \<in> curve_rows d'"
proof -
  from assms(1) have "cb_inv f d' \<and> curve_rows d \<subseteq> curve_rows d' \<and>
      (r = Inr () \<longrightarrow> it_curve_address t \<in> curve_rows d')"
  proof (cases rule: cb_tokens_insert_stmt_cases)
    case same
    with assms(2) show ?thesis by simp
  next
    case new
    have tr: "trades_of d' c = trades_of d c" for c
      using new by (simp add: trades_of_def)
    have none: "trades_of d (it_curve_address t) = []"
      using assms(2,3) new(2) by (auto simp: cb_inv_def trades_of_def filter_empty_conv)
    have rows: "curve_rows d' = insert (it_curve_address t) (curve_rows d)"
      using new(3) by (simp add: curve_rows_def cb_token_to_row_def)
    have "aggregates_ok d' (cb_token_to_row t)"
      by (simp add: aggregates_ok_def tr none cb_token_to_row_def Let_def)
    moreover have "aggregates_ok d' u" if "u \<in> set (tbl_cb_tokens d)" for u
      using that assms(2) by (simp add: cb_inv_def aggregates_ok_def tr)
    ultimately have "cb_inv f d'"
      using assms(2) new(3) rows by (auto simp: cb_inv_def)
    with rows show ?thesis by blast
  qed
  then show "cb_inv f d'" "curve_rows d \<subseteq> curve_rows d'"
    "r = Inr () \<Longrightarrow> it_curve_address t \<in> curve_rows d'" by blast+
qed

section \<open>Trades\<close>

text \<open>The database programs the two transactions run.\<close>

definition trade_rows :: "insert_cb_trade \<Rightarrow> (db, cb_error, unit) io \<Rightarrow> (db, cb_error, bool) io" where
  "trade_rows row upd =
     bind_io (map_err_io CbDb (map_err_io DbSqlx (cb_trades_insert_stmt row))) (\<lambda>inserted.
     bind_io (if inserted then upd else ret_io ()) (\<lambda>_. ret_io inserted))"

definition bump_upd :: "insert_cb_trade \<Rightarrow> (db, cb_error, unit) io" where
  "bump_upd row = map_err_io CbDb (map_err_io DbSqlx (bump_trade_aggregate_stmt (ic_curve_address row)
     (ic_srx_amount row) (price_per_token (ic_srx_amount row) (ic_token_amount row))))"

definition graduate_upd :: "insert_cb_trade \<Rightarrow> (db, cb_error, unit) io" where
  "graduate_upd row = map_err_io CbDb (map_err_io DbSqlx (mark_graduated_stmt (ic_curve_address row)))"

lemma implements_if [implements_intros]:
  "(c \<Longrightarrow> implements m a) \<Longrightarrow> (\<not> c \<Longrightarrow> implements m' a') \<Longrightarrow>
     implements (if c then m else m') (if c then a else a')"
  by simp

definition swap_body :: "insert_cb_trade \<Rightarrow> ('z world_scheme, cb_error, bool) io" where
  "swap_body row =
     bind_io (map_err_io CbDb (cb_trades_insert row)) (\<lambda>inserted.
     bind_io (if inserted
              then map_err_io CbDb (bump_trade_aggregate (ic_curve_address row) (ic_srx_amount row)
                     (price_per_token (ic_srx_amount row) (ic_token_amount row)))
              else ret_io ()) (\<lambda>_.
       ret_io inserted))"

definition graduate_body :: "insert_cb_trade \<Rightarrow> ('z world_scheme, cb_error, bool) io" where
  "graduate_body row =
     bind_io (map_err_io CbDb (cb_trades_insert row)) (\<lambda>inserted.
     bind_io (if inserted then map_err_io CbDb (mark_graduated (ic_curve_address row)) else ret_io ()) (\<lambda>_.
       ret_io inserted))"

lemma swap_trade_alt: "swap_trade row = transaction CbSqlx (swap_body row)"
  by (simp add: swap_trade_def write_trade_def swap_body_def)

lemma graduate_alt: "graduate row = transaction CbSqlx (graduate_body row)"
  by (simp add: graduate_def graduate_body_def)

lemma trade_bodies:
  "implements (swap_body row) (trade_rows row (bump_upd row))"
  "implements (graduate_body row) (trade_rows row (graduate_upd row))"
  unfolding swap_body_def graduate_body_def trade_rows_def bump_upd_def graduate_upd_def
    cb_trades_insert_def bump_trade_aggregate_def mark_graduated_def
  by (intro implements_intros)+

text \<open>A trade statement either changes no table, or adds the trade and maps the rows of its curve.\<close>

lemma trade_rows_cases:
  assumes "trade_rows row upd d = (Inr ins, d')"
  obtains (old) "\<not> ins" "(ic_tx_hash row, ic_log_index row) \<in> cb_trade_key ` set (tbl_cb_trades d)"
      "same_tables d d'"
    | (new) i d1 where "ins" "(ic_tx_hash row, ic_log_index row) \<notin> cb_trade_key ` set (tbl_cb_trades d)"
      "d1 = d\<lparr>trades_seq := i, tbl_cb_trades := tbl_cb_trades d @ [cb_trade_to_row row (int i)]\<rparr>"
      "upd d1 = (Inr (), d')"
proof -
  from assms obtain d1 where ins: "cb_trades_insert_stmt row d = (Inr ins, d1)"
    and rest: "(if ins then upd else ret_io ()) d1 = (Inr (), d')"
    by (auto simp: trade_rows_def bind_io_Inr ret_io_def map_err_io_Inr)
  from ins show thesis
  proof (cases rule: cb_trades_insert_stmt_cases)
    case old
    with rest have "d' = d\<lparr>trades_seq := Suc (trades_seq d)\<rparr>" by (simp add: ret_io_def)
    then have "same_tables d d'" by (simp add: same_tables_iff)
    with old that(1) show thesis by blast
  next
    case new
    with rest that(2) [of d1 "Suc (trades_seq d)"] show thesis by simp
  qed
qed

text \<open>What a new trade does to a token row.\<close>

definition settle :: "insert_cb_trade \<Rightarrow> cb_token_row \<Rightarrow> cb_token_row" where
  "settle row t =
     (if ct_curve t \<noteq> ic_curve_address row then t
      else if ic_kind row = Graduated then t\<lparr>ct_graduated := True\<rparr>
      else bump_row (ic_srx_amount row) (price_per_token (ic_srx_amount row) (ic_token_amount row)) t)"

definition trade_upd :: "insert_cb_trade \<Rightarrow> (db, cb_error, unit) io" where
  "trade_upd row = (if ic_kind row = Graduated then graduate_upd row else bump_upd row)"

lemma settle_curve [simp]: "ct_curve (settle row t) = ct_curve t" "ct_token (settle row t) = ct_token t"
  by (simp_all add: settle_def bump_row_def)

lemma trade_upd_rows:
  assumes "trade_upd row d1 = (Inr (), d')"
  shows "d' = d1\<lparr>tbl_cb_tokens := map (settle row) (tbl_cb_tokens d1)\<rparr>"
proof -
  have "settle row = (\<lambda>t. if ct_curve t = ic_curve_address row then
      (if ic_kind row = Graduated then t\<lparr>ct_graduated := True\<rparr>
       else bump_row (ic_srx_amount row) (price_per_token (ic_srx_amount row) (ic_token_amount row)) t) else t)"
    by (rule ext) (simp add: settle_def)
  with assms show ?thesis
    by (cases "ic_kind row = Graduated")
      (auto simp: trade_upd_def bump_upd_def graduate_upd_def map_err_io_Inr bump_trade_aggregate_stmt_def
        mark_graduated_stmt_def split: if_splits)
qed

lemma aggregates_append:
  assumes agg: "aggregates_ok d t" and d1: "tbl_cb_trades d1 = tbl_cb_trades d @ [cb_trade_to_row row i]"
  shows "aggregates_ok d1 (settle row t)"
  using agg by (auto simp: aggregates_ok_def trades_of_def d1 settle_def bump_row_def Let_def)

lemma trade_rows_inv:
  assumes run: "trade_rows row (trade_upd row) d = (Inr ins, d')"
    and inv: "cb_inv f d" and c: "ic_curve_address row \<in> curve_rows d \<or> ic_curve_address row = f"
  shows "cb_inv f d'" "curve_rows d' = curve_rows d"
    "cb_trade_key ` set (tbl_cb_trades d') =
       insert (ic_tx_hash row, ic_log_index row) (cb_trade_key ` set (tbl_cb_trades d))"
proof -
  from run have "cb_inv f d' \<and> curve_rows d' = curve_rows d \<and>
      cb_trade_key ` set (tbl_cb_trades d') =
       insert (ic_tx_hash row, ic_log_index row) (cb_trade_key ` set (tbl_cb_trades d))"
  proof (cases rule: trade_rows_cases)
    case old
    note same = same_tablesD [OF old(3)]
    show ?thesis
      using inv old(2) cb_inv_tables [OF same(7,8)] same(8) by (simp add: insert_absorb)
  next
    case (new i d1)
    have toks: "tbl_cb_tokens d' = map (settle row) (tbl_cb_tokens d)"
      and trs: "tbl_cb_trades d' = tbl_cb_trades d @ [cb_trade_to_row row (int i)]"
      using trade_upd_rows [OF new(4)] new(3) by simp_all
    have rows: "curve_rows d' = curve_rows d"
      by (simp add: curve_rows_def toks image_image)
    have "aggregates_ok d' (settle row t)" if "t \<in> set (tbl_cb_tokens d)" for t
      using aggregates_append [OF _ trs, of t] that inv by (simp add: cb_inv_def)
    with inv c have "cb_inv f d'"
      unfolding cb_inv_def toks trs rows by auto
    with rows trs show ?thesis by simp
  qed
  then show "cb_inv f d'" "curve_rows d' = curve_rows d"
    "cb_trade_key ` set (tbl_cb_trades d') =
       insert (ic_tx_hash row, ic_log_index row) (cb_trade_key ` set (tbl_cb_trades d))" by blast+
qed

section \<open>Handlers\<close>

text \<open>Operations that touch nothing of the world but the database and the connection.\<close>

named_theorems only_db_intros

definition only_db :: "('z world_scheme, 'e, 'a) io \<Rightarrow> bool" where
  "only_db m \<longleftrightarrow> (\<forall>w. snd (m w) = w\<lparr>w_db := w_db (snd (m w)), w_net := w_net (snd (m w))\<rparr>)"

lemma only_dbD: "only_db m \<Longrightarrow> m w = (r, w') \<Longrightarrow> w' = w\<lparr>w_db := w_db w', w_net := w_net w'\<rparr>"
  unfolding only_db_def by (metis snd_conv)

lemma only_dbI: "(\<And>w r w'. m w = (r, w') \<Longrightarrow> w' = w\<lparr>w_db := w_db w', w_net := w_net w'\<rparr>) \<Longrightarrow> only_db m"
  unfolding only_db_def by (metis prod.collapse)

lemma only_db_basic [only_db_intros]: "only_db (ret_io v)" "only_db (fail_io e)" "only_db (lift_io q)"
  by (simp_all add: only_db_def ret_io_def fail_io_def lift_io_def)

lemma only_db_request [only_db_intros]: "only_db (request m)"
  by (auto simp: only_db_def request_def split: list.splits pg_outcome.splits prod.splits)

lemma only_db_map_err [only_db_intros]: "only_db m \<Longrightarrow> only_db (map_err_io g m)"
  by (simp add: only_db_def map_err_io_def split: prod.splits) (metis snd_conv)

lemma only_db_bind [only_db_intros]:
  assumes m: "only_db m" and f: "\<And>v. only_db (f v)"
  shows "only_db (bind_io m f)"
proof (rule only_dbI)
  fix w r w'
  assume run: "bind_io m f w = (r, w')"
  obtain r1 w1 where 1: "m w = (r1, w1)" by fastforce
  note w1 = only_dbD [OF m 1]
  show "w' = w\<lparr>w_db := w_db w', w_net := w_net w'\<rparr>"
  proof (cases r1)
    case (Inl e)
    with run 1 w1 show ?thesis by (simp add: bind_io_def)
  next
    case (Inr v)
    with run 1 have "f v w1 = (r, w')" by (simp add: bind_io_def)
    from only_dbD [OF f this] show ?thesis
      by (subst (asm) w1) simp
  qed
qed

lemma only_db_transaction [only_db_intros]:
  assumes "only_db body"
  shows "only_db (transaction from body)"
proof -
  have "only_db (finish from body)"
  proof (rule only_dbI)
    fix w r w'
    assume run: "finish from body w = (r, w')"
    obtain r1 w1 where 1: "body w = (r1, w1)" by fastforce
    from only_dbD [OF assms 1] have w1: "w1 = w\<lparr>w_db := w_db w1, w_net := w_net w1\<rparr>" .
    have "\<exists>d ns. w' = w1\<lparr>w_db := d, w_net := ns\<rparr>"
      using run 1 by (auto simp: finish_def split: sum.splits list.splits pg_outcome.splits) (metis world.surjective world.update_convs)+
    then obtain d ns where "w' = w1\<lparr>w_db := d, w_net := ns\<rparr>" by blast
    then have "w' = w\<lparr>w_db := d, w_net := ns\<rparr>"
      by (subst (asm) w1) simp
    then show "w' = w\<lparr>w_db := w_db w', w_net := w_net w'\<rparr>" by simp
  qed
  then show ?thesis
    unfolding transaction_def by (intro only_db_intros)
qed

lemma only_db_if [only_db_intros]: "only_db m \<Longrightarrow> only_db m' \<Longrightarrow> only_db (if c then m else m')"
  by simp

definition trade_keys :: "db \<Rightarrow> (string \<times> i32) set" where
  "trade_keys d = cb_trade_key ` set (tbl_cb_trades d)"

definition record_trade :: "insert_cb_trade \<Rightarrow> ('z world_scheme, cb_error, bool) io" where
  "record_trade row = (if ic_kind row = Graduated then graduate row else swap_trade row)"

lemma record_trade_only_db [only_db_intros]: "only_db (record_trade row)"
  unfolding record_trade_def graduate_alt swap_trade_alt graduate_body_def swap_body_def
    cb_trades_insert_def mark_graduated_def bump_trade_aggregate_def
  by (intro only_db_intros)

lemma record_trade_inv:
  assumes run: "record_trade row w = (r, w')" and inv: "cb_inv f (w_db w)"
    and c: "ic_curve_address row \<in> curve_rows (w_db w) \<or> ic_curve_address row = f"
  shows "cb_inv f (w_db w')" "curve_rows (w_db w') = curve_rows (w_db w)"
    "trade_keys (w_db w) \<subseteq> trade_keys (w_db w')"
    "r = Inr b \<Longrightarrow> (ic_tx_hash row, ic_log_index row) \<in> trade_keys (w_db w')"
proof -
  have imp: "\<exists>body. implements body (trade_rows row (trade_upd row)) \<and>
      record_trade row = transaction CbSqlx body"
    using trade_bodies [of row] unfolding record_trade_def trade_upd_def graduate_alt swap_trade_alt
    by (cases "ic_kind row = Graduated") auto
  then obtain body :: "('a world_scheme, cb_error, bool) io" where
    body: "implements body (trade_rows row (trade_upd row))" "record_trade row = transaction CbSqlx body"
    by blast
  have "cb_inv f (w_db w') \<and> curve_rows (w_db w') = curve_rows (w_db w) \<and>
      trade_keys (w_db w) \<subseteq> trade_keys (w_db w') \<and>
      (r = Inr b \<longrightarrow> (ic_tx_hash row, ic_log_index row) \<in> trade_keys (w_db w'))"
    using transaction_atomic [OF body(1), of CbSqlx w] unfolding body(2) [symmetric] run fst_conv snd_conv
  proof (elim disjE exE conjE)
    fix d' e
    assume "w_db w' = restore (w_db w) d'" "r = Inl e"
    with inv show ?thesis
      by (simp add: cb_inv_tables [OF restore_tables(7,8)] trade_keys_def)
  next
    fix v
    assume "trade_rows row (trade_upd row) (w_db w) = (Inr v, w_db w')"
    from trade_rows_inv [OF this inv c] show ?thesis
      by (auto simp: trade_keys_def)
  next
    fix v e
    assume "trade_rows row (trade_upd row) (w_db w) = (Inr v, w_db w')"
    from trade_rows_inv [OF this inv c] show ?thesis
      by (auto simp: trade_keys_def)
  qed
  then show "cb_inv f (w_db w')" "curve_rows (w_db w') = curve_rows (w_db w)"
    "trade_keys (w_db w) \<subseteq> trade_keys (w_db w')"
    "r = Inr b \<Longrightarrow> (ic_tx_hash row, ic_log_index row) \<in> trade_keys (w_db w')" by blast+
qed

lemma tokens_insert_inv:
  assumes run: "cb_tokens_insert t w = (r, w')" and inv: "cb_inv f (w_db w)" and t: "it_curve_address t \<noteq> f"
  shows "cb_inv f (w_db w')" "curve_rows (w_db w) \<subseteq> curve_rows (w_db w')"
    "tbl_cb_trades (w_db w') = tbl_cb_trades (w_db w)"
    "r = Inr () \<Longrightarrow> it_curve_address t \<in> curve_rows (w_db w')"
    "w' = w\<lparr>w_db := w_db w', w_net := w_net w'\<rparr>"
proof -
  obtain q d where s: "cb_tokens_insert_stmt t (w_db w) = (q, d)" by fastforce
  note eff = cb_tokens_insert_inv [OF s inv t]
  have tr: "tbl_cb_trades d = tbl_cb_trades (w_db w)"
    using s by (cases rule: cb_tokens_insert_stmt_cases) simp_all
  have st: "statement (cb_tokens_insert_stmt t) (w_db w) = (q, d)"
    using s by (cases rule: cb_tokens_insert_stmt_cases)
      (auto simp: statement_def s split: sum.splits)
  from run st have "(w_db w' = w_db w \<and> (\<exists>e. r = Inl e)) \<or> (w_db w' = d \<and> (r = Inr () \<longrightarrow> q = Inr ()))"
    by (auto simp: cb_tokens_insert_def map_err_io_def request_def map_err_def
        split: list.splits pg_outcome.splits sum.splits)
  with eff inv tr show "cb_inv f (w_db w')" "curve_rows (w_db w) \<subseteq> curve_rows (w_db w')"
    "tbl_cb_trades (w_db w') = tbl_cb_trades (w_db w)"
    "r = Inr () \<Longrightarrow> it_curve_address t \<in> curve_rows (w_db w')" by auto
  show "w' = w\<lparr>w_db := w_db w', w_net := w_net w'\<rparr>"
    using run by (intro only_dbD [of "cb_tokens_insert t" w r w'])
      (unfold cb_tokens_insert_def, intro only_db_intros)
qed

section \<open>Chunks\<close>

text \<open>
  The state of the worker: the tables agree with themselves and every known curve has a row (the
  factory is in the set too, see \<open>factory_log\<close>). \<open>grows\<close>: nothing is forgotten.
\<close>

definition worker_inv :: "string \<Rightarrow> 'z cb_world_scheme \<Rightarrow> bool" where
  "worker_inv f w \<longleftrightarrow> cb_inv f (w_db w) \<and> (\<forall>c\<in>known_curves w. c \<in> curve_rows (w_db w) \<or> c = f)"

definition grows :: "'z cb_world_scheme \<Rightarrow> 'z cb_world_scheme \<Rightarrow> bool" where
  "grows w w' \<longleftrightarrow> curve_rows (w_db w) \<subseteq> curve_rows (w_db w') \<and>
     trade_keys (w_db w) \<subseteq> trade_keys (w_db w') \<and> known_curves w \<subseteq> known_curves w'"

lemma grows_refl [simp]: "grows w w"
  by (simp add: grows_def)

lemma grows_trans: "grows a b \<Longrightarrow> grows b c \<Longrightarrow> grows a c"
  by (auto simp: grows_def)

definition steady :: "string \<Rightarrow> ('z cb_world_scheme, 'e, 'a) io \<Rightarrow> bool" where
  "steady f m \<longleftrightarrow> (\<forall>w. worker_inv f w \<longrightarrow> worker_inv f (snd (m w)) \<and> grows w (snd (m w)))"

named_theorems steady_intros

lemma steadyD: "steady f m \<Longrightarrow> worker_inv f w \<Longrightarrow> m w = (r, w') \<Longrightarrow> worker_inv f w' \<and> grows w w'"
  unfolding steady_def by (metis snd_conv)

lemma steady_basic [steady_intros]: "steady f (ret_io v)" "steady f (lift_io q)" "steady f (fail_io e)"
  by (simp_all add: steady_def ret_io_def lift_io_def fail_io_def)

lemma steady_bind [steady_intros]: "steady f m \<Longrightarrow> (\<And>v. steady f (g v)) \<Longrightarrow> steady f (bind_io m g)"
  unfolding steady_def bind_io_def by (auto split: prod.splits sum.splits) (metis grows_trans snd_conv)+

lemma steady_lift_bind: "(\<And>v. q = Inr v \<Longrightarrow> steady f (g v)) \<Longrightarrow> steady f (bind_io (lift_io q) g)"
  by (cases q) (simp_all add: steady_def bind_io_def lift_io_def)

lemma steady_for [steady_intros]: "(\<And>v. v \<in> set vs \<Longrightarrow> steady f (g v)) \<Longrightarrow> steady f (for_io g vs)"
  by (induction vs) (auto intro!: steady_intros)

lemma steady_catch:
  assumes "steady f m" "steady f g"
  shows "steady f (\<lambda>w. case m w of (Inl e, w') \<Rightarrow> (Inr (h e), w') | (Inr v, w') \<Rightarrow> g w')"
  using assms unfolding steady_def
  by (auto split: prod.splits sum.splits) (metis grows_trans snd_conv)+

lemma steady_map_err [steady_intros]: "steady f m \<Longrightarrow> steady f (map_err_io g m)"
  by (auto simp: steady_def map_err_io_def split: prod.splits)

lemma steady_tokens_insert:
  fixes t :: insert_cb_token
  assumes "it_curve_address t \<noteq> f"
  shows "steady f (cb_tokens_insert t)"
  unfolding steady_def
proof (intro allI impI)
  fix w :: "'a cb_world_scheme"
  assume inv: "worker_inv f w"
  obtain r w' where run: "cb_tokens_insert t w = (r, w')" by fastforce
  have "cb_inv f (w_db w)" using inv by (simp add: worker_inv_def)
  note eff = tokens_insert_inv [OF run this assms]
  have "known_curves w' = known_curves w"
    by (subst eff(5)) simp
  with eff inv run show "worker_inv f (snd (cb_tokens_insert t w)) \<and> grows w (snd (cb_tokens_insert t w))"
    by (auto simp: worker_inv_def grows_def trade_keys_def)
qed

text \<open>
  What the indexer relies on: \<open>eth_getLogs\<close> with an address filter returns logs of that address; the
  factory announces other contracts as curves and does not trade itself.
\<close>

definition trade_topic :: "abi \<Rightarrow> rpc_log \<Rightarrow> bool" where
  "trade_topic a l \<longleftrightarrow> (case rl_topics l of [] \<Rightarrow> False
     | t # _ \<Rightarrow> t = topic_buy a \<or> t = topic_sell a \<or> t = topic_graduated a)"

definition emitter_of :: "ext \<Rightarrow> rpc_log \<Rightarrow> string" where
  "emitter_of x l = ''0x'' @ hex_encode x (rl_address l)"

definition factory_behaves :: "ext \<Rightarrow> abi \<Rightarrow> u8 list \<Rightarrow> node \<Rightarrow> bool" where
  "factory_behaves x a factory n \<longleftrightarrow>
     (\<forall>lo hi k ls. logs_in_range n lo hi (Some factory) k = Inr ls \<longrightarrow>
        (\<forall>l\<in>set ls. rl_address l = factory \<and>
           (\<forall>ev. decode_curve_created a (rl_topics l) (rl_data l) = Inr ev \<longrightarrow>
              cb_hex_addr x (ev_curve ev) \<noteq> cb_hex_addr x factory))) \<and>
     (\<forall>lo hi k ls. logs_in_range n lo hi None k = Inr ls \<longrightarrow>
        (\<forall>l\<in>set ls. trade_topic a l \<longrightarrow> emitter_of x l \<noteq> cb_hex_addr x factory))"

lemma factory_log_steady:
  assumes "rl_address l = factory"
    and "\<And>ev. decode_curve_created a (rl_topics l) (rl_data l) = Inr ev \<Longrightarrow>
      cb_hex_addr x (ev_curve ev) \<noteq> cb_hex_addr x factory"
  shows "steady (cb_hex_addr x factory) (factory_log x a l)"
proof -
  let ?f = "cb_hex_addr x factory"
  have "steady ?f (apply_curve_created x a l)"
    unfolding apply_curve_created_def
    by (intro steady_lift_bind steady_map_err steady_tokens_insert)
      (auto simp: decode_log_def map_err_def dest: assms(2) split: sum.splits)
  moreover have "steady ?f (note_curve (''0x'' @ hex_encode x (rl_address l)))"
    by (auto simp: steady_def note_curve_def worker_inv_def grows_def assms(1) cb_hex_addr_def)
  ultimately show ?thesis
    by (auto simp: factory_log_def intro!: steady_bind steady_basic)
qed

lemma vet_emitter_steady:
  assumes "emitter_of x l \<noteq> f" and "worker_inv f w" and run: "vet_emitter x a n pick l w = (r, w')"
  shows "worker_inv f w' \<and> grows w w' \<and> (r = Inr True \<longrightarrow> emitter_of x l \<in> known_curves w') \<and>
    (emitter_of x l \<in> known_curves w \<longrightarrow> r = Inr True) \<and> (\<exists>b. r = Inr b)"
proof (cases "emitter_of x l \<in> known_curves w \<or> emitter_of x l \<in> set (known_non_curves w)")
  case True
  with assms show ?thesis
    by (auto simp: vet_emitter_def emitter_of_def Let_def split: if_splits)
next
  case False
  let ?b = "case rl_block_number l of None \<Rightarrow> 0 | Some b \<Rightarrow> u64_as_i64 b"
  let ?t = "case rl_transaction_hash l of None \<Rightarrow> [] | Some h \<Rightarrow> ''0x'' @ hex_encode x h"
  obtain q w1 where ad: "try_adopt x a n (rl_address l) ?b ?t w = (q, w1)" by fastforce
  have adopted: "worker_inv f w1 \<and> grows w w1 \<and> (q = Inr True \<longrightarrow> emitter_of x l \<in> curve_rows (w_db w1))"
  proof (cases "orphan_row x a n (rl_address l) ?b ?t")
    case None
    with ad assms(2) show ?thesis by (auto simp: try_adopt_def ret_io_def)
  next
    case (Some row)
    then have row: "it_curve_address row = emitter_of x l"
      by (auto simp: orphan_row_def cb_hex_addr_def emitter_of_def split: sum.splits)
    obtain q1 w2 where ins: "cb_tokens_insert row w = (q1, w2)" by fastforce
    have w2: "w1 = w2" "q = Inr True \<longrightarrow> q1 = Inr ()"
      using ad Some ins
      by (auto simp: try_adopt_def bind_io_def map_err_io_def map_err_def ret_io_def split: sum.splits)
    have "it_curve_address row \<noteq> f" using row assms(1) by simp
    moreover from this have "cb_inv f (w_db w)" using assms(2) by (simp add: worker_inv_def)
    ultimately show ?thesis
      using steadyD [OF steady_tokens_insert assms(2) ins] tokens_insert_inv(4) [OF ins] row w2 by auto
  qed
  have "(q = Inr True \<and> r = Inr True \<and> w' = w1\<lparr>known_curves := insert (emitter_of x l) (known_curves w1)\<rparr>) \<or>
      (r = Inr False \<and> w' = w1\<lparr>known_non_curves :=
         cache_non_curve pick (emitter_of x l) (known_non_curves w1)\<rparr>)"
    using run False ad
    by (auto simp: vet_emitter_def emitter_of_def Let_def split: sum.splits bool.splits)
  with adopted False show ?thesis
    by (auto simp: worker_inv_def grows_def)
qed

text \<open>The handlers seen as one: the row a log asks for, then its transaction.\<close>

definition trade_row :: "ext \<Rightarrow> abi \<Rightarrow> rpc_log \<Rightarrow> cb_error + insert_cb_trade" where
  "trade_row x a l =
     (if take 1 (rl_topics l) = [topic_buy a] then buy_row x a l
      else if take 1 (rl_topics l) = [topic_sell a] then sell_row x a l
      else graduated_row x a l)"

lemma trade_row_position:
  assumes "trade_row x a l = Inr row"
  shows "ic_curve_address row = emitter_of x l"
    "\<exists>h li. rl_transaction_hash l = Some h \<and> rl_log_index l = Some li \<and>
       ic_tx_hash row = ''0x'' @ hex_encode x h \<and> ic_log_index row = uint li"
    "rl_block_number l \<noteq> None"
  using assms
  by (auto simp: trade_row_def buy_row_def sell_row_def graduated_row_def trade_position_def bind_result_Inr
      require_emitter_def require_tx_hash_def require_log_index_def require_block_number_def
      i32_try_from_u64_def ok_or_def cb_hex_addr_def emitter_of_def split: if_splits option.splits)

lemma handlers_record:
  "apply_buy x a l = bind_io (lift_io (buy_row x a l)) record_trade"
  "apply_sell x a l = bind_io (lift_io (sell_row x a l)) record_trade"
  "apply_graduated x a l = bind_io (lift_io (graduated_row x a l)) record_trade"
  unfolding apply_buy_def apply_sell_def apply_graduated_def
  by (rule ext, cases "buy_row x a l", auto simp: bind_io_def lift_io_def record_trade_def buy_row_def
      bind_result_Inr,
    rule ext, cases "sell_row x a l", auto simp: bind_io_def lift_io_def record_trade_def sell_row_def
      bind_result_Inr,
    rule ext, cases "graduated_row x a l", auto simp: bind_io_def lift_io_def record_trade_def graduated_row_def
      bind_result_Inr)

lemma curve_log_alt:
  "curve_log x a n pick l =
     (if \<not> trade_topic a l then ret_io ()
      else bind_io (vet_emitter x a n pick l) (\<lambda>is_curve.
        if \<not> is_curve then ret_io () else discard (bind_io (lift_io (trade_row x a l)) record_trade)))"
  unfolding curve_log_def trade_topic_def trade_row_def handlers_record
  by (cases "rl_topics l") (auto intro!: arg_cong [of _ _ "bind_io (vet_emitter x a n pick l)"] ext)

lemma curve_log_steady:
  assumes "trade_topic a l \<Longrightarrow> emitter_of x l \<noteq> f" and inv: "worker_inv f w"
    and run: "curve_log x a n pick l w = (r, w')"
  shows "worker_inv f w' \<and> grows w w' \<and>
    (r = Inr () \<and> trade_topic a l \<and> emitter_of x l \<in> known_curves w \<longrightarrow>
      (\<exists>row. trade_row x a l = Inr row \<and> (ic_tx_hash row, ic_log_index row) \<in> trade_keys (w_db w')))"
proof (cases "trade_topic a l")
  case False
  with run inv show ?thesis by (auto simp: curve_log_alt ret_io_def)
next
  case True
  obtain v w1 where vet: "vet_emitter x a n pick l w = (v, w1)" by fastforce
  note vetted = vet_emitter_steady [OF assms(1) [OF True] inv vet]
  then obtain b where b: "v = Inr b" by blast
  show ?thesis
  proof (cases b)
    case False
    with run vet b True have "w' = w1" by (auto simp: curve_log_alt bind_io_def ret_io_def)
    with vetted b False show ?thesis by simp
  next
    case yes: True
    show ?thesis
    proof (cases "trade_row x a l")
      case (Inl e)
      with run vet b yes True have "w' = w1" "r = Inl e"
        by (auto simp: curve_log_alt bind_io_def lift_io_def discard_def)
      with vetted show ?thesis by simp
    next
      case (Inr row)
      obtain q w2 where rec: "record_trade row w1 = (q, w2)" by fastforce
      with run vet b yes True Inr have w': "w' = w2" "r = Inr () \<longrightarrow> (\<exists>c. q = Inr c)"
        by (auto simp: curve_log_alt bind_io_def lift_io_def discard_def ret_io_def split: sum.splits)
      have emitter: "emitter_of x l \<in> known_curves w1" using vetted b yes by simp
      then have "ic_curve_address row \<in> curve_rows (w_db w1) \<or> ic_curve_address row = f"
        using vetted trade_row_position(1) [OF Inr] by (simp add: worker_inv_def)
      moreover have "cb_inv f (w_db w1)" using vetted by (simp add: worker_inv_def)
      ultimately have eff: "cb_inv f (w_db w2)" "curve_rows (w_db w2) = curve_rows (w_db w1)"
        "trade_keys (w_db w1) \<subseteq> trade_keys (w_db w2)"
        "\<And>c. q = Inr c \<Longrightarrow> (ic_tx_hash row, ic_log_index row) \<in> trade_keys (w_db w2)"
        using record_trade_inv [OF rec] by blast+
      have "known_curves w2 = known_curves w1"
        using only_dbD [OF record_trade_only_db rec] by (metis (no_types, lifting) cb_world.select_convs(1)
          cb_world.surjective world.update_convs)
      with eff vetted w' Inr show ?thesis
        by (auto simp: worker_inv_def grows_def)
    qed
  qed
qed

lemma steady_curve_log:
  assumes "trade_topic a l \<Longrightarrow> emitter_of x l \<noteq> f"
  shows "steady f (curve_log x a n pick l)"
  unfolding steady_def
proof (intro allI impI)
  fix w :: "'a cb_world_scheme"
  assume "worker_inv f w"
  from curve_log_steady [OF assms this prod.collapse [symmetric]]
  show "worker_inv f (snd (curve_log x a n pick l w)) \<and> grows w (snd (curve_log x a n pick l w))"
    by blast
qed

lemma factory_behavesD:
  assumes "factory_behaves x a factory n"
  shows "logs_in_range n lo hi (Some factory) k = Inr ls \<Longrightarrow> l \<in> set ls \<Longrightarrow>
      steady (cb_hex_addr x factory) (factory_log x a l)"
    and "logs_in_range n lo hi None k = Inr ls \<Longrightarrow> l \<in> set ls \<Longrightarrow> trade_topic a l \<Longrightarrow>
      emitter_of x l \<noteq> cb_hex_addr x factory"
proof -
  assume "logs_in_range n lo hi (Some factory) k = Inr ls" "l \<in> set ls"
  from assms [unfolded factory_behaves_def, THEN conjunct1, rule_format, OF this]
  show "steady (cb_hex_addr x factory) (factory_log x a l)"
    by (intro factory_log_steady) blast+
next
  assume "logs_in_range n lo hi None k = Inr ls" "l \<in> set ls" "trade_topic a l"
  from assms [unfolded factory_behaves_def, THEN conjunct2, rule_format, OF this]
  show "emitter_of x l \<noteq> cb_hex_addr x factory" .
qed

end
