(* ===== verification/Coinblast_Theorems.thy ===== *)
theory Coinblast_Theorems
  imports Coinblast_Laws Samples
begin

text \<open>
  The properties of the launchpad worker, with the lemmas on whole chunks and turns they need.
\<close>

section \<open>Chunks and turns\<close>

lemma cb_retried_Inr:
  assumes "cb_retried cfg op = Inr v"
  shows "\<exists>k. op k = Inr v"
proof -
  have "fst (retry_with_backoff cfg op) = Some (Inr v)"
    using assms by (auto simp: cb_retried_def map_err_def split: option.splits sum.splits)
  from retry_ok_attempt [OF this] show ?thesis by blast
qed

lemma run_chunk_steady:
  assumes "factory_behaves x a factory n"
  shows "steady (cb_hex_addr x factory) (run_chunk x a n pick backoff factory lo hi)"
  unfolding run_chunk_def
proof (intro steady_lift_bind steady_bind steady_for)
  fix ls l
  assume ls: "cb_retried backoff (logs_in_range n lo hi (Some factory)) = Inr ls" "l \<in> set ls"
  obtain k where "logs_in_range n lo hi (Some factory) k = Inr ls"
    using cb_retried_Inr [OF ls(1)] by blast
  from factory_behavesD(1) [OF assms this ls(2)] show "steady (cb_hex_addr x factory) (factory_log x a l)" .
next
  fix ls l
  assume ls: "cb_retried backoff (logs_in_range n lo hi None) = Inr ls" "l \<in> set ls"
  obtain k where "logs_in_range n lo hi None k = Inr ls"
    using cb_retried_Inr [OF ls(1)] by blast
  from factory_behavesD(2) [OF assms this ls(2)]
  have "trade_topic a l \<Longrightarrow> emitter_of x l \<noteq> cb_hex_addr x factory" .
  then show "steady (cb_hex_addr x factory) (curve_log x a n pick l)"
    by (rule steady_curve_log)
qed

lemma steady_other_tables:
  assumes "only_db m" and "\<And>w. tbl_cb_tokens (w_db (snd (m w))) = tbl_cb_tokens (w_db w) \<and>
      tbl_cb_trades (w_db (snd (m w))) = tbl_cb_trades (w_db w)"
  shows "steady f m"
  unfolding steady_def
proof (intro allI impI)
  fix w :: "'a cb_world_scheme"
  assume inv: "worker_inv f w"
  obtain r w' where run: "m w = (r, w')" by fastforce
  note tables = assms(2) [of w, unfolded run snd_conv]
  have "known_curves w' = known_curves w"
    by (subst only_dbD [OF assms(1) run]) simp
  with inv tables show "worker_inv f (snd (m w)) \<and> grows w (snd (m w))"
    using cb_inv_tables [of "w_db w'" "w_db w"] by (simp add: run worker_inv_def grows_def trade_keys_def)
qed

lemma request_tables:
  assumes "\<And>d. tbl_cb_tokens (snd (m d)) = tbl_cb_tokens d \<and> tbl_cb_trades (snd (m d)) = tbl_cb_trades d"
  shows "tbl_cb_tokens (w_db (snd (request m w))) = tbl_cb_tokens (w_db w) \<and>
    tbl_cb_trades (w_db (snd (request m w))) = tbl_cb_trades (w_db w)"
  using assms [of "w_db w"]
  by (auto simp: request_def statement_def split: list.splits pg_outcome.splits prod.splits sum.splits)

lemma cursor_ops_steady [steady_intros]:
  "steady f (cb_read_cursor net)" "steady f (cb_write_cursor h)"
proof -
  have "steady f (meta_get k)" for k
    unfolding meta_get_def query_def
    by (intro steady_map_err steady_other_tables only_db_intros request_tables) simp
  then show "steady f (cb_read_cursor net)"
    unfolding cb_read_cursor_def meta_get_i64_def Let_def
    by (auto intro!: steady_intros split: option.splits)
  have "tbl_cb_tokens (snd (meta_upsert g k v ts d)) = tbl_cb_tokens d \<and>
      tbl_cb_trades (snd (meta_upsert g k v ts d)) = tbl_cb_trades d" for g k v ts d
    by (auto simp: meta_upsert_def split: option.splits sum.splits)
  then show "steady f (cb_write_cursor h)"
    unfolding cb_write_cursor_def meta_set_i64_def meta_set_def
    by (intro steady_map_err steady_other_tables only_db_intros request_tables) blast
qed

lemma worker_turn_steady:
  assumes "factory_behaves x a factory n"
  shows "steady (cb_hex_addr x factory) (worker_turn x a pick factory cfg n)"
  unfolding worker_turn_def Let_def
  by (intro steady_intros)
    (auto intro!: steady_basic steady_catch run_chunk_steady [OF assms] steady_bind cursor_ops_steady)

lemma worker_loop_inv:
  assumes "worker_loop x a pick factory cfg turns w = (r, w')"
    and "\<forall>(c, n)\<in>set turns. factory_behaves x a factory n" and "worker_inv (cb_hex_addr x factory) w"
  shows "worker_inv (cb_hex_addr x factory) w' \<and> grows w w'"
  using assms
proof (induction x a pick factory cfg turns w rule: worker_loop.induct)
  case (1 x a pick factory cfg w)
  then show ?case by simp
next
  case (2 x a pick factory cfg c n turns w)
  obtain q w1 where turn: "worker_turn x a pick factory cfg n w = (q, w1)" by fastforce
  have "factory_behaves x a factory n" using "2.prems"(2) by simp
  from steadyD [OF worker_turn_steady [OF this] "2.prems"(3) turn]
  have one: "worker_inv (cb_hex_addr x factory) w1 \<and> grows w w1" .
  show ?case
  proof (cases "c \<or> (\<exists>e. q = Inl e)")
    case True
    with "2.prems" turn one show ?thesis by (auto split: if_splits)
  next
    case False
    then obtain v where v: "q = Inr v" by (cases q) auto
    with False "2.prems"(1) turn have "worker_loop x a pick factory cfg turns w1 = (r, w')" by simp
    from "2.IH" [OF _ turn [symmetric] v this] False "2.prems"(2) one show ?thesis
      by (auto intro: grows_trans)
  qed
qed

section \<open>Sample data\<close>

text \<open>An ABI with one-byte topics, and a node on which address 5 is a curve that saw one purchase.\<close>

definition s_abi :: abi where
  "s_abi = \<lparr>topic_curve_created = [1], topic_buy = [2], topic_sell = [3], topic_graduated = [4],
     decode_curve_created = (\<lambda>_ _. Inr \<lparr>ev_curve = addr_bytes 5, ev_token = addr_bytes 6,
       ev_owner = addr_bytes 7, ev_name = ''Coin'', ev_symbol = ''C'', ev_curve_supply = 1000,
       ev_graduation_srx_threshold = 100\<rparr>),
     decode_buy = (\<lambda>_ _. Inr \<lparr>ev_buyer = addr_bytes 8, ev_srx_in = 10, ev_buy_fee = 1, ev_tokens_out = 0\<rparr>),
     decode_sell = (\<lambda>_ _. Inl ''no sale''), decode_graduated = (\<lambda>_ _. Inl ''no graduation''),
     call_data_token = [1], call_data_curve_supply = [2], call_data_threshold = [3],
     call_data_name = [4], call_data_symbol = [5],
     decode_address_return = (\<lambda>_. Inr (addr_bytes 6)), decode_string_return = (\<lambda>_. Inr ''Coin'')\<rparr>"

definition s_curve_log :: "u8 \<Rightarrow> nat \<Rightarrow> rpc_log" where
  "s_curve_log topic emitter = \<lparr>rl_block_number = Some 1178690, rl_log_index = Some 0,
     rl_transaction_hash = Some (hash_bytes 1), rl_topics = [[topic]], rl_address = addr_bytes emitter,
     rl_data = []\<rparr>"

definition s_factory :: "u8 list" where
  "s_factory = addr_bytes 9"

definition s_cb_node :: node where
  "s_cb_node = (s_node 1178700)\<lparr>eth_get_logs := (\<lambda>f t a k. Inr (if a = None then [s_curve_log 2 5] else [])),
     eth_call := (\<lambda>a d. Inr (replicate 32 0))\<rparr>"

text \<open>The same chain with one CurveCreated log of the factory, on a node that fails every call.\<close>

definition s_cb_node2 :: node where
  "s_cb_node2 = s_cb_node\<lparr>eth_get_logs := (\<lambda>f t a k. Inr (if a = None then [] else [s_curve_log 1 9])),
     eth_call := (\<lambda>a d. Inl ''timeout'')\<rparr>"

definition s_cb_world :: "db \<Rightarrow> pg_outcome list \<Rightarrow> cb_world" where
  "s_cb_world d net = \<lparr>w_db = d, w_net = net, known_curves = {}, known_non_curves = []\<rparr>"

definition s_adopted :: cb_token_row where
  "s_adopted = \<lparr>ct_curve = ''0xaa'', ct_token = cb_hex_addr ext_ref (addr_bytes 6), ct_owner = zero_owner,
     ct_name = ''Copy'', ct_symbol = ''C'', ct_supply = 0, ct_threshold = 0, ct_graduated = False,
     ct_created_block = 1178668, ct_created_tx = ''0xbb'', ct_volume = 0, ct_trade_count = 0,
     ct_last_price = 0\<rparr>"

definition s_curve_db :: db where
  "s_curve_db = empty_db\<lparr>tbl_cb_tokens := [s_adopted\<lparr>ct_curve := cb_hex_addr ext_ref (addr_bytes 5)\<rparr>]\<rparr>"

definition s_run :: "(cb_error + unit) option \<times> cb_world" where
  "s_run = run_coinblast_worker ext_ref s_abi hd s_factory (worker_config_for_network Mainnet)
     [(False, s_cb_node), (True, s_cb_node)] (s_cb_world s_curve_db [])"

lemma s_world_cb [simp]:
  "w_db (s_cb_world d net) = d" "known_curves (s_cb_world d net) = {}" "known_non_curves (s_cb_world d net) = []"
  by (simp_all add: s_cb_world_def)

lemma s_logs:
  "logs_in_range s_cb_node lo hi a k = Inr ls \<Longrightarrow> ls = (if a = None then [s_curve_log 2 5] else [])"
  by (auto simp: logs_in_range_def s_cb_node_def bind_result_Inr split: if_splits)

lemma s_curve_not_factory: "emitter_of ext_ref (s_curve_log t 5) \<noteq> cb_hex_addr ext_ref s_factory"
  by (simp add: emitter_of_def s_curve_log_def) code_simp

lemma s_factory_behaves: "factory_behaves ext_ref s_abi s_factory s_cb_node"
  unfolding factory_behaves_def by (auto dest!: s_logs simp: s_curve_not_factory)

lemma s_curve_db_inv [simp]: "cb_inv f s_curve_db" "curve_rows s_curve_db = {cb_hex_addr ext_ref (addr_bytes 5)}"
  by (simp_all add: s_curve_db_def cb_inv_def curve_rows_def aggregates_ok_def trades_of_def empty_db_def s_adopted_def)

lemma s_cb_inv_empty [simp]: "cb_inv f empty_db" "curve_rows empty_db = {}"
  by (simp_all add: cb_inv_def curve_rows_def empty_db_def)

section \<open>Properties\<close>

text \<open>C21: The aggregates are those of the trades. From tables that agree, whatever number of turns the
  worker runs, on whatever logs of a well-behaved factory, with connection faults anywhere and chunks
  run again after failures, each token row keeps \<open>trade_count\<close> equal to the number of buy and sell
  rows of its curve, \<open>total_volume_srx\<close> to the sum of their amounts, and \<open>is_graduated\<close> exactly when
  there is a graduation row; no trade is ever lost.\<close>

theorem aggregates_match_trades:
  assumes "run_coinblast_worker x a pick factory cfg turns w = (r, w')"
    and "\<forall>(c, n)\<in>set turns. factory_behaves x a factory n"
    and "cb_inv (cb_hex_addr x factory) (w_db w)" and "\<forall>c\<in>curve_rows (w_db w). to_lowercase c = c"
  shows "(\<forall>t\<in>set (tbl_cb_tokens (w_db w')).
      let ts = filter (\<lambda>r. cr_curve r = ct_curve t) (tbl_cb_trades (w_db w'));
          swaps = filter (\<lambda>r. cr_type r \<noteq> ''graduated'') ts in
      ct_trade_count t = int (length swaps) \<and> ct_volume t = sum_list (map cr_srx swaps) \<and>
      (ct_graduated t \<longleftrightarrow> (\<exists>r\<in>set ts. cr_type r = ''graduated''))) \<and>
    trade_keys (w_db w) \<subseteq> trade_keys (w_db w')"
proof -
  let ?f = "cb_hex_addr x factory"
  obtain q w1 where h: "hydrate_known_curves w = (q, w1)" by fastforce
  have q: "(\<exists>e. q = Inl e) \<or> q = Inr ()" by (cases q) auto
  have "w_db w1 = w_db w \<and> (q = Inr () \<longrightarrow> known_curves w1 = set (map to_lowercase (map ct_curve (tbl_cb_tokens (w_db w)))))"
    using h by (auto simp: hydrate_known_curves_def known_curve_addresses_def bind_io_def map_err_io_def
        map_err_def request_def statement_def split: list.splits pg_outcome.splits)
  then have db: "w_db w1 = w_db w"
    and known: "q = Inr () \<Longrightarrow> known_curves w1 = to_lowercase ` curve_rows (w_db w)"
    by (auto simp: curve_rows_def image_image)
  have "cb_inv ?f (w_db w') \<and> trade_keys (w_db w) \<subseteq> trade_keys (w_db w')"
  proof (cases "q = Inr ()")
    case True
    with assms(1) h have loop: "worker_loop x a pick factory cfg turns w1 = (r, w')"
      by (simp add: run_coinblast_worker_def)
    have "worker_inv ?f w1"
      using known [OF True] assms(3,4) by (auto simp: worker_inv_def db)
    from worker_loop_inv [OF loop assms(2) this] show ?thesis
      by (simp add: worker_inv_def grows_def db)
  next
    case False
    with q assms(1) h have "w' = w1" by (auto simp: run_coinblast_worker_def)
    with assms(3) db show ?thesis by simp
  qed
  then show ?thesis
    by (simp add: cb_inv_def aggregates_ok_def trades_of_def is_swap_def Let_def)
qed

theorem aggregates_match_trades_witness:
  "let d = w_db (snd s_run) in tbl_cb_tokens d \<noteq> [] \<and> length (tbl_cb_trades d) = 1 \<and>
   ct_trade_count (hd (tbl_cb_tokens d)) = int (length (filter (\<lambda>r. cr_type r \<noteq> ''graduated'')
     (filter (\<lambda>r. cr_curve r = ct_curve (hd (tbl_cb_tokens d))) (tbl_cb_trades d))))"
proof -
  obtain r w' where run: "run_coinblast_worker ext_ref s_abi hd s_factory (worker_config_for_network Mainnet)
       [(False, s_cb_node), (True, s_cb_node)] (s_cb_world s_curve_db []) = (r, w')" by fastforce
  have "(case w_db (snd s_run) of d \<Rightarrow> (length (tbl_cb_tokens d), length (tbl_cb_trades d))) = (1, 1)"
    by code_simp
  moreover have "to_lowercase (cb_hex_addr ext_ref (addr_bytes 5)) = cb_hex_addr ext_ref (addr_bytes 5)"
    by code_simp
  ultimately show ?thesis
    using aggregates_match_trades [OF run] s_factory_behaves
    by (cases "tbl_cb_tokens (w_db w')") (auto simp: s_run_def run Let_def)
qed

lemma curve_logs_recorded:
  assumes "for_io (curve_log x a n pick) ls w = (Inr (), w')" and "worker_inv f w"
    and "\<forall>l\<in>set ls. trade_topic a l \<longrightarrow> emitter_of x l \<noteq> f"
  shows "\<forall>l\<in>set ls. trade_topic a l \<and> emitter_of x l \<in> known_curves w \<longrightarrow>
    (\<exists>row. trade_row x a l = Inr row \<and> (ic_tx_hash row, ic_log_index row) \<in> trade_keys (w_db w'))"
  using assms
proof (induction ls arbitrary: w)
  case Nil
  then show ?case by simp
next
  case (Cons l ls)
  obtain w1 where l: "curve_log x a n pick l w = (Inr (), w1)" and rest: "for_io (curve_log x a n pick) ls w1 = (Inr (), w')"
    using Cons.prems(1) by (auto simp: bind_io_Inr)
  have "trade_topic a l \<Longrightarrow> emitter_of x l \<noteq> f" using Cons.prems(3) by simp
  note one = curve_log_steady [OF this Cons.prems(2) l]
  have "steady f (for_io (curve_log x a n pick) ls)"
    using Cons.prems(3) by (intro steady_for steady_curve_log) simp
  from steadyD [OF this _ rest] one have "grows w1 w'" by blast
  moreover have rest_ok: "\<forall>l\<in>set ls. trade_topic a l \<and> emitter_of x l \<in> known_curves w1 \<longrightarrow>
    (\<exists>row. trade_row x a l = Inr row \<and> (ic_tx_hash row, ic_log_index row) \<in> trade_keys (w_db w'))"
    using one Cons.prems(3) by (intro Cons.IH [OF rest]) auto
  ultimately show ?case
  proof (intro ballI impI)
    fix l'
    assume "l' \<in> set (l # ls)" "trade_topic a l' \<and> emitter_of x l' \<in> known_curves w"
    with one rest_ok \<open>grows w1 w'\<close> show "\<exists>row. trade_row x a l' = Inr row \<and>
        (ic_tx_hash row, ic_log_index row) \<in> trade_keys (w_db w')"
      by (cases "l' = l") (auto simp: grows_def)
  qed
qed

text \<open>C22: A finished chunk has every trade of the curves known when it started. If \<open>run_chunk\<close> returns
  \<open>Ok\<close>, each Buy, Sell or Graduated log the node reported in the range for such a curve has its row
  in \<open>cb_trades\<close>, under its transaction hash and log index.\<close>

theorem chunk_records_known_trades:
  assumes "run_chunk x a n pick backoff factory lo hi w = (Inr (), w')"
    and "factory_behaves x a factory n" and "worker_inv (cb_hex_addr x factory) w"
  shows "\<exists>k ls. logs_in_range n lo hi None k = Inr ls \<and>
    (\<forall>l\<in>set ls. trade_topic a l \<and> emitter_of x l \<in> known_curves w \<longrightarrow>
      (\<exists>row. trade_row x a l = Inr row \<and> (ic_tx_hash row, ic_log_index row) \<in> trade_keys (w_db w')))"
proof -
  let ?f = "cb_hex_addr x factory"
  obtain fl w1 cl where fl: "cb_retried backoff (logs_in_range n lo hi (Some factory)) = Inr fl"
    "for_io (factory_log x a) fl w = (Inr (), w1)"
    and cl: "cb_retried backoff (logs_in_range n lo hi None) = Inr cl"
    "for_io (curve_log x a n pick) cl w1 = (Inr (), w')"
    using assms(1) by (auto simp: run_chunk_def bind_io_Inr lift_io_def)
  obtain k where k: "logs_in_range n lo hi None k = Inr cl"
    using cb_retried_Inr [OF cl(1)] by blast
  obtain kf where kf: "logs_in_range n lo hi (Some factory) kf = Inr fl"
    using cb_retried_Inr [OF fl(1)] by blast
  have "steady ?f (for_io (factory_log x a) fl)"
    using factory_behavesD(1) [OF assms(2) kf] by (intro steady_for)
  from steadyD [OF this assms(3) fl(2)] have w1: "worker_inv ?f w1" "grows w w1" by blast+
  have emit: "\<forall>l\<in>set cl. trade_topic a l \<longrightarrow> emitter_of x l \<noteq> ?f"
    using factory_behavesD(2) [OF assms(2) k] by blast
  from curve_logs_recorded [OF cl(2) w1(1) emit] w1(2) k show ?thesis
    unfolding grows_def by blast
qed

theorem chunk_records_known_trades_witness:
  "(''0x'' @ hex_encode ext_ref (hash_bytes 1), 0) \<in> trade_keys (w_db (snd (run_chunk ext_ref s_abi s_cb_node
     hd backoff_default s_factory (BlockHeight 1178667) (BlockHeight 1178695)
     ((s_cb_world s_curve_db [])\<lparr>known_curves := {cb_hex_addr ext_ref (addr_bytes 5)}\<rparr>))))"
proof -
  let ?c = "cb_hex_addr ext_ref (addr_bytes 5)" and ?l = "s_curve_log 2 5"
  let ?w = "(s_cb_world s_curve_db [])\<lparr>known_curves := {?c}\<rparr>"
  have "fst (run_chunk ext_ref s_abi s_cb_node hd backoff_default s_factory (BlockHeight 1178667)
      (BlockHeight 1178695) ?w) = Inr ()" by code_simp
  then obtain w' where run: "run_chunk ext_ref s_abi s_cb_node hd backoff_default s_factory (BlockHeight 1178667)
      (BlockHeight 1178695) ?w = (Inr (), w')" by (metis prod.collapse)
  have inv: "worker_inv (cb_hex_addr ext_ref s_factory) ?w"
    by (simp add: worker_inv_def)
  have "trade_topic s_abi ?l \<and> emitter_of ext_ref ?l \<in> known_curves ?w"
    by (simp add: trade_topic_def emitter_of_def cb_hex_addr_def s_curve_log_def s_abi_def)
  with chunk_records_known_trades [OF run s_factory_behaves inv] obtain row where
    row: "trade_row ext_ref s_abi ?l = Inr row" "(ic_tx_hash row, ic_log_index row) \<in> trade_keys (w_db w')"
    by (auto dest!: s_logs)
  from trade_row_position(2) [OF row(1)]
  have "ic_tx_hash row = ''0x'' @ hex_encode ext_ref (hash_bytes 1) \<and> ic_log_index row = 0"
    by (auto simp: s_curve_log_def)
  with row(2) run show ?thesis by simp
qed

lemma second_curve_rejected:
  assumes "it_token_address t \<in> ct_token ` set (tbl_cb_tokens (w_db w))" "it_curve_address t \<notin> curve_rows (w_db w)"
  shows "\<exists>e w'. map_err_io CbDb (cb_tokens_insert t) w = (Inl e, w') \<and> same_tables (w_db w) (w_db w')"
proof -
  have "\<not> list_ex (\<lambda>y. ct_curve (cb_token_to_row t) = ct_curve y) (tbl_cb_tokens (w_db w))"
    using assms(2) by (auto simp: list_ex_iff curve_rows_def cb_token_to_row_def)
  moreover have "list_ex (\<lambda>y. ct_token (cb_token_to_row t) = ct_token y) (tbl_cb_tokens (w_db w))"
    using assms(1) by (auto simp: list_ex_iff cb_token_to_row_def)
  ultimately have "\<exists>e. cb_tokens_insert_stmt t (w_db w) = (Inl e, w_db w)"
    by (simp add: cb_tokens_insert_stmt_def insert_do_nothing_def)
  then show ?thesis
    by (auto simp: cb_tokens_insert_def map_err_io_def map_err_def request_def statement_def
        split: list.splits pg_outcome.splits)
qed

lemma second_curve_log_fails:
  assumes "take 1 (rl_topics l) = [topic_curve_created a]"
    and "decode_curve_created a (rl_topics l) (rl_data l) = Inr ev"
    and "cb_hex_addr x (ev_token ev) \<in> ct_token ` set (tbl_cb_tokens (w_db w))"
    and "cb_hex_addr x (ev_curve ev) \<notin> curve_rows (w_db w)"
  shows "\<exists>e w'. factory_log x a l w = (Inl e, w') \<and> same_tables (w_db w) (w_db w')"
proof (cases "\<exists>b h. require_block_number l = Inr b \<and> require_tx_hash x l = Inr h")
  case False
  with assms(1) show ?thesis
    by (cases "require_block_number l"; cases "require_tx_hash x l")
      (simp_all add: factory_log_def apply_curve_created_def bind_io_def lift_io_def)
next
  case True
  then obtain b h where bh: "require_block_number l = Inr b" "require_tx_hash x l = Inr h" by blast
  let ?t = "\<lparr>it_curve_address = cb_hex_addr x (ev_curve ev), it_token_address = cb_hex_addr x (ev_token ev),
       it_owner_address = cb_hex_addr x (ev_owner ev), it_name = ev_name ev, it_symbol = ev_symbol ev,
       it_curve_supply = Wei (ev_curve_supply ev),
       it_graduation_threshold = Wei (ev_graduation_srx_threshold ev),
       it_created_block = b, it_created_tx_hash = h\<rparr>"
  from second_curve_rejected [of ?t w] assms(3,4) obtain e w' where
    f: "map_err_io CbDb (cb_tokens_insert ?t) w = (Inl e, w')" "same_tables (w_db w) (w_db w')" by auto
  have "factory_log x a l w = (Inl e, w')"
    using assms(1,2) bh f(1)
    by (simp add: factory_log_def apply_curve_created_def bind_io_def lift_io_def decode_log_def map_err_def)
  with f(2) show ?thesis by blast
qed

text \<open>C24: A second curve for a token stops the worker. If the next CurveCreated log of a range names a
  token that another curve already holds (an adopted contract only has to answer \<open>token()\<close> with it),
  the insert violates the unique index on \<open>token_address\<close>, which \<open>ON CONFLICT (curve_address)\<close> does
  not cover: every attempt at the range fails and changes nothing, so the cursor never passes it.\<close>

theorem duplicate_token_stalls:
  assumes "\<And>k. logs_in_range n lo hi (Some factory) k = Inr (l # rest)"
    and "take 1 (rl_topics l) = [topic_curve_created a]"
    and "decode_curve_created a (rl_topics l) (rl_data l) = Inr ev"
    and "cb_hex_addr x (ev_token ev) \<in> ct_token ` set (tbl_cb_tokens (w_db w))"
    and "cb_hex_addr x (ev_curve ev) \<notin> curve_rows (w_db w)"
  shows "(\<exists>e. fst (run_chunk x a n pick backoff factory lo hi w) = Inl e) \<and>
    same_tables (w_db w) (w_db (snd (run_chunk x a n pick backoff factory lo hi w)))"
proof (cases "cb_retried backoff (logs_in_range n lo hi (Some factory))")
  case (Inl e)
  then show ?thesis by (simp add: run_chunk_def bind_io_def lift_io_def)
next
  case (Inr ls)
  with cb_retried_Inr [OF Inr] assms(1) have "ls = l # rest" by auto
  with Inr second_curve_log_fails [OF assms(2-5)] show ?thesis
    by (auto simp: run_chunk_def bind_io_def lift_io_def)
qed

theorem duplicate_token_stalls_witness:
  "\<exists>e. fst (run_chunk ext_ref s_abi s_cb_node2 hd backoff_default s_factory (BlockHeight 1178667)
     (BlockHeight 1178695) (s_cb_world (empty_db\<lparr>tbl_cb_tokens := [s_adopted]\<rparr>) [])) = Inl e"
proof -
  let ?ev = "\<lparr>ev_curve = addr_bytes 5, ev_token = addr_bytes 6, ev_owner = addr_bytes 7, ev_name = ''Coin'',
      ev_symbol = ''C'', ev_curve_supply = 1000, ev_graduation_srx_threshold = 100\<rparr>"
  have "\<And>k. logs_in_range s_cb_node2 (BlockHeight 1178667) (BlockHeight 1178695) (Some s_factory) k
      = Inr (s_curve_log 1 9 # [])"
    by (simp add: logs_in_range_def s_cb_node2_def as_u64_def u64_try_from_i64_def less_block_height_def)
  moreover have "take 1 (rl_topics (s_curve_log 1 9)) = [topic_curve_created s_abi]"
    and "decode_curve_created s_abi (rl_topics (s_curve_log 1 9)) (rl_data (s_curve_log 1 9)) = Inr ?ev"
    by (simp_all add: s_curve_log_def s_abi_def)
  moreover have "cb_hex_addr ext_ref (addr_bytes 5) \<noteq> ''0xaa''" by code_simp
  ultimately show ?thesis
    by (intro conjunct1 [OF duplicate_token_stalls [where l = "s_curve_log 1 9" and rest = "[]" and ev = ?ev]])
      (simp_all add: s_adopted_def curve_rows_def)
qed



lemma apply_curve_created_Inr:
  assumes "apply_curve_created x a l w = (Inr (), w1)"
  shows "\<exists>ev t. decode_curve_created a (rl_topics l) (rl_data l) = Inr ev \<and>
    it_curve_address t = cb_hex_addr x (ev_curve ev) \<and> cb_tokens_insert t w = (Inr (), w1)"
proof -
  from assms obtain b h ev where
    "decode_log (decode_curve_created a) l = Inr ev"
    "cb_tokens_insert \<lparr>it_curve_address = cb_hex_addr x (ev_curve ev),
         it_token_address = cb_hex_addr x (ev_token ev), it_owner_address = cb_hex_addr x (ev_owner ev),
         it_name = ev_name ev, it_symbol = ev_symbol ev, it_curve_supply = Wei (ev_curve_supply ev),
         it_graduation_threshold = Wei (ev_graduation_srx_threshold ev),
         it_created_block = b, it_created_tx_hash = h\<rparr> w = (Inr (), w1)"
    by (auto simp: apply_curve_created_def bind_io_Inr lift_io_def map_err_io_Inr)
  then show ?thesis
    by (intro exI conjI) (auto simp: decode_log_def map_err_def split: sum.splits)
qed

text \<open>An announced curve is not remembered. After a CurveCreated log the curve has a row, but the
  worker's set of known curves gained the emitter of the log, the factory, and not the curve; its
  trades depend on the probe of \<open>try_adopt\<close> like those of any stranger.\<close>

lemma announced_curve_not_known:
  assumes "factory_log x a l w = (Inr (), w')" and "take 1 (rl_topics l) = [topic_curve_created a]"
    and "cb_inv f (w_db w)"
  shows "known_curves w' = insert (emitter_of x l) (known_curves w) \<and>
    (\<exists>ev. decode_curve_created a (rl_topics l) (rl_data l) = Inr ev \<and>
      (cb_hex_addr x (ev_curve ev) \<noteq> f \<longrightarrow> cb_hex_addr x (ev_curve ev) \<in> curve_rows (w_db w')))"
proof -
  from assms(1,2) obtain w1 where ap: "apply_curve_created x a l w = (Inr (), w1)"
    and w': "w' = w1\<lparr>known_curves := insert (emitter_of x l) (known_curves w1)\<rparr>"
    by (auto simp: factory_log_def bind_io_Inr note_curve_def emitter_of_def)
  from apply_curve_created_Inr [OF ap] obtain ev t where
    ev: "decode_curve_created a (rl_topics l) (rl_data l) = Inr ev"
    and t: "it_curve_address t = cb_hex_addr x (ev_curve ev)" "cb_tokens_insert t w = (Inr (), w1)"
    by blast
  have "only_db (cb_tokens_insert t)"
    unfolding cb_tokens_insert_def by (intro only_db_intros)
  from only_dbD [OF this t(2)] have "known_curves w1 = known_curves w"
    by (metis (no_types, lifting) cb_world.select_convs(1) cb_world.surjective world.update_convs)
  moreover have "cb_hex_addr x (ev_curve ev) \<noteq> f \<longrightarrow> cb_hex_addr x (ev_curve ev) \<in> curve_rows (w_db w')"
    using tokens_insert_inv(4) [OF t(2) assms(3)] t(1) w' by simp
  ultimately show ?thesis using ev w' by simp
qed

lemma announced_curve_not_known_witness:
  "known_curves (snd (factory_log ext_ref s_abi (s_curve_log 1 9) (s_cb_world empty_db []))) =
     {cb_hex_addr ext_ref s_factory}"
proof -
  let ?l = "s_curve_log 1 9"
  have "fst (factory_log ext_ref s_abi ?l (s_cb_world empty_db [])) = Inr ()" by code_simp
  then obtain w' where "factory_log ext_ref s_abi ?l (s_cb_world empty_db []) = (Inr (), w')"
    by (metis prod.collapse)
  from announced_curve_not_known [OF this, of "[]"] this show ?thesis
    by (simp add: s_curve_log_def s_abi_def emitter_of_def cb_hex_addr_def s_factory_def)
qed

text \<open>Prices are whole units. The last price is the quotient of the two amounts rounded down, so it
  is zero whenever fewer base units of SRX than of the token changed hands.\<close>

lemma price_rounds_down:
  assumes "wei_val tokens \<noteq> 0"
  shows "let p = unat (wei_val (price_per_token srx tokens)) in
    p * unat (wei_val tokens) \<le> unat (wei_val srx) \<and>
    unat (wei_val srx) < (p + 1) * unat (wei_val tokens) \<and>
    (wei_val srx < wei_val tokens \<longrightarrow> price_per_token srx tokens = wei_zero)"
proof -
  let ?s = "unat (wei_val srx)" and ?t = "unat (wei_val tokens)"
  have p: "unat (wei_val (price_per_token srx tokens)) = ?s div ?t"
    using assms by (simp add: price_per_token_def unat_div)
  have pos: "0 < ?t" using assms by (simp add: unat_gt_0)
  have "?s < (?s div ?t + 1) * ?t"
    using dividend_less_div_times [OF pos, of ?s] by simp
  moreover have "wei_val srx < wei_val tokens \<longrightarrow> price_per_token srx tokens = wei_zero"
    using assms by (simp add: price_per_token_def wei_zero_def word_less_nat_alt word_arith_nat_div)
  ultimately show ?thesis
    by (simp add: p Let_def)
qed

lemma price_rounds_down_witness:
  "price_per_token (Wei 3) (Wei 4) = wei_zero \<and> unat (wei_val (price_per_token (Wei 9) (Wei 4))) * 4 \<le> 9"
  using price_rounds_down [of "Wei 4" "Wei 3"] price_rounds_down [of "Wei 4" "Wei 9"]
  by (simp add: Let_def)

end
