(* ===== verification/Queries.thy ===== *)
theory Queries
  imports Tables_Laws "HOL-Library.Multiset" "HOL-Library.Char_ord" "HOL-Library.List_Lexorder"
begin

text \<open>
  The read side of the crate \<open>indexer-db\<close>: the queries of \<open>blocks.rs\<close>, \<open>transactions.rs\<close>,
  \<open>logs.rs\<close>, \<open>token_transfers.rs\<close>, \<open>addresses.rs\<close>, \<open>cb_queries.rs\<close> and \<open>stats.rs\<close> the HTTP and
  GraphQL routes are built on, the history backfill of the address registry, and the materialised
  view of \<open>migrations/0002_stats_daily_mv.sql\<close>.

  \<open>ORDER BY\<close> is a stable sort: rows PostgreSQL may return in any order (ties) come in the order they
  were inserted. Strings order by character code, as the collation \<open>C\<close> does.
\<close>

section \<open>Fetching\<close>

definition order_asc :: "('r \<Rightarrow> 'k::linorder) \<Rightarrow> 'r list \<Rightarrow> 'r list" where
  "order_asc k rows = sort_key k rows"

definition order_desc :: "('r \<Rightarrow> int) \<Rightarrow> 'r list \<Rightarrow> 'r list" where
  "order_desc k rows = sort_key (\<lambda>r. - k r) rows"

text \<open>\<open>fetch_all\<close> and \<open>fetch_optional\<close> with the decoding of the rows: the first bad row fails.\<close>

definition fetch_all :: "('r \<Rightarrow> sqlx_error + 'a) \<Rightarrow> (db \<Rightarrow> sqlx_error + 'r list) \<Rightarrow>
    ('z world_scheme, db_error, 'a list) io" where
  "fetch_all dec rows = query (\<lambda>d. bind_result (rows d) (collect_results dec))"

definition fetch_optional :: "('r \<Rightarrow> sqlx_error + 'a) \<Rightarrow> (db \<Rightarrow> 'r option) \<Rightarrow>
    ('z world_scheme, db_error, 'a option) io" where
  "fetch_optional dec row = query (\<lambda>d. case row d of None \<Rightarrow> Inr None
     | Some r \<Rightarrow> bind_result (dec r) (\<lambda>v. Inr (Some v)))"

section \<open>Blocks\<close>

definition blocks_get_by_hash :: "hash \<Rightarrow> ('z world_scheme, db_error, block option) io" where
  "blocks_get_by_hash h = fetch_optional row_to_block (\<lambda>d. find (\<lambda>r. br_hash r = h) (tbl_blocks d))"

definition list_before :: "block_height option \<Rightarrow> i64 \<Rightarrow> ('z world_scheme, db_error, block list) io" where
  "list_before before limit =
     fetch_all row_to_block (\<lambda>d. limit_rows limit (order_desc br_height
       (case before of
          Some b \<Rightarrow> filter (\<lambda>r. br_height r \<le> height_val b) (tbl_blocks d)
        | None \<Rightarrow> tbl_blocks d)))"

definition latest_height :: "('z world_scheme, db_error, block_height option) io" where
  "latest_height = query (\<lambda>d. Inr (case map br_height (tbl_blocks d) of
     [] \<Rightarrow> None | h # hs \<Rightarrow> Some (BlockHeight (fold max hs h))))"

section \<open>Transactions and logs\<close>

definition txs_for_block :: "block_height \<Rightarrow> ('z world_scheme, db_error, transaction list) io" where
  "txs_for_block h = fetch_all row_to_tx
     (\<lambda>d. Inr (order_asc tr_tx_index (filter (\<lambda>r. tr_block_height r = height_val h) (tbl_txs d))))"

definition tx_get_by_hash :: "hash \<Rightarrow> ('z world_scheme, db_error, transaction option) io" where
  "tx_get_by_hash h = fetch_optional row_to_tx (\<lambda>d. find (\<lambda>r. tr_hash r = h) (tbl_txs d))"

definition txs_for_address :: "string \<Rightarrow> i64 \<Rightarrow> ('z world_scheme, db_error, transaction list) io" where
  "txs_for_address addr limit = fetch_all row_to_tx
     (\<lambda>d. limit_rows limit (order_desc tr_block_height
        (filter (\<lambda>r. tr_from_addr r = addr \<or> tr_to_addr r = Some addr) (tbl_txs d))))"

definition count_by :: "('r \<Rightarrow> 'k) \<Rightarrow> 'r list \<Rightarrow> ('k \<times> i64) list" where
  "count_by k rows = map (\<lambda>a. (a, int (length (filter (\<lambda>r. k r = a) rows)))) (remdups (map k rows))"

definition top_senders :: "i64 \<Rightarrow> ('z world_scheme, db_error, (string \<times> i64) list) io" where
  "top_senders limit = fetch_all Inr
     (\<lambda>d. limit_rows limit (order_desc snd (count_by tr_from_addr (tbl_txs d))))"

record top_tx_row =
  tp_hash :: string
  tp_from_addr :: string
  tp_to_addr :: "string option"
  tp_value :: string
  tp_block_height :: i64
  tp_timestamp :: i64

text \<open>\<open>numeric::text\<close> of an integral value is its decimal representation.\<close>

definition numeric_text :: "int \<Rightarrow> string" where
  "numeric_text v = i64_to_string v"

definition join_blocks :: "db \<Rightarrow> (tx_row \<times> block_row) list" where
  "join_blocks d = concat (map (\<lambda>t. map (Pair t)
     (filter (\<lambda>b. br_height b = tr_block_height t) (tbl_blocks d))) (tbl_txs d))"

definition top_by_value :: "i64 \<Rightarrow> ('z world_scheme, db_error, top_tx_row list) io" where
  "top_by_value limit = fetch_all
     (\<lambda>(t, b). Inr \<lparr>tp_hash = tr_hash t, tp_from_addr = tr_from_addr t, tp_to_addr = tr_to_addr t,
        tp_value = numeric_text (tr_value t), tp_block_height = tr_block_height t,
        tp_timestamp = br_timestamp b\<rparr>)
     (\<lambda>d. limit_rows limit (order_desc (\<lambda>(t, b). tr_value t)
        (order_desc (\<lambda>(t, b). tr_block_height t) (join_blocks d))))"

text \<open>\<open>DELETE FROM transactions WHERE block_height = ..\<close>, with the cascade to the logs.\<close>

definition delete_txs_stmt :: "i64 \<Rightarrow> (db, sqlx_error, nat) io" where
  "delete_txs_stmt h d =
     (let gone = map tr_hash (filter (\<lambda>t. tr_block_height t = h) (tbl_txs d)) in
      (Inr (length gone),
       d\<lparr>tbl_txs := filter (\<lambda>t. tr_block_height t \<noteq> h) (tbl_txs d),
         tbl_logs := filter (\<lambda>l. lr_tx_hash l \<notin> set gone) (tbl_logs d)\<rparr>))"

definition delete_for_block :: "block_height \<Rightarrow> ('z world_scheme, db_error, nat) io" where
  "delete_for_block h = map_err_io DbSqlx (request (delete_txs_stmt (height_val h)))"

definition logs_for_tx :: "hash \<Rightarrow> ('z world_scheme, db_error, log list) io" where
  "logs_for_tx h = fetch_all (\<lambda>r. Inr (row_to_log r))
     (\<lambda>d. Inr (order_asc lr_log_index (filter (\<lambda>r. lr_tx_hash r = h) (tbl_logs d))))"

definition transfers_for_address :: "string \<Rightarrow> string option \<Rightarrow> i64 \<Rightarrow>
    ('z world_scheme, db_error, token_transfer list) io" where
  "transfers_for_address addr standard limit = fetch_all row_to_transfer
     (\<lambda>d. limit_rows limit (order_desc fr_block_height
        (filter (\<lambda>r. (fr_from_addr r = addr \<or> fr_to_addr r = addr) \<and>
           (case standard of None \<Rightarrow> True | Some s \<Rightarrow> fr_standard r = s)) (tbl_transfers d))))"

definition transfers_for_block :: "block_height \<Rightarrow> ('z world_scheme, db_error, token_transfer list) io" where
  "transfers_for_block h = fetch_all row_to_transfer
     (\<lambda>d. Inr (order_asc fr_log_index (filter (\<lambda>r. fr_block_height r = height_val h) (tbl_transfers d))))"

section \<open>Addresses\<close>

record contract_row =
  cn_address :: string
  cn_first_seen_block :: i64
  cn_last_seen_block :: i64
  cn_code_hash :: "string option"

definition list_contracts :: "i64 \<Rightarrow> bool \<Rightarrow> ('z world_scheme, db_error, contract_row list) io" where
  "list_contracts limit ascending = fetch_all
     (\<lambda>r. Inr \<lparr>cn_address = ar_address r, cn_first_seen_block = ar_first_seen r,
        cn_last_seen_block = ar_last_seen r, cn_code_hash = ar_code_hash r\<rparr>)
     (\<lambda>d. let rows = order_asc ar_address (filter ar_is_contract (tbl_addresses d)) in
        limit_rows limit (if ascending then order_asc ar_first_seen rows else order_desc ar_first_seen rows))"

definition addresses_count :: "('z world_scheme, db_error, i64) io" where
  "addresses_count = query (\<lambda>d. Inr (int (length (tbl_addresses d))))"

text \<open>The \<open>UNION ALL\<close> of senders and receivers, grouped by address.\<close>

definition sightings :: "db \<Rightarrow> (string \<times> i64) list" where
  "sightings d = map (\<lambda>t. (tr_from_addr t, tr_block_height t)) (tbl_txs d) @
     List.map_filter (\<lambda>t. map_option (\<lambda>a. (a, tr_block_height t)) (tr_to_addr t)) (tbl_txs d)"

definition seen_heights :: "string \<Rightarrow> (string \<times> i64) list \<Rightarrow> i64 list" where
  "seen_heights a ss = map snd (filter (\<lambda>s. fst s = a) ss)"

definition history_row :: "(string \<times> i64) list \<Rightarrow> string \<Rightarrow> address_row" where
  "history_row ss a =
     \<lparr>ar_address = a, ar_first_seen = Min (set (seen_heights a ss)),
       ar_last_seen = Max (set (seen_heights a ss)), ar_is_contract = False, ar_code_hash = None\<rparr>"

definition history_stmt :: "(db, sqlx_error, nat) io" where
  "history_stmt d =
     (let ss = sightings d;
          fresh = filter (\<lambda>a. a \<notin> ar_address ` set (tbl_addresses d)) (remdups (map fst ss))
      in if \<not> list_all (\<lambda>s. varchar_fits 42 (fst s)) ss then (Inl (SqlxDatabase StringTruncation), d)
         else (Inr (length fresh), d\<lparr>tbl_addresses := tbl_addresses d @ map (history_row ss) fresh\<rparr>))"

definition backfill_from_transactions :: "('z world_scheme, db_error, nat) io" where
  "backfill_from_transactions = map_err_io DbSqlx (request history_stmt)"

section \<open>Launchpad\<close>

record cb_token =
  kt_curve_address :: string
  kt_token_address :: string
  kt_owner_address :: string
  kt_name :: string
  kt_symbol :: string
  kt_curve_supply :: string
  kt_graduation_threshold :: string
  kt_is_graduated :: bool
  kt_created_block :: i64
  kt_created_tx_hash :: string
  kt_total_volume_srx :: string
  kt_trade_count :: i32
  kt_last_price_srx :: string

record cb_trade =
  kr_id :: i64
  kr_curve_address :: string
  kr_kind :: string
  kr_trader_address :: string
  kr_srx_amount :: string
  kr_token_amount :: string
  kr_fee :: string
  kr_block_number :: i64
  kr_tx_hash :: string
  kr_log_index :: i32

definition row_to_token :: "cb_token_row \<Rightarrow> cb_token" where
  "row_to_token r = \<lparr>kt_curve_address = ct_curve r, kt_token_address = ct_token r,
     kt_owner_address = ct_owner r, kt_name = ct_name r, kt_symbol = ct_symbol r,
     kt_curve_supply = numeric_text (ct_supply r),
     kt_graduation_threshold = numeric_text (ct_threshold r), kt_is_graduated = ct_graduated r,
     kt_created_block = ct_created_block r, kt_created_tx_hash = ct_created_tx r,
     kt_total_volume_srx = numeric_text (ct_volume r), kt_trade_count = ct_trade_count r,
     kt_last_price_srx = numeric_text (ct_last_price r)\<rparr>"

definition row_to_trade :: "cb_trade_row \<Rightarrow> cb_trade" where
  "row_to_trade r = \<lparr>kr_id = cr_id r, kr_curve_address = cr_curve r, kr_kind = cr_type r,
     kr_trader_address = cr_trader r, kr_srx_amount = numeric_text (cr_srx r),
     kr_token_amount = numeric_text (cr_tokens r), kr_fee = numeric_text (cr_fee r),
     kr_block_number = cr_block r, kr_tx_hash = cr_tx_hash r, kr_log_index = cr_log_index r\<rparr>"

definition list_tokens :: "i64 \<Rightarrow> ('z world_scheme, db_error, cb_token list) io" where
  "list_tokens limit = fetch_all (\<lambda>r. Inr (row_to_token r))
     (\<lambda>d. limit_rows limit (order_desc ct_created_block (tbl_cb_tokens d)))"

definition get_token :: "string \<Rightarrow> ('z world_scheme, db_error, cb_token option) io" where
  "get_token curve = fetch_optional (\<lambda>r. Inr (row_to_token r))
     (\<lambda>d. find (\<lambda>r. ct_curve r = curve) (tbl_cb_tokens d))"

definition list_trades :: "string option \<Rightarrow> i64 \<Rightarrow> ('z world_scheme, db_error, cb_trade list) io" where
  "list_trades curve limit = fetch_all (\<lambda>r. Inr (row_to_trade r))
     (\<lambda>d. limit_rows limit (order_desc cr_block (order_desc cr_log_index
        (case curve of
           Some c \<Rightarrow> filter (\<lambda>r. cr_curve r = c) (tbl_cb_trades d)
         | None \<Rightarrow> tbl_cb_trades d))))"

section \<open>Daily statistics\<close>

record daily_mv_row =
  dm_day_bucket :: i64
  dm_block_count :: i64
  dm_tx_count :: i64
  dm_gas_used :: i64
  dm_first_height :: i64
  dm_last_height :: i64

text \<open>\<open>bigint / bigint\<close> truncates toward zero.\<close>

definition pg_div :: "i64 \<Rightarrow> i64 \<Rightarrow> i64" where
  "pg_div a b = sgn a * sgn b * (\<bar>a\<bar> div \<bar>b\<bar>)"

definition day_bucket :: "block_row \<Rightarrow> i64" where
  "day_bucket r = pg_div (br_timestamp r) 86400"

definition daily_row :: "block_row list \<Rightarrow> i64 \<Rightarrow> daily_mv_row" where
  "daily_row blocks day =
     (let rs = filter (\<lambda>r. day_bucket r = day) blocks in
      \<lparr>dm_day_bucket = day, dm_block_count = int (length rs), dm_tx_count = sum_list (map br_tx_count rs),
        dm_gas_used = sum_list (map br_gas_used rs), dm_first_height = Min (set (map br_height rs)),
        dm_last_height = Max (set (map br_height rs))\<rparr>)"

definition daily_view :: "block_row list \<Rightarrow> sqlx_error + daily_mv_row list" where
  "daily_view blocks =
     (let rows = map (daily_row blocks) (remdups (map day_bucket blocks)) in
      if list_all (\<lambda>r. in_i64 (dm_tx_count r) \<and> in_i64 (dm_gas_used r)) rows then Inr rows
      else Inl (SqlxDatabase NumericOutOfRange))"

text \<open>The world of the reader and the refresher: the database and the stored rows of the view.\<close>

record stats_world = world +
  stats_daily_mv :: "daily_mv_row list"

definition refresh_view :: "('z stats_world_scheme, sqlx_error, unit) io" where
  "refresh_view w =
     (case daily_view (tbl_blocks (w_db w)) of
        Inl e \<Rightarrow> (Inl e, w)
      | Inr rows \<Rightarrow> (Inr (), w\<lparr>stats_daily_mv := rows\<rparr>))"

text \<open>\<open>REFRESH MATERIALIZED VIEW\<close>, with the outcome of the connection as in \<open>request\<close>.\<close>

definition stats_refresh_full :: "('z stats_world_scheme, db_error, unit) io" where
  "stats_refresh_full w =
     (case w_net w of
        Refused # ns \<Rightarrow> (Inl (DbSqlx SqlxIo), w\<lparr>w_net := ns\<rparr>)
      | AckLost # ns \<Rightarrow> (Inl (DbSqlx SqlxIo), (snd (refresh_view w))\<lparr>w_net := ns\<rparr>)
      | ns \<Rightarrow> (case refresh_view w of (r, w') \<Rightarrow> (map_err DbSqlx r, w'\<lparr>w_net := tl ns\<rparr>)))"

text \<open>
  \<open>REFRESH .. CONCURRENTLY\<close> leaves the same rows; it needs a populated view, which
  \<open>CREATE MATERIALIZED VIEW .. AS\<close> without \<open>WITH NO DATA\<close> is from the start.
\<close>

definition stats_refresh :: "('z stats_world_scheme, db_error, unit) io" where
  "stats_refresh = stats_refresh_full"

record stats_daily_row =
  sd_date :: string
  sd_blocks :: i64
  sd_transactions :: i64

text \<open>\<open>to_date\<close> stands for \<open>to_char(to_timestamp(day * 86400) AT TIME ZONE 'UTC', 'YYYY-MM-DD')\<close>.\<close>

definition stats_daily :: "(i64 \<Rightarrow> string) \<Rightarrow> i64 \<Rightarrow>
    ('z stats_world_scheme, db_error, stats_daily_row list) io" where
  "stats_daily to_date limit w =
     fetch_all (\<lambda>r. Inr \<lparr>sd_date = to_date (dm_day_bucket r), sd_blocks = dm_block_count r,
         sd_transactions = dm_tx_count r\<rparr>)
       (\<lambda>_. limit_rows limit (order_desc dm_day_bucket (stats_daily_mv w))) w"

section \<open>Facts\<close>

lemma order_mset [simp]: "mset (order_asc k rows) = mset rows" "mset (order_desc g rows) = mset rows"
  by (simp_all add: order_asc_def order_desc_def)

lemma order_set [simp]: "set (order_asc k rows) = set rows" "set (order_desc g rows) = set rows"
  by (simp_all add: order_asc_def order_desc_def)

lemma order_length [simp]: "length (order_asc k rows) = length rows" "length (order_desc g rows) = length rows"
  by (simp_all add: order_asc_def order_desc_def)

lemma order_asc_sorted: "sorted (map k (order_asc k rows))"
  by (simp add: order_asc_def)

lemma order_desc_sorted: "sorted_wrt (\<ge>) (map g (order_desc g rows))"
proof -
  have "sorted (map (\<lambda>r. - g r) (sort_key (\<lambda>r. - g r) rows))" by simp
  then show ?thesis by (simp add: order_desc_def sorted_map sorted_wrt_map)
qed

lemma order_asc_id: "sorted (map k rows) \<Longrightarrow> order_asc k rows = rows"
  by (simp add: order_asc_def sort_key_id_if_sorted)

text \<open>A query answers from the database as it is, and changes nothing.\<close>

lemma query_run:
  assumes "query f w = (r, w')"
  shows "w_db w' = w_db w" "r = Inr v \<Longrightarrow> f (w_db w) = Inr v"
  using assms
  by (auto simp: query_def map_err_io_def map_err_def request_def statement_def
      split: list.splits pg_outcome.splits sum.splits prod.splits)

lemma query_answered:
  assumes "w_net w = []"
  shows "query f w = (map_err DbSqlx (f (w_db w)), w)"
  using assms by (cases "f (w_db w)") (simp_all add: query_def map_err_io_def request_def statement_def)

lemma fetch_all_Inr:
  assumes "fetch_all dec rows w = (Inr vs, w')"
  shows "\<exists>rs. rows (w_db w) = Inr rs \<and> collect_results dec rs = Inr vs"
  using query_run(2) [OF assms [unfolded fetch_all_def] refl] by (simp add: bind_result_Inr)

end
