(* ===== verification/Cache.thy ===== *)
theory Cache
  imports Queries
begin

text \<open>
  \<open>crates/cache\<close> (\<open>breaker.rs\<close>, \<open>client.rs\<close>) and \<open>crates/api/src/cached.rs\<close>: the circuit breaker,
  the Redis client behind it and the read-through helper of the routes.

  Time is a number of nanoseconds. A call to Redis consumes one outcome: what becomes of it and how
  long it takes; an exhausted list means that every further call is answered at once. Redis itself
  is a map from keys to a body and the instant it expires (\<open>SET .. EX\<close>); that it may drop a key at
  any time is a step of the environment. The JSON coding of a value is the parameter \<open>codec\<close>.
\<close>

section \<open>Circuit breaker\<close>

record circuit_breaker =
  cb_failures :: u32
  cb_threshold :: u32
  cb_open_for :: nat
  cb_open_until :: "nat option"

definition breaker_new :: "u32 \<Rightarrow> nat \<Rightarrow> circuit_breaker" where
  "breaker_new threshold open_for = \<lparr>cb_failures = 0, cb_threshold = threshold,
     cb_open_for = open_for, cb_open_until = None\<rparr>"

definition is_open :: "nat \<Rightarrow> circuit_breaker \<Rightarrow> bool \<times> circuit_breaker" where
  "is_open t b =
     (case cb_open_until b of
        Some until \<Rightarrow> if t < until then (True, b) else (False, b\<lparr>cb_open_until := None, cb_failures := 0\<rparr>)
      | None \<Rightarrow> (False, b))"

definition record_success :: "circuit_breaker \<Rightarrow> circuit_breaker" where
  "record_success b = b\<lparr>cb_failures := 0\<rparr>"

text \<open>The counter wraps, as \<open>fetch_add\<close> does.\<close>

definition record_failure :: "nat \<Rightarrow> circuit_breaker \<Rightarrow> circuit_breaker" where
  "record_failure t b =
     (let b' = b\<lparr>cb_failures := cb_failures b + 1\<rparr> in
      if cb_threshold b \<le> cb_failures b + 1 then b'\<lparr>cb_open_until := Some (t + cb_open_for b)\<rparr> else b')"

section \<open>Client\<close>

datatype tier = ChainTier | AddressTier | DetailTier

fun ttl_secs :: "tier \<Rightarrow> nat" where
  "ttl_secs ChainTier = 60"
| "ttl_secs AddressTier = 300"
| "ttl_secs DetailTier = 3600"

record cache_config =
  cg_url :: string
  cg_pool_size :: nat
  cg_key_namespace :: string
  cg_breaker_threshold :: u32
  cg_breaker_open_for :: nat

definition cache_config_new :: "string \<Rightarrow> string \<Rightarrow> cache_config" where
  "cache_config_new url key_namespace = \<lparr>cg_url = url, cg_pool_size = 10, cg_key_namespace = key_namespace,
     cg_breaker_threshold = 5, cg_breaker_open_for = 30 * 10 ^ 9\<rparr>"

datatype cache_error = Redis string | Encode string | Open

text \<open>
  \<open>CacheClient::connect\<close>: parsing the URL, building the pool of the configured size and its first
  connection are fred's; the first failure is the result. The client starts with a closed breaker.
\<close>

definition cache_connect :: "(string \<Rightarrow> string + unit) \<Rightarrow> (nat \<Rightarrow> string + unit) \<Rightarrow> string + unit \<Rightarrow>
    cache_config \<Rightarrow> cache_error + string \<times> circuit_breaker" where
  "cache_connect from_url build_pool init cfg =
     bind_result (map_err Redis (from_url (cg_url cfg))) (\<lambda>_.
     bind_result (map_err Redis (build_pool (cg_pool_size cfg))) (\<lambda>_.
     bind_result (map_err Redis init) (\<lambda>_.
       Inr (cg_key_namespace cfg, breaker_new (cg_breaker_threshold cfg) (cg_breaker_open_for cfg)))))"

datatype redis_outcome = Answered | Unreached | AnswerLost

record api_world = stats_world +
  redis_store :: "string \<Rightarrow> (string \<times> nat) option"
  redis_net :: "(redis_outcome \<times> nat) list"
  breaker :: circuit_breaker
  clock :: nat

record 'v codec =
  to_json :: "'v \<Rightarrow> string + string"
  from_json :: "string \<Rightarrow> string + 'v"

text \<open>One call: \<open>op\<close> acts on the store at the instant the call ends.\<close>

definition redis_call :: "(nat \<Rightarrow> (string \<Rightarrow> (string \<times> nat) option) \<Rightarrow> 'a \<times> (string \<Rightarrow> (string \<times> nat) option)) \<Rightarrow>
    ('z api_world_scheme, string, 'a) io" where
  "redis_call op w =
     (let (oc, d, ns) = (case redis_net w of [] \<Rightarrow> (Answered, 0, []) | (oc, d) # ns \<Rightarrow> (oc, d, ns));
          w1 = w\<lparr>clock := clock w + d, redis_net := ns\<rparr>;
          (a, s) = op (clock w1) (redis_store w)
      in case oc of
           Answered \<Rightarrow> (Inr a, w1\<lparr>redis_store := s\<rparr>)
         | Unreached \<Rightarrow> (Inl ''redis unreachable'', w1)
         | AnswerLost \<Rightarrow> (Inl ''redis timeout'', w1\<lparr>redis_store := s\<rparr>))"

definition redis_get :: "string \<Rightarrow> ('z api_world_scheme, string, string option) io" where
  "redis_get k = redis_call (\<lambda>t s. (case s k of
       None \<Rightarrow> None
     | Some (body, expires) \<Rightarrow> if t < expires then Some body else None, s))"

definition redis_set :: "string \<Rightarrow> string \<Rightarrow> nat \<Rightarrow> ('z api_world_scheme, string, unit) io" where
  "redis_set k body ttl = redis_call (\<lambda>t s. ((), s(k \<mapsto> (body, t + ttl * 10 ^ 9))))"

definition redis_del :: "string \<Rightarrow> ('z api_world_scheme, string, unit) io" where
  "redis_del k = redis_call (\<lambda>t s. ((), s(k := None)))"

definition full_key :: "string \<Rightarrow> string \<Rightarrow> string" where
  "full_key namespace k = namespace @ '':'' @ k"

definition breaker_open :: "'z api_world_scheme \<Rightarrow> bool \<times> 'z api_world_scheme" where
  "breaker_open w = (case is_open (clock w) (breaker w) of (b, br) \<Rightarrow> (b, w\<lparr>breaker := br\<rparr>))"

text \<open>What every client operation does: ask the breaker, call, tell the breaker.\<close>

definition guarded :: "('z api_world_scheme, string, 'a) io \<Rightarrow> ('z api_world_scheme, cache_error, 'a) io" where
  "guarded call w =
     (case breaker_open w of
        (True, w1) \<Rightarrow> (Inl Open, w1)
      | (False, w1) \<Rightarrow>
          (case call w1 of
             (Inl e, w2) \<Rightarrow> (Inl (Redis e), w2\<lparr>breaker := record_failure (clock w2) (breaker w2)\<rparr>)
           | (Inr a, w2) \<Rightarrow> (Inr a, w2\<lparr>breaker := record_success (breaker w2)\<rparr>)))"

definition cache_get :: "string \<Rightarrow> 'v codec \<Rightarrow> string \<Rightarrow> ('z api_world_scheme, cache_error, 'v option) io" where
  "cache_get namespace c key =
     bind_io (guarded (redis_get (full_key namespace key))) (\<lambda>raw.
       case raw of
         None \<Rightarrow> ret_io None
       | Some s \<Rightarrow> lift_io (bind_result (map_err Encode (from_json c s)) (\<lambda>v. Inr (Some v))))"

text \<open>\<open>set\<close> encodes after the breaker's check and before the call.\<close>

definition cache_set :: "string \<Rightarrow> 'v codec \<Rightarrow> string \<Rightarrow> 'v \<Rightarrow> tier \<Rightarrow> ('z api_world_scheme, cache_error, unit) io" where
  "cache_set namespace c key v tier w =
     (case to_json c v of
        Inl e \<Rightarrow> (case breaker_open w of (b, w1) \<Rightarrow> (Inl (if b then Open else Encode e), w1))
      | Inr body \<Rightarrow> guarded (redis_set (full_key namespace key) body (ttl_secs tier)) w)"

definition cache_invalidate :: "string \<Rightarrow> string \<Rightarrow> ('z api_world_scheme, cache_error, unit) io" where
  "cache_invalidate namespace key = guarded (redis_del (full_key namespace key))"

section \<open>Read-through\<close>

text \<open>
  \<open>cached::get_or_load\<close>; the first argument is the namespace of the client, \<open>None\<close> when the cache is
  off. An error of the cache never reaches the caller.
\<close>

definition get_or_load :: "string option \<Rightarrow> 'v codec \<Rightarrow> string \<Rightarrow> tier \<Rightarrow> ('z api_world_scheme, 'e, 'v) io \<Rightarrow>
    ('z api_world_scheme, 'e, 'v) io" where
  "get_or_load cache c key tier loader w =
     (case cache of
        None \<Rightarrow> loader w
      | Some namespace \<Rightarrow>
          (case cache_get namespace c key w of
             (Inr (Some hit), w1) \<Rightarrow> (Inr hit, w1)
           | (_, w1) \<Rightarrow>
               (case loader w1 of
                  (Inl e, w2) \<Rightarrow> (Inl e, w2)
                | (Inr v, w2) \<Rightarrow> (Inr v, snd (cache_set namespace c key v tier w2)))))"

end
