(* ===== verification/Serialise.thy ===== *)
theory Serialise
  imports Queries Externals
begin

text \<open>
  The shapes that leave the API: \<open>crates/api/src/serialise.rs\<close> (REST) and the object types of
  \<open>crates/api/src/graphql.rs\<close>. A REST field of type \<open>Wei\<close> is rendered as a decimal string by its
  \<open>Serialize\<close>; a GraphQL field carries that string already.
\<close>

section \<open>REST\<close>

record wire_block =
  wb_height :: string
  wb_hash :: string
  wb_parent_hash :: string
  wb_timestamp :: string
  wb_validator :: string
  wb_gas_used :: string
  wb_gas_limit :: string
  wb_base_fee :: "wei option"
  wb_tx_count :: i32
  wb_state_root :: "string option"
  wb_round :: i32

definition to_wire_block :: "block \<Rightarrow> wire_block" where
  "to_wire_block b = \<lparr>wb_height = i64_to_string (height_val (b_height b)), wb_hash = b_hash b,
     wb_parent_hash = b_parent_hash b, wb_timestamp = i64_to_string (b_timestamp b),
     wb_validator = b_validator b, wb_gas_used = i64_to_string (b_gas_used b),
     wb_gas_limit = i64_to_string (b_gas_limit b), wb_base_fee = b_base_fee b,
     wb_tx_count = b_tx_count b, wb_state_root = b_state_root b, wb_round = b_round b\<rparr>"

record wire_tx =
  wt_hash :: string
  wt_block_height :: string
  wt_tx_index :: i32
  wt_from :: string
  wt_to :: "string option"
  wt_value :: wei
  wt_gas_limit :: string
  wt_gas_used :: "string option"
  wt_gas_price :: "wei option"
  wt_fee :: wei
  wt_nonce :: string
  wt_data :: "string option"
  wt_status :: i16
  wt_contract_address :: "string option"
  wt_tx_type :: string

definition to_wire_tx :: "transaction \<Rightarrow> wire_tx" where
  "to_wire_tx t = \<lparr>wt_hash = t_hash t, wt_block_height = i64_to_string (height_val (t_block_height t)),
     wt_tx_index = tx_index_val (t_tx_index t), wt_from = t_from_addr t, wt_to = t_to_addr t,
     wt_value = t_value t, wt_gas_limit = i64_to_string (t_gas_limit t),
     wt_gas_used = map_option i64_to_string (t_gas_used t), wt_gas_price = t_gas_price t,
     wt_fee = t_fee t, wt_nonce = i64_to_string (t_nonce t), wt_data = t_data t, wt_status = t_status t,
     wt_contract_address = t_contract_address t, wt_tx_type = tx_type_as_str (t_tx_type t)\<rparr>"

record wire_block_with_txs =
  wbt_block :: wire_block
  wbt_transactions :: "wire_tx list"

record wire_log =
  wl_block_height :: string
  wl_tx_hash :: string
  wl_log_index :: i32
  wl_address :: string
  wl_topics :: "string list"
  wl_data :: "string option"

definition some_topics :: "log \<Rightarrow> string list" where
  "some_topics l = List.map_filter (\<lambda>t. t) [l_topic0 l, l_topic1 l, l_topic2 l, l_topic3 l]"

definition to_wire_log :: "log \<Rightarrow> wire_log" where
  "to_wire_log l = \<lparr>wl_block_height = i64_to_string (height_val (l_block_height l)),
     wl_tx_hash = l_tx_hash l, wl_log_index = log_index_val (l_log_index l), wl_address = l_address l,
     wl_topics = some_topics l, wl_data = l_data l\<rparr>"

record wire_transfer =
  wf_id :: "i64 option"
  wf_block_height :: string
  wf_tx_hash :: string
  wf_log_index :: i32
  wf_contract :: string
  wf_standard :: string
  wf_from_addr :: string
  wf_to_addr :: string
  wf_token_id :: "wei option"
  wf_amount :: wei

definition to_wire_transfer :: "token_transfer \<Rightarrow> wire_transfer" where
  "to_wire_transfer t = \<lparr>wf_id = tt_id t, wf_block_height = i64_to_string (height_val (tt_block_height t)),
     wf_tx_hash = tt_tx_hash t, wf_log_index = log_index_val (tt_log_index t),
     wf_contract = tt_contract t, wf_standard = token_standard_as_str (tt_standard t),
     wf_from_addr = tt_from_addr t, wf_to_addr = tt_to_addr t, wf_token_id = tt_token_id t,
     wf_amount = tt_amount t\<rparr>"

section \<open>GraphQL\<close>

record block_gql =
  gb_height :: string
  gb_hash :: string
  gb_parent_hash :: string
  gb_timestamp :: string
  gb_validator :: string
  gb_gas_used :: string
  gb_gas_limit :: string
  gb_base_fee :: "string option"
  gb_tx_count :: i32
  gb_state_root :: "string option"
  gb_round :: i32

definition to_block_gql :: "ext \<Rightarrow> block \<Rightarrow> block_gql" where
  "to_block_gql x b = \<lparr>gb_height = i64_to_string (height_val (b_height b)), gb_hash = b_hash b,
     gb_parent_hash = b_parent_hash b, gb_timestamp = i64_to_string (b_timestamp b),
     gb_validator = b_validator b, gb_gas_used = i64_to_string (b_gas_used b),
     gb_gas_limit = i64_to_string (b_gas_limit b),
     gb_base_fee = map_option (\<lambda>v. u256_to_string x (wei_val v)) (b_base_fee b),
     gb_tx_count = b_tx_count b, gb_state_root = b_state_root b, gb_round = b_round b\<rparr>"

record transaction_gql =
  gt_hash :: string
  gt_block_height :: string
  gt_tx_index :: i32
  gt_from :: string
  gt_to :: "string option"
  gt_value :: string
  gt_gas_limit :: string
  gt_gas_used :: "string option"
  gt_gas_price :: "string option"
  gt_fee :: string
  gt_nonce :: string
  gt_data :: "string option"
  gt_status :: i32
  gt_contract_address :: "string option"
  gt_tx_type :: string

definition to_transaction_gql :: "ext \<Rightarrow> transaction \<Rightarrow> transaction_gql" where
  "to_transaction_gql x t = (let wei_str = (\<lambda>v. u256_to_string x (wei_val v)) in
     \<lparr>gt_hash = t_hash t, gt_block_height = i64_to_string (height_val (t_block_height t)),
       gt_tx_index = tx_index_val (t_tx_index t), gt_from = t_from_addr t, gt_to = t_to_addr t,
       gt_value = wei_str (t_value t), gt_gas_limit = i64_to_string (t_gas_limit t),
       gt_gas_used = map_option i64_to_string (t_gas_used t),
       gt_gas_price = map_option wei_str (t_gas_price t), gt_fee = wei_str (t_fee t),
       gt_nonce = i64_to_string (t_nonce t), gt_data = t_data t, gt_status = t_status t,
       gt_contract_address = t_contract_address t, gt_tx_type = tx_type_as_str (t_tx_type t)\<rparr>)"

record log_gql =
  gl_block_height :: string
  gl_tx_hash :: string
  gl_log_index :: i32
  gl_address :: string
  gl_topics :: "string list"
  gl_data :: "string option"

definition to_log_gql :: "log \<Rightarrow> log_gql" where
  "to_log_gql l = \<lparr>gl_block_height = i64_to_string (height_val (l_block_height l)),
     gl_tx_hash = l_tx_hash l, gl_log_index = log_index_val (l_log_index l), gl_address = l_address l,
     gl_topics = some_topics l, gl_data = l_data l\<rparr>"

record transaction_with_logs =
  gtl_tx :: transaction_gql
  gtl_logs :: "log_gql list"

section \<open>One content, two shapes\<close>

text \<open>What a GraphQL client sees of a REST value.\<close>

definition gql_of_wire_block :: "ext \<Rightarrow> wire_block \<Rightarrow> block_gql" where
  "gql_of_wire_block x b = \<lparr>gb_height = wb_height b, gb_hash = wb_hash b, gb_parent_hash = wb_parent_hash b,
     gb_timestamp = wb_timestamp b, gb_validator = wb_validator b, gb_gas_used = wb_gas_used b,
     gb_gas_limit = wb_gas_limit b,
     gb_base_fee = map_option (\<lambda>v. u256_to_string x (wei_val v)) (wb_base_fee b),
     gb_tx_count = wb_tx_count b, gb_state_root = wb_state_root b, gb_round = wb_round b\<rparr>"

definition gql_of_wire_tx :: "ext \<Rightarrow> wire_tx \<Rightarrow> transaction_gql" where
  "gql_of_wire_tx x t =
     \<lparr>gt_hash = wt_hash t, gt_block_height = wt_block_height t, gt_tx_index = wt_tx_index t,
       gt_from = wt_from t, gt_to = wt_to t, gt_value = u256_to_string x (wei_val (wt_value t)),
       gt_gas_limit = wt_gas_limit t, gt_gas_used = wt_gas_used t,
       gt_gas_price = map_option (\<lambda>v. u256_to_string x (wei_val v)) (wt_gas_price t),
       gt_fee = u256_to_string x (wei_val (wt_fee t)), gt_nonce = wt_nonce t, gt_data = wt_data t,
       gt_status = wt_status t, gt_contract_address = wt_contract_address t, gt_tx_type = wt_tx_type t\<rparr>"

definition gql_of_wire_log :: "wire_log \<Rightarrow> log_gql" where
  "gql_of_wire_log l = \<lparr>gl_block_height = wl_block_height l, gl_tx_hash = wl_tx_hash l,
     gl_log_index = wl_log_index l, gl_address = wl_address l, gl_topics = wl_topics l,
     gl_data = wl_data l\<rparr>"

lemma gql_of_wire [simp]:
  "gql_of_wire_block x (to_wire_block b) = to_block_gql x b"
  "gql_of_wire_tx x (to_wire_tx t) = to_transaction_gql x t"
  "gql_of_wire_log (to_wire_log l) = to_log_gql l"
  by (simp_all add: gql_of_wire_block_def to_wire_block_def to_block_gql_def gql_of_wire_tx_def
      to_wire_tx_def to_transaction_gql_def gql_of_wire_log_def to_wire_log_def to_log_gql_def Let_def)

end
