(* ===== verification/Api.thy ===== *)
theory Api
  imports Cache Serialise
begin

text \<open>
  \<open>crates/api\<close>: errors and their responses, the bearer-token guard, the parsing of parameters, the
  REST routes, the Etherscan-compatible endpoint, the readiness probe and the GraphQL resolvers. A
  handler is an operation on the \<open>api_world\<close>; its result is the error or the body of the response.
\<close>

section \<open>Errors\<close>

datatype api_error =
    InvalidQuery string
  | ResourceNotFound string
  | ApiDb db_error
  | ApiSqlx sqlx_error

fun api_error_code :: "api_error \<Rightarrow> string" where
  "api_error_code (InvalidQuery _) = ''invalid_query''"
| "api_error_code (ResourceNotFound _) = ''not_found''"
| "api_error_code (ApiDb _) = ''internal''"
| "api_error_code (ApiSqlx _) = ''internal''"

fun api_error_status :: "api_error \<Rightarrow> nat" where
  "api_error_status (InvalidQuery _) = 400"
| "api_error_status (ResourceNotFound _) = 404"
| "api_error_status (ApiDb _) = 500"
| "api_error_status (ApiSqlx _) = 500"

fun user_message :: "api_error \<Rightarrow> string" where
  "user_message (InvalidQuery msg) = msg"
| "user_message (ResourceNotFound what) = what @ '' not found''"
| "user_message (ApiDb _) = ''internal server error''"
| "user_message (ApiSqlx _) = ''internal server error''"

definition error_response :: "api_error \<Rightarrow> nat \<times> json" where
  "error_response e = (api_error_status e,
     JObject [(''error'', JString (user_message e)), (''code'', JString (api_error_code e))])"

text \<open>
  \<open>request_id_middleware\<close>: the caller's id, or 16 hex digits of the clock (seconds above bit 32, then
  nanoseconds) mixed with the process-wide counter, which only advances in that case.
\<close>

definition fresh_request_id :: "ext \<Rightarrow> u64 \<Rightarrow> u64 \<Rightarrow> u64 \<Rightarrow> string" where
  "fresh_request_id x secs nanos seq =
     (let clock = or nanos (push_bit 32 secs) in
      hex_encode x (be_bytes 8 (unat (xor clock seq))))"

definition request_id :: "ext \<Rightarrow> string option \<Rightarrow> u64 \<Rightarrow> u64 \<Rightarrow> u64 \<Rightarrow> string \<times> u64" where
  "request_id x header secs nanos seq =
     (case header of
        Some s \<Rightarrow> (s, seq)
      | None \<Rightarrow> (fresh_request_id x secs nanos seq, seq + 1))"

section \<open>Bearer token\<close>

text \<open>\<open>header\<close> is the \<open>Authorization\<close> header when it is present and readable as text.\<close>

definition require_bearer :: "string option \<Rightarrow> string \<Rightarrow> string option \<Rightarrow> bool" where
  "require_bearer expected path header =
     (if path = ''/health'' then True
      else case expected of
        None \<Rightarrow> True
      | Some token \<Rightarrow>
          (case Option.bind header (\<lambda>h. map_option trim (strip_prefix ''Bearer '' h)) of
             Some presented \<Rightarrow> presented = token
           | None \<Rightarrow> False))"

definition unauthorized :: "nat \<times> json" where
  "unauthorized = (401, JObject [(''error'', JString ''unauthorized'')])"

section \<open>Parameters\<close>

definition default_limit :: i64 where "default_limit = 25"
definition max_limit :: i64 where "max_limit = 100"

definition clamp_limit :: "string option \<Rightarrow> i64" where
  "clamp_limit raw =
     (case Option.bind raw parse_i64 of
        Some n \<Rightarrow> if 0 < n then min n max_limit else default_limit
      | None \<Rightarrow> default_limit)"

definition parse_before :: "string option \<Rightarrow> api_error + block_height option" where
  "parse_before raw =
     (case raw of
        None \<Rightarrow> Inr None
      | Some s \<Rightarrow> bind_result (ok_or (InvalidQuery ''invalid before: must be a non-negative integer'')
          (parse_i64 s)) (\<lambda>n. Inr (Some (BlockHeight n))))"

definition parse_height :: "string \<Rightarrow> api_error + block_height" where
  "parse_height s =
     bind_result (ok_or (InvalidQuery ''invalid height: must be a non-negative integer'') (parse_i64 s))
       (\<lambda>n. Inr (BlockHeight n))"

section \<open>Blocks, transactions and addresses\<close>

record list_response =
  ls_blocks :: "wire_block list"
  ls_next_cursor :: "string option"

definition blocks_key :: "i64 \<Rightarrow> block_height option \<Rightarrow> string" where
  "blocks_key limit before = ''blocks:list:'' @ i64_to_string limit @ '':'' @
     (case before of None \<Rightarrow> ''tip'' | Some b \<Rightarrow> i64_to_string (height_val b))"

definition next_cursor :: "block list \<Rightarrow> string option" where
  "next_cursor rows =
     (if rows = [] then None
      else let h = height_val (b_height (last rows)) in
        if 0 < h then Some (i64_to_string (h - 1)) else None)"

definition load_blocks :: "block_height option \<Rightarrow> i64 \<Rightarrow> ('z world_scheme, api_error, list_response) io" where
  "load_blocks before limit =
     bind_io (map_err_io ApiDb (list_before before limit)) (\<lambda>rows.
       ret_io \<lparr>ls_blocks = map to_wire_block rows, ls_next_cursor = next_cursor rows\<rparr>)"

definition blocks_list :: "string option \<Rightarrow> list_response codec \<Rightarrow> string option \<Rightarrow> string option \<Rightarrow>
    ('z api_world_scheme, api_error, list_response) io" where
  "blocks_list cache c limit_raw before_raw =
     (let limit = clamp_limit limit_raw in
      bind_io (lift_io (parse_before before_raw)) (\<lambda>before.
        get_or_load cache c (blocks_key limit before) ChainTier (load_blocks before limit)))"

definition block_detail :: "string \<Rightarrow> ('z world_scheme, api_error, wire_block_with_txs) io" where
  "block_detail height_str =
     bind_io (lift_io (parse_height height_str)) (\<lambda>h.
     bind_io (map_err_io ApiDb (blocks_get_by_height h)) (\<lambda>row.
     bind_io (lift_io (ok_or (ResourceNotFound ''block'') row)) (\<lambda>block.
     bind_io (map_err_io ApiDb (txs_for_block h)) (\<lambda>txs.
       ret_io \<lparr>wbt_block = to_wire_block block, wbt_transactions = map to_wire_tx txs\<rparr>))))"

record tx_response =
  tx_tx :: wire_tx
  tx_logs :: "wire_log list"
  tx_block_timestamp :: i64

definition tx_detail :: "string \<Rightarrow> ('z world_scheme, api_error, tx_response) io" where
  "tx_detail raw =
     (let h = to_lowercase raw in
      bind_io (map_err_io ApiDb (tx_get_by_hash h)) (\<lambda>row.
      bind_io (lift_io (ok_or (ResourceNotFound ''tx'') row)) (\<lambda>tx.
      bind_io (map_err_io ApiDb (logs_for_tx h)) (\<lambda>log_rows.
      bind_io (map_err_io ApiDb (blocks_get_by_height (t_block_height tx))) (\<lambda>block.
        ret_io \<lparr>tx_tx = to_wire_tx tx, tx_logs = map to_wire_log log_rows,
          tx_block_timestamp = (case block of None \<Rightarrow> 0 | Some b \<Rightarrow> b_timestamp b)\<rparr>)))))"

definition address_txs :: "string \<Rightarrow> string option \<Rightarrow> ('z world_scheme, api_error, wire_tx list) io" where
  "address_txs addr limit_raw =
     bind_io (map_err_io ApiDb (txs_for_address (to_lowercase addr) (clamp_limit limit_raw)))
       (\<lambda>rows. ret_io (map to_wire_tx rows))"

definition address_transfers :: "string \<Rightarrow> string option \<Rightarrow> string option \<Rightarrow>
    ('z world_scheme, api_error, wire_transfer list) io" where
  "address_transfers addr standard limit_raw =
     bind_io (map_err_io ApiDb (transfers_for_address (to_lowercase addr) standard (clamp_limit limit_raw)))
       (\<lambda>rows. ret_io (map to_wire_transfer rows))"

section \<open>Leaderboards\<close>

record active_account =
  aa_rank :: i64
  aa_address :: string
  aa_tx_count :: i64

definition load_active :: "i64 \<Rightarrow> ('z world_scheme, api_error, active_account list) io" where
  "load_active limit = bind_io (map_err_io ApiDb (top_senders limit)) (\<lambda>rows.
     ret_io (map (\<lambda>(i, a, n). \<lparr>aa_rank = int i + 1, aa_address = a, aa_tx_count = n\<rparr>) (enumerate 0 rows)))"

definition accounts_active :: "string option \<Rightarrow> active_account list codec \<Rightarrow> string option \<Rightarrow>
    ('z api_world_scheme, api_error, active_account list) io" where
  "accounts_active cache c limit_raw =
     (let limit = clamp_limit limit_raw in
      get_or_load cache c (''accounts:active:'' @ i64_to_string limit) ChainTier (load_active limit))"

record whale_transfer =
  wh_hash :: string
  wh_from :: string
  wh_to :: "string option"
  wh_value :: string
  wh_block_height :: i64
  wh_timestamp :: i64

definition load_whales :: "i64 \<Rightarrow> ('z world_scheme, api_error, whale_transfer list) io" where
  "load_whales limit = bind_io (map_err_io ApiDb (top_by_value limit)) (\<lambda>rows.
     ret_io (map (\<lambda>r. \<lparr>wh_hash = tp_hash r, wh_from = tp_from_addr r, wh_to = tp_to_addr r,
        wh_value = tp_value r, wh_block_height = tp_block_height r, wh_timestamp = tp_timestamp r\<rparr>) rows))"

definition whale_transfers :: "string option \<Rightarrow> whale_transfer list codec \<Rightarrow> string option \<Rightarrow>
    ('z api_world_scheme, api_error, whale_transfer list) io" where
  "whale_transfers cache c limit_raw =
     (let limit = clamp_limit limit_raw in
      get_or_load cache c (''whale:transfers:'' @ i64_to_string limit) ChainTier (load_whales limit))"

record contract_entry =
  ce_rank :: i64
  ce_address :: string
  ce_first_seen_block :: i64
  ce_last_seen_block :: i64
  ce_code_hash :: "string option"

definition load_contracts :: "i64 \<Rightarrow> bool \<Rightarrow> ('z world_scheme, api_error, contract_entry list) io" where
  "load_contracts limit ascending = bind_io (map_err_io ApiDb (list_contracts limit ascending)) (\<lambda>rows.
     ret_io (map (\<lambda>(i, r). \<lparr>ce_rank = int i + 1, ce_address = cn_address r,
        ce_first_seen_block = cn_first_seen_block r, ce_last_seen_block = cn_last_seen_block r,
        ce_code_hash = cn_code_hash r\<rparr>) (enumerate 0 rows)))"

definition contracts_route :: "string \<Rightarrow> bool \<Rightarrow> string option \<Rightarrow> contract_entry list codec \<Rightarrow> string option \<Rightarrow>
    ('z api_world_scheme, api_error, contract_entry list) io" where
  "contracts_route name ascending cache c limit_raw =
     (let limit = clamp_limit limit_raw in
      get_or_load cache c (''contracts:'' @ name @ '':'' @ i64_to_string limit) ChainTier
        (load_contracts limit ascending))"

definition contracts_recent where "contracts_recent = contracts_route ''recent'' False"
definition contracts_pioneers where "contracts_pioneers = contracts_route ''pioneers'' True"
definition contracts_stats where "contracts_stats = contracts_route ''stats'' False"

definition stats_daily_route :: "(i64 \<Rightarrow> string) \<Rightarrow> string option \<Rightarrow> stats_daily_row list codec \<Rightarrow>
    string option \<Rightarrow> ('z api_world_scheme, api_error, stats_daily_row list) io" where
  "stats_daily_route to_date cache c limit_raw =
     (let limit = clamp_limit limit_raw in
      get_or_load cache c (''stats:daily:'' @ i64_to_string limit) ChainTier
        (map_err_io ApiDb (stats_daily to_date limit)))"

section \<open>Launchpad\<close>

record wire_token =
  wk_curve_address :: string
  wk_token_address :: string
  wk_owner_address :: string
  wk_name :: string
  wk_symbol :: string
  wk_curve_supply :: string
  wk_graduation_threshold :: string
  wk_is_graduated :: bool
  wk_created_block :: i64
  wk_created_tx_hash :: string
  wk_total_volume_srx :: string
  wk_trade_count :: i32
  wk_last_price_srx :: string

definition to_wire_token :: "cb_token \<Rightarrow> wire_token" where
  "to_wire_token r = \<lparr>wk_curve_address = kt_curve_address r, wk_token_address = kt_token_address r,
     wk_owner_address = kt_owner_address r, wk_name = kt_name r, wk_symbol = kt_symbol r,
     wk_curve_supply = kt_curve_supply r, wk_graduation_threshold = kt_graduation_threshold r,
     wk_is_graduated = kt_is_graduated r, wk_created_block = kt_created_block r,
     wk_created_tx_hash = kt_created_tx_hash r, wk_total_volume_srx = kt_total_volume_srx r,
     wk_trade_count = kt_trade_count r, wk_last_price_srx = kt_last_price_srx r\<rparr>"

record wire_trade =
  wr_id :: i64
  wr_curve_address :: string
  wr_kind :: string
  wr_trader_address :: string
  wr_srx_amount :: string
  wr_token_amount :: string
  wr_fee :: string
  wr_block_number :: i64
  wr_tx_hash :: string
  wr_log_index :: i32

definition to_wire_trade :: "cb_trade \<Rightarrow> wire_trade" where
  "to_wire_trade r = \<lparr>wr_id = kr_id r, wr_curve_address = kr_curve_address r, wr_kind = kr_kind r,
     wr_trader_address = kr_trader_address r, wr_srx_amount = kr_srx_amount r,
     wr_token_amount = kr_token_amount r, wr_fee = kr_fee r,
     wr_block_number = kr_block_number r, wr_tx_hash = kr_tx_hash r,
     wr_log_index = kr_log_index r\<rparr>"

definition load_tokens :: "i64 \<Rightarrow> ('z world_scheme, api_error, wire_token list) io" where
  "load_tokens limit = bind_io (map_err_io ApiDb (list_tokens limit)) (\<lambda>rows. ret_io (map to_wire_token rows))"

definition coinblast_tokens :: "string option \<Rightarrow> wire_token list codec \<Rightarrow> string option \<Rightarrow>
    ('z api_world_scheme, api_error, wire_token list) io" where
  "coinblast_tokens cache c limit_raw =
     (let limit = clamp_limit limit_raw in
      get_or_load cache c (''coinblast:tokens:'' @ i64_to_string limit) ChainTier (load_tokens limit))"

definition coinblast_token_detail :: "string \<Rightarrow> ('z world_scheme, api_error, wire_token) io" where
  "coinblast_token_detail curve =
     bind_io (map_err_io ApiDb (get_token (to_lowercase curve))) (\<lambda>row.
     bind_io (lift_io (ok_or (ResourceNotFound ''curve'') row)) (\<lambda>t. ret_io (to_wire_token t)))"

definition coinblast_trades :: "string option \<Rightarrow> string option \<Rightarrow> ('z world_scheme, api_error, wire_trade list) io" where
  "coinblast_trades curve limit_raw =
     bind_io (map_err_io ApiDb (list_trades (map_option to_lowercase curve) (clamp_limit limit_raw)))
       (\<lambda>rows. ret_io (map to_wire_trade rows))"

section \<open>Etherscan endpoint\<close>

record es_query =
  es_module :: "string option"
  es_action :: "string option"
  es_address :: "string option"
  es_start_block :: "string option"
  es_end_block :: "string option"
  es_page :: "string option"
  es_offset :: "string option"
  es_sort :: "string option"
  es_timestamp :: "string option"
  es_closest :: "string option"

record es_envelope =
  ev_status :: string
  ev_message :: string
  ev_result :: json

definition es_ok :: "json \<Rightarrow> es_envelope" where
  "es_ok v = \<lparr>ev_status = ''1'', ev_message = ''OK'', ev_result = v\<rparr>"

definition es_err :: "string \<Rightarrow> es_envelope" where
  "es_err msg = \<lparr>ev_status = ''0'', ev_message = msg, ev_result = JString msg\<rparr>"

definition es_db_err :: es_envelope where
  "es_db_err = es_err ''database error''"

definition json_opt :: "string option \<Rightarrow> json" where
  "json_opt v = (case v of None \<Rightarrow> JNull | Some s \<Rightarrow> JString s)"

definition or_empty :: "string option \<Rightarrow> string" where
  "or_empty v = (case v of None \<Rightarrow> [] | Some s \<Rightarrow> s)"

definition txlist_entry :: "ext \<Rightarrow> transaction \<Rightarrow> json" where
  "txlist_entry x t = JObject
     [(''blockNumber'', JString (i64_to_string (height_val (t_block_height t)))),
      (''hash'', JString (t_hash t)), (''from'', JString (t_from_addr t)), (''to'', json_opt (t_to_addr t)),
      (''value'', JString (u256_to_string x (wei_val (t_value t)))),
      (''gas'', JString (i64_to_string (t_gas_limit t))),
      (''gasUsed'', JString (i64_to_string (case t_gas_used t of None \<Rightarrow> 0 | Some g \<Rightarrow> g))),
      (''gasPrice'', JString (or_empty (map_option (\<lambda>v. u256_to_string x (wei_val v)) (t_gas_price t)))),
      (''nonce'', JString (i64_to_string (t_nonce t))), (''input'', JString (or_empty (t_data t))),
      (''isError'', JString (if t_status t = 1 then ''0'' else ''1'')),
      (''txreceipt_status'', JString (i64_to_string (t_status t))),
      (''contractAddress'', JString (or_empty (t_contract_address t)))]"

definition unsupported_params :: "es_query \<Rightarrow> string list" where
  "unsupported_params q = map fst (filter (\<lambda>(name, v). case v of
        None \<Rightarrow> False
      | Some s \<Rightarrow> s \<noteq> [] \<and> s \<noteq> ''0'' \<and> (name \<noteq> ''page'' \<or> s \<noteq> ''1''))
     [(''startblock'', es_start_block q), (''endblock'', es_end_block q), (''page'', es_page q)])"

fun comma_join :: "string list \<Rightarrow> string" where
  "comma_join [] = []"
| "comma_join [s] = s"
| "comma_join (s # ss) = s @ '','' @ comma_join ss"

definition es_offset_limit :: "es_query \<Rightarrow> i64" where
  "es_offset_limit q =
     (let n = (case Option.bind (es_offset q) parse_i64 of None \<Rightarrow> 25 | Some n \<Rightarrow> n) in max 1 (min 100 n))"

definition txlist :: "ext \<Rightarrow> es_query \<Rightarrow> 'z world_scheme \<Rightarrow> es_envelope \<times> 'z world_scheme" where
  "txlist x q w =
     (case es_address q of
        None \<Rightarrow> (es_err ''address parameter is required'', w)
      | Some addr \<Rightarrow>
          if unsupported_params q \<noteq> []
          then (es_err (''param not supported: '' @ comma_join (unsupported_params q)), w)
          else case txs_for_address (to_lowercase addr) (es_offset_limit q) w of
                 (Inl _, w') \<Rightarrow> (es_db_err, w')
               | (Inr rows, w') \<Rightarrow> (es_ok (JArray (map (txlist_entry x) rows)), w'))"

definition block_by_time :: "string \<Rightarrow> i64 \<Rightarrow> ('z world_scheme, db_error, i64 option) io" where
  "block_by_time closest ts = fetch_optional (\<lambda>r. Inr (br_height r)) (\<lambda>d.
     case (if closest = ''after'' then order_asc br_timestamp (filter (\<lambda>r. ts \<le> br_timestamp r) (tbl_blocks d))
           else order_desc br_timestamp (filter (\<lambda>r. br_timestamp r \<le> ts) (tbl_blocks d))) of
       [] \<Rightarrow> None | r # _ \<Rightarrow> Some r)"

definition getblocknobytime :: "es_query \<Rightarrow> 'z world_scheme \<Rightarrow> es_envelope \<times> 'z world_scheme" where
  "getblocknobytime q w =
     (case es_timestamp q of
        None \<Rightarrow> (es_err ''timestamp parameter is required'', w)
      | Some ts_str \<Rightarrow>
          (case parse_i64 ts_str of
             None \<Rightarrow> (es_err ''timestamp must be a positive integer'', w)
           | Some ts \<Rightarrow>
               (let closest = (case es_closest q of None \<Rightarrow> ''before'' | Some s \<Rightarrow> s) in
                case block_by_time closest ts w of
                  (Inl _, w') \<Rightarrow> (es_db_err, w')
                | (Inr None, w') \<Rightarrow>
                    (es_err (''no block at-or-'' @ closest @ '' timestamp '' @ i64_to_string ts), w')
                | (Inr (Some h), w') \<Rightarrow> (es_ok (JString (i64_to_string h)), w'))))"

definition ethsupply :: es_envelope where
  "ethsupply = es_ok (JString ''0'')"

definition es_dispatch :: "ext \<Rightarrow> es_query \<Rightarrow> 'z world_scheme \<Rightarrow> es_envelope \<times> 'z world_scheme" where
  "es_dispatch x q w =
     (let m = or_empty (es_module q); a = or_empty (es_action q) in
      if m = ''account'' \<and> a = ''txlist'' then txlist x q w
      else if m = ''block'' \<and> a = ''getblocknobytime'' then getblocknobytime q w
      else if m = ''stats'' \<and> a = ''ethsupply'' then (ethsupply, w)
      else (es_err (''module/action not supported: '' @ m @ ''/'' @ a), w))"

section \<open>Probes\<close>

text \<open>\<open>/readyz\<close>; \<open>timely\<close> tells whether PostgreSQL answered within the second it is given.\<close>

definition pg_probe :: "bool \<Rightarrow> 'z world_scheme \<Rightarrow> string \<times> 'z world_scheme" where
  "pg_probe timely w =
     (case query (\<lambda>_. Inr ()) w of
        (r, w') \<Rightarrow> (if \<not> timely then ''down: timeout''
                    else case r of Inr _ \<Rightarrow> ''ok'' | Inl _ \<Rightarrow> ''down: pg error'', w'))"

definition cache_probe :: "string option \<Rightarrow> 'v codec \<Rightarrow> 'z api_world_scheme \<Rightarrow> string \<times> 'z api_world_scheme" where
  "cache_probe cache c w =
     (case cache of
        None \<Rightarrow> (''disabled'', w)
      | Some namespace \<Rightarrow>
          (case cache_get namespace c ''__readyz_probe__'' w of
             (Inr _, w') \<Rightarrow> (''ok'', w')
           | (Inl Open, w') \<Rightarrow> (''down: circuit breaker open'', w')
           | (Inl _, w') \<Rightarrow> (''down: cache error'', w')))"

definition readyz :: "bool \<Rightarrow> string option \<Rightarrow> 'v codec \<Rightarrow> 'z api_world_scheme \<Rightarrow>
    (nat \<times> json) \<times> 'z api_world_scheme" where
  "readyz timely cache c w =
     (let (pg, w1) = pg_probe timely w; (ca, w2) = cache_probe cache c w1; pg_ok = (pg = ''ok'') in
      ((if pg_ok then 200 else 503,
        JObject [(''ok'', JBool pg_ok), (''checks'', JObject [(''pg'', JString pg), (''cache'', JString ca)])]),
       w2))"

definition health :: json where
  "health = JObject [(''ok'', JBool True)]"

section \<open>GraphQL\<close>

text \<open>An error of the database reaches the client as one fixed message.\<close>

definition gql_query :: "('z world_scheme, db_error, 'a) io \<Rightarrow> ('z world_scheme, string, 'a) io" where
  "gql_query m = map_err_io (\<lambda>_. ''internal server error'') m"

definition gql_block :: "ext \<Rightarrow> i64 \<Rightarrow> ('z world_scheme, string, block_gql option) io" where
  "gql_block x height = bind_io (gql_query (blocks_get_by_height (BlockHeight height)))
     (\<lambda>row. ret_io (map_option (to_block_gql x) row))"

definition gql_blocks :: "ext \<Rightarrow> i32 option \<Rightarrow> i64 option \<Rightarrow> ('z world_scheme, string, block_gql list) io" where
  "gql_blocks x first before =
     (let limit = (case first of None \<Rightarrow> 25 | Some n \<Rightarrow> max 1 (min 100 n)) in
      bind_io (gql_query (list_before (map_option BlockHeight before) limit))
        (\<lambda>rows. ret_io (map (to_block_gql x) rows)))"

definition gql_transaction :: "ext \<Rightarrow> string \<Rightarrow> ('z world_scheme, string, transaction_with_logs option) io" where
  "gql_transaction x raw =
     (let h = to_lowercase raw in
      bind_io (gql_query (tx_get_by_hash h)) (\<lambda>row.
        case row of
          None \<Rightarrow> ret_io None
        | Some tx \<Rightarrow> bind_io (gql_query (logs_for_tx h)) (\<lambda>log_rows.
            ret_io (Some \<lparr>gtl_tx = to_transaction_gql x tx, gtl_logs = map to_log_gql log_rows\<rparr>))))"

end
