(* ===== verification/Api_Theorems.thy ===== *)
theory Api_Theorems
  imports Api Samples
begin

text \<open>
  Properties of the HTTP and GraphQL surface over the database: pagination, the detail routes, the
  agreement of REST and GraphQL, and what an error shows to a client.
\<close>

section \<open>Pages\<close>

lemma map_err_io_query: "w_net w = [] \<Longrightarrow> map_err_io g (query f) w = (map_err (g \<circ> DbSqlx) (f (w_db w)), w)"
  by (cases "f (w_db w)") (simp_all add: map_err_io_def query_answered)

lemma clamp_limit_range: "1 \<le> clamp_limit raw \<and> clamp_limit raw \<le> 100"
  by (auto simp: clamp_limit_def max_limit_def default_limit_def split: option.splits)

lemma filter_below_last:
  assumes "sorted_wrt (\<lambda>a b. g b < g a) R" and "0 < l" "R \<noteq> []"
  shows "filter (\<lambda>r. (g r :: int) \<le> g (last (take l R)) - 1) R = drop l R"
proof -
  let ?h = "g (last (take l R))"
  have split: "R = take l R @ drop l R" by simp
  have sorted: "sorted_wrt (\<lambda>a b. g b < g a) (take l R)"
    "\<And>a b. a \<in> set (take l R) \<Longrightarrow> b \<in> set (drop l R) \<Longrightarrow> g b < g a"
    using assms(1) sorted_wrt_append [of "\<lambda>a b. g b < g a" "take l R" "drop l R"] by auto
  have ne: "take l R \<noteq> []" using assms(2,3) by simp
  have "?h \<le> g r" if "r \<in> set (take l R)" for r
  proof -
    have "sorted_wrt (\<lambda>a b. g b < g a) (butlast (take l R) @ [last (take l R)])"
      using sorted(1) ne by simp
    then have "\<forall>a\<in>set (butlast (take l R)). ?h < g a"
      by (simp only: sorted_wrt_append) simp
    moreover have "set (take l R) = insert (last (take l R)) (set (butlast (take l R)))"
      using ne append_butlast_last_id [OF ne] by (metis Un_insert_right set_append sup_bot_right list.set(1,2))
    ultimately show ?thesis using that by force
  qed
  then have "filter (\<lambda>r. g r \<le> ?h - 1) (take l R) = []"
    by (force simp: filter_empty_conv)
  moreover have "filter (\<lambda>r. g r \<le> ?h - 1) (drop l R) = drop l R"
    using sorted(2) last_in_set [OF ne] by (intro filter_True) force
  ultimately show ?thesis
    by (subst split) (simp only: filter_append, simp)
qed

lemma order_desc_filter: "order_desc g (filter P rows) = filter P (order_desc g rows)"
  by (simp add: order_desc_def filter_sort)

lemma order_desc_strict:
  assumes "distinct (map g rows)"
  shows "sorted_wrt (\<lambda>a b. g b < g a) (order_desc g rows)"
proof -
  have "distinct (map (\<lambda>r. - g r) rows)"
    using assms by (auto simp: distinct_map inj_on_def)
  then have "distinct (map (\<lambda>r. - g r) (order_desc g rows))"
    by (metis mset_map order_mset(2) mset_eq_imp_distinct_iff)
  then have "sorted_wrt (<) (map (\<lambda>r. - g r) (order_desc g rows))"
    by (simp add: strict_sorted_iff order_desc_def)
  then show ?thesis by (simp add: sorted_wrt_map)
qed

text \<open>A client that follows \<open>next_cursor\<close> for at most \<open>n\<close> pages, with the blocks it saw.\<close>

fun follow_pages :: "list_response codec \<Rightarrow> string option \<Rightarrow> nat \<Rightarrow> string option \<Rightarrow> api_world \<Rightarrow>
    wire_block list \<times> string option" where
  "follow_pages c limit 0 cursor w = ([], cursor)"
| "follow_pages c limit (Suc n) cursor w =
     (case blocks_list None c limit cursor w of
        (Inl _, w') \<Rightarrow> ([], cursor)
      | (Inr page, w') \<Rightarrow>
          (case ls_next_cursor page of
             None \<Rightarrow> (ls_blocks page, None)
           | Some s \<Rightarrow> (case follow_pages c limit n (Some s) w' of (bs, e) \<Rightarrow> (ls_blocks page @ bs, e))))"

definition readable :: "block_row \<Rightarrow> bool" where
  "readable r \<longleftrightarrow> (\<exists>b. row_to_block r = Inr b)"

definition block_of :: "block_row \<Rightarrow> block" where
  "block_of r = projr (row_to_block r)"

lemma block_of_height: "readable r \<Longrightarrow> height_val (b_height (block_of r)) = br_height r"
  by (auto simp: readable_def block_of_def row_to_block_def bind_result_Inr)

lemma collect_readable: "\<forall>r\<in>set rs. readable r \<Longrightarrow> collect_results row_to_block rs = Inr (map block_of rs)"
  by (induction rs) (auto simp: readable_def block_of_def)

lemma blocks_list_page:
  fixes limit :: "string option"
  assumes "w_net w = []" and "\<forall>r\<in>set (tbl_blocks (w_db w)). readable r" and "parse_before cursor = Inr before"
  defines "R \<equiv> filter (\<lambda>r. case before of None \<Rightarrow> True | Some b \<Rightarrow> br_height r \<le> height_val b)
      (order_desc br_height (tbl_blocks (w_db w)))"
  defines "page \<equiv> map block_of (take (nat (clamp_limit limit)) R)"
  shows "blocks_list None c limit cursor w =
    (Inr \<lparr>ls_blocks = map to_wire_block page, ls_next_cursor = next_cursor page\<rparr>, w)"
proof -
  have "0 \<le> clamp_limit limit" using clamp_limit_range [of limit] by simp
  then have rows: "limit_rows (clamp_limit limit) (order_desc br_height (case before of
       Some b \<Rightarrow> filter (\<lambda>r. br_height r \<le> height_val b) (tbl_blocks (w_db w)) | None \<Rightarrow> tbl_blocks (w_db w)))
     = Inr (take (nat (clamp_limit limit)) R)"
    by (auto simp: limit_rows_def R_def order_desc_filter split: option.split)
  have "\<forall>r\<in>set (take (nat (clamp_limit limit)) R). readable r"
    using assms(2) by (auto simp: R_def dest!: in_set_takeD)
  note dec = collect_readable [OF this]
  show ?thesis
    by (simp add: blocks_list_def Let_def bind_io_def lift_io_def assms(3) get_or_load_def load_blocks_def
        list_before_def fetch_all_def map_err_io_query [OF assms(1)] rows dec ret_io_def page_def)
qed

lemma page_count:
  fixes l k :: nat
  assumes "0 < l" "0 < k" "(k + l - 1) div l < Suc n"
  shows "(k - l + l - 1) div l < n"
proof -
  obtain m where k: "k = Suc m" using assms(2) by (cases k) auto
  have "(k + l - 1) div l = Suc (m div l)"
    using assms(1) by (simp add: k div_add_self2)
  with assms(3) have "m div l < n" by simp
  moreover have "(k - l + l - 1) div l \<le> m div l"
  proof (cases "l \<le> k")
    case True
    then show ?thesis by (simp add: k)
  next
    case False
    with assms(1) show ?thesis by simp
  qed
  ultimately show ?thesis by simp
qed

lemma last_take_in: "0 < l \<Longrightarrow> xs \<noteq> [] \<Longrightarrow> last (take l xs) \<in> set xs"
  by (rule in_set_takeD [of _ l], rule last_in_set) simp

lemma filter_narrower: "(\<And>r. Q r \<Longrightarrow> P r) \<Longrightarrow> filter Q xs = filter Q (filter P xs)"
  by (induction xs) auto

text \<open>The rows below the last one of a page are the rest of the listing.\<close>

lemma below_page:
  assumes R: "R = filter (\<lambda>r. case before of None \<Rightarrow> True | Some b \<Rightarrow> br_height r \<le> height_val b) L"
    and strict: "sorted_wrt (\<lambda>a b. br_height b < br_height a) R" and l: "0 < l" "R \<noteq> []"
  shows "filter (\<lambda>r. br_height r \<le> br_height (last (take l R)) - 1) L = drop l R"
proof -
  let ?P = "\<lambda>r. case before of None \<Rightarrow> True | Some b \<Rightarrow> br_height r \<le> height_val b"
  have "last (take l R) \<in> set R" using l by (rule last_take_in)
  then have "?P (last (take l R))" unfolding R by simp
  then have "?P r" if "br_height r \<le> br_height (last (take l R)) - 1" for r
    using that by (auto split: option.splits)
  then have "filter (\<lambda>r. br_height r \<le> br_height (last (take l R)) - 1) L =
      filter (\<lambda>r. br_height r \<le> br_height (last (take l R)) - 1) (filter ?P L)"
    by (rule filter_narrower)
  then show ?thesis
    using filter_below_last [OF strict l] by (simp only: R [symmetric])
qed

lemma follow_pages_run:
  assumes "w_net w = []" and "\<forall>r\<in>set (tbl_blocks (w_db w)). readable r \<and> 0 \<le> br_height r \<and> in_i64 (br_height r)"
    and "distinct (map br_height (tbl_blocks (w_db w)))" and "parse_before cursor = Inr before"
    and "R = filter (\<lambda>r. case before of None \<Rightarrow> True | Some b \<Rightarrow> br_height r \<le> height_val b)
      (order_desc br_height (tbl_blocks (w_db w)))"
    and "(length R + nat (clamp_limit limit) - 1) div nat (clamp_limit limit) < n"
  shows "follow_pages c limit n cursor w = (map (to_wire_block \<circ> block_of) R, None)"
  using assms(4-6)
proof (induction n arbitrary: cursor before R)
  case 0
  then show ?case by simp
next
  case (Suc n)
  let ?l = "nat (clamp_limit limit)" and ?last = "last (take (nat (clamp_limit limit)) R)"
  have l: "0 < ?l" using clamp_limit_range [of limit] by simp
  have page: "blocks_list None c limit cursor w = (Inr \<lparr>ls_blocks = map to_wire_block (map block_of (take ?l R)),
      ls_next_cursor = next_cursor (map block_of (take ?l R))\<rparr>, w)"
    using blocks_list_page [OF assms(1) _ Suc.prems(1), where limit = limit and c = c] assms(2)
    by (simp add: Suc.prems(2))
  have R_mem: "\<forall>r\<in>set R. readable r \<and> 0 \<le> br_height r \<and> in_i64 (br_height r)"
    using assms(2) by (auto simp: Suc.prems(2))
  have strict: "sorted_wrt (\<lambda>a b. br_height b < br_height a) R"
    unfolding Suc.prems(2) by (intro sorted_wrt_filter order_desc_strict assms(3))
  show ?case
  proof (cases "R = []")
    case True
    with page show ?thesis by (simp add: next_cursor_def)
  next
    case ne: False
    with l have "?last \<in> set R" by (intro last_take_in)
    then have last: "height_val (b_height (block_of ?last)) = br_height ?last" "0 \<le> br_height ?last"
      "in_i64 (br_height ?last)"
      using R_mem by (auto simp: block_of_height)
    note rest = filter_below_last [OF strict l ne] and upto = below_page [OF Suc.prems(2) strict l ne]
    have cursor: "next_cursor (map block_of (take ?l R)) =
        (if 0 < br_height ?last then Some (i64_to_string (br_height ?last - 1)) else None)"
      using ne l last(1) by (simp add: next_cursor_def last_map)
    show ?thesis
    proof (cases "0 < br_height ?last")
      case True
      let ?c = "i64_to_string (br_height ?last - 1)"
      have "in_i64 (br_height ?last - 1)" using True last(3) by (simp add: rust_arith)
      then have parse: "parse_before (Some ?c) = Inr (Some (BlockHeight (br_height ?last - 1)))"
        by (simp add: parse_before_def parse_i64_to_string)
      from page_count [OF l _ Suc.prems(3)] ne have "(length (drop ?l R) + ?l - 1) div ?l < n" by simp
      from Suc.IH [OF parse _ this] upto
      have "follow_pages c limit n (Some ?c) w = (map (to_wire_block \<circ> block_of) (drop ?l R), None)" by simp
      with page cursor True show ?thesis
        by (simp add: take_map [symmetric] drop_map [symmetric])
    next
      case False
      with last(2) have zero: "br_height ?last = 0" by simp
      have "\<forall>r\<in>set R. \<not> br_height r \<le> -1" using R_mem by force
      with rest zero have "drop ?l R = []" by (metis (no_types, lifting) filter_False diff_0)
      with page cursor zero show ?thesis by simp
    qed
  qed
qed

section \<open>What was written is served\<close>

context insert_table
begin

lemma all_new:
  assumes "for_io (\<lambda>p. exec (ins p)) ps d = (Inr (), d')"
    and "distinct (map pkey ps)" and "pkey ` set ps \<inter> key ` set (rows d) = {}"
  shows "\<exists>new. rows d' = rows d @ new \<and> list_all2 (\<lambda>p r. key r = pkey p \<and> stored p r) ps new"
  using assms
proof (induction ps arbitrary: d)
  case Nil
  then show ?case by (auto simp: ret_io_def)
next
  case (Cons p ps)
  then obtain b d1 where 1: "ins p d = (Inr b, d1)"
    and 2: "for_io (\<lambda>p. exec (ins p)) ps d1 = (Inr (), d')"
    by (auto simp: bind_io_Inr exec_Inr)
  have "pkey p \<notin> key ` set (rows d)" using Cons.prems(3) by auto
  from ins_new [OF 1 this] obtain r where r: "key r = pkey p" "stored p r" "rows d1 = rows d @ [r]" by blast
  have "pkey ` set ps \<inter> key ` set (rows d1) = {}"
    using Cons.prems(2,3) r(1,3) by auto
  from Cons.IH [OF 2 _ this] Cons.prems(2) obtain new where
    "rows d' = rows d1 @ new" "list_all2 (\<lambda>p r. key r = pkey p \<and> stored p r) ps new" by auto
  with r show ?case by (intro exI [of _ "r # new"]) simp
qed

end

lemma for_io_map: "for_io f (map g xs) = for_io (\<lambda>x. f (g x)) xs"
  by (induction xs) simp_all

lemma list_all2_same: "list_all2 (\<lambda>p r. key r = pk p \<and> p = r) ps rs \<Longrightarrow> rs = ps"
  by (metis (mono_tags, lifting) list.rel_eq list_all2_mono)

text \<open>A bundle none of whose keys is taken, with its parts at the height of its block and in order.\<close>

definition fresh_bundle :: "block_bundle \<Rightarrow> db \<Rightarrow> bool" where
  "fresh_bundle b d \<longleftrightarrow>
     (let h = height_val (b_height (bb_block b)) in
      h \<notin> heights d \<and> distinct (map t_hash (bb_txs b)) \<and>
      t_hash ` set (bb_txs b) \<inter> tr_hash ` set (tbl_txs d) = {} \<and>
      (\<forall>t\<in>set (bb_txs b). height_val (t_block_height t) = h) \<and>
      (\<forall>l\<in>set (bb_logs b). height_val (l_block_height l) = h) \<and>
      sorted (map (\<lambda>t. tx_index_val (t_tx_index t)) (bb_txs b)) \<and>
      sorted (map (\<lambda>l. log_index_val (l_log_index l)) (bb_logs b)) \<and>
      distinct (map (\<lambda>l. log_index_val (l_log_index l)) (bb_logs b)))"

lemma fresh_bundle_rows:
  assumes "write_rows b d = (Inr (), d')" and "fresh_bundle b d" and "db_wf d"
  shows "tbl_blocks d' = tbl_blocks d @ [block_to_row (bb_block b)]"
    "tbl_txs d' = tbl_txs d @ map tx_to_row (bb_txs b)"
    "tbl_logs d' = tbl_logs d @ map log_to_row (bb_logs b)"
proof -
  let ?h = "height_val (b_height (bb_block b))"
  define d1 d2 where "d1 = d\<lparr>tbl_blocks := tbl_blocks d'\<rparr>" and "d2 = d1\<lparr>tbl_txs := tbl_txs d'\<rparr>"
  from write_rows_tables(1) [OF assms(1)] have
    B: "for_io (\<lambda>r. exec (block_row_insert r)) [block_to_row (bb_block b)] d = (Inr (), d1)" and
    T: "for_io (\<lambda>r. exec (tx_row_insert r)) (map tx_to_row (bb_txs b)) d1 = (Inr (), d2)" and
    L: "for_io (\<lambda>r. exec (log_row_insert r)) (map log_to_row (bb_logs b)) d2 = (Inr (), d2\<lparr>tbl_logs := tbl_logs d'\<rparr>)"
    unfolding table_runs_def Let_def for_io_map
    by (simp_all add: d1_def d2_def blocks_insert_stmt_def transactions_insert_stmt_def [abs_def]
        logs_insert_stmt_def [abs_def])
  have free: "?h \<notin> br_height ` set (tbl_blocks d)"
    using assms(2) by (auto simp: fresh_bundle_def heights_def Let_def)
  from blocks_tbl.all_new [OF B] free show "tbl_blocks d' = tbl_blocks d @ [block_to_row (bb_block b)]"
    by (auto simp: block_to_row_def d1_def dest!: list_all2_same)
  have "distinct (map tr_hash (map tx_to_row (bb_txs b)))"
    "tr_hash ` set (map tx_to_row (bb_txs b)) \<inter> tr_hash ` set (tbl_txs d1) = {}"
    using assms(2) by (simp_all add: fresh_bundle_def Let_def tx_to_row_def comp_def image_image d1_def)
  from txs_tbl.all_new [OF T this] show "tbl_txs d' = tbl_txs d @ map tx_to_row (bb_txs b)"
    by (auto simp: d1_def d2_def dest!: list_all2_same)
  have keys: "map log_key (map log_to_row (bb_logs b)) = map (\<lambda>l. (?h, log_index_val (l_log_index l))) (bb_logs b)"
    using assms(2) by (simp add: fresh_bundle_def Let_def log_key_def log_to_row_def)
  have "distinct (map (\<lambda>l. (?h, log_index_val (l_log_index l))) (bb_logs b))"
    using assms(2) by (simp add: fresh_bundle_def Let_def distinct_map inj_on_def)
  moreover have "log_key ` set (map log_to_row (bb_logs b)) \<inter> log_key ` set (tbl_logs d2) = {}"
  proof -
    have "lr_block_height r \<noteq> ?h" if "r \<in> set (tbl_logs d)" for r
      using assms(3) that free by (metis db_wf_def fk_ok_def has_block_iff)
    then show ?thesis
      unfolding set_map [symmetric] keys by (force simp: log_key_def d1_def d2_def)
  qed
  ultimately show "tbl_logs d' = tbl_logs d @ map log_to_row (bb_logs b)"
    using logs_tbl.all_new [OF L, unfolded keys] by (auto simp: d1_def d2_def dest!: list_all2_same)
qed

lemma collect_encoded: "collect_results row_to_tx (map tx_to_row ts) = Inr ts"
  "collect_results (\<lambda>r. Inr (row_to_log r)) (map log_to_row ls) = Inr ls"
  by (induction ts, simp_all add: row_to_tx_to_row) (induction ls, simp_all add: row_to_log_to_row)

lemma find_unique:
  assumes "r \<in> set rs" "distinct (map key rs)"
  shows "find (\<lambda>s. key s = key r) rs = Some r"
  using assms by (induction rs) (auto simp: image_iff)

text \<open>The rows of a freshly written bundle, as the queries of the detail routes find them.\<close>

lemma fresh_bundle_found:
  assumes "write_rows b d = (Inr (), d')" and "fresh_bundle b d" and "db_wf d"
  defines "h \<equiv> height_val (b_height (bb_block b))"
  shows "find (\<lambda>r. br_height r = h) (tbl_blocks d') = Some (block_to_row (bb_block b))"
    and "order_asc tr_tx_index (filter (\<lambda>r. tr_block_height r = h) (tbl_txs d')) = map tx_to_row (bb_txs b)"
    and "t \<in> set (bb_txs b) \<Longrightarrow> find (\<lambda>r. tr_hash r = t_hash t) (tbl_txs d') = Some (tx_to_row t)"
    and "t \<in> set (bb_txs b) \<Longrightarrow> order_asc lr_log_index (filter (\<lambda>r. lr_tx_hash r = t_hash t) (tbl_logs d')) =
      map log_to_row (filter (\<lambda>l. l_tx_hash l = t_hash t) (bb_logs b))"
proof -
  note rows = fresh_bundle_rows [OF assms(1-3)]
  have free: "br_height r \<noteq> h" if "r \<in> set (tbl_blocks d)" for r
    using assms(2) that by (force simp: fresh_bundle_def heights_def Let_def h_def)
  have old_txs: "tr_block_height r \<noteq> h" if "r \<in> set (tbl_txs d)" for r
    using assms(3) that free by (fastforce simp: db_wf_def fk_ok_def has_block_iff)
  have old_hash: "t_hash t \<notin> tr_hash ` set (tbl_txs d)" if "t \<in> set (bb_txs b)" for t
    using assms(2) that by (auto simp: fresh_bundle_def Let_def)
  have "find (\<lambda>r. br_height r = h) (tbl_blocks d) = None"
    using free by (simp add: find_None_iff)
  then show "find (\<lambda>r. br_height r = h) (tbl_blocks d') = Some (block_to_row (bb_block b))"
    unfolding rows(1) find_append by (simp add: block_to_row_def h_def)
  have "filter (\<lambda>r. tr_block_height r = h) (tbl_txs d) = []"
    using old_txs by (simp add: filter_empty_conv)
  moreover have "filter (\<lambda>r. tr_block_height r = h) (map tx_to_row (bb_txs b)) = map tx_to_row (bb_txs b)"
    using assms(2) by (intro filter_True) (simp add: fresh_bundle_def Let_def tx_to_row_def h_def)
  moreover have "sorted (map tr_tx_index (map tx_to_row (bb_txs b)))"
    using assms(2) by (simp add: fresh_bundle_def Let_def tx_to_row_def comp_def)
  ultimately show "order_asc tr_tx_index (filter (\<lambda>r. tr_block_height r = h) (tbl_txs d')) = map tx_to_row (bb_txs b)"
    by (simp add: rows(2) order_asc_id)
  have hash: "tr_hash (tx_to_row u) = t_hash u" for u by (simp add: tx_to_row_def)
  have distinct: "distinct (map tr_hash (map tx_to_row (bb_txs b)))"
    using assms(2) by (simp add: fresh_bundle_def Let_def tx_to_row_def comp_def)
  show "find (\<lambda>r. tr_hash r = t_hash t) (tbl_txs d') = Some (tx_to_row t)" if t: "t \<in> set (bb_txs b)"
  proof -
    have "find (\<lambda>r. tr_hash r = t_hash t) (tbl_txs d) = None"
      using old_hash [OF t] by (force simp: find_None_iff)
    moreover have "find (\<lambda>r. tr_hash r = tr_hash (tx_to_row t)) (map tx_to_row (bb_txs b)) = Some (tx_to_row t)"
      using t by (intro find_unique distinct) simp
    ultimately show ?thesis
      unfolding rows(2) find_append by (simp add: hash)
  qed
  show "order_asc lr_log_index (filter (\<lambda>r. lr_tx_hash r = t_hash t) (tbl_logs d')) =
      map log_to_row (filter (\<lambda>l. l_tx_hash l = t_hash t) (bb_logs b))" if t: "t \<in> set (bb_txs b)"
  proof -
    have "lr_tx_hash r \<noteq> t_hash t" if "r \<in> set (tbl_logs d)" for r
      using assms(3) that old_hash [OF t] by (metis db_wf_def fk_ok_def has_tx_iff)
    then have "filter (\<lambda>r. lr_tx_hash r = t_hash t) (tbl_logs d) = []"
      by (simp add: filter_empty_conv)
    moreover have "filter (\<lambda>r. lr_tx_hash r = t_hash t) (map log_to_row (bb_logs b)) =
        map log_to_row (filter (\<lambda>l. l_tx_hash l = t_hash t) (bb_logs b))"
      by (simp add: filter_map comp_def log_to_row_def)
    moreover have "sorted (map lr_log_index (map log_to_row (filter (\<lambda>l. l_tx_hash l = t_hash t) (bb_logs b))))"
      using assms(2) by (simp add: fresh_bundle_def Let_def log_to_row_def comp_def sorted_filter)
    ultimately show ?thesis by (simp add: rows(3) order_asc_id)
  qed
qed

text \<open>C25: A written block is served as it was fetched. Once \<open>write_block\<close> has stored a bundle none of
  whose keys was taken, \<open>GET /blocks/<height>\<close> answers with that block and its transactions in order,
  and \<open>GET /tx/<hash>\<close>, whatever the case the hash is written in, with the transaction, its logs in
  order and the timestamp of its block.\<close>

theorem written_block_is_served:
  assumes "write_block x an b w = (Inr (), w1)" and "fresh_bundle b (w_db w)" and "db_wf (w_db w)"
    and "in_i64 (height_val (b_height (bb_block b)))" and "w_db v = w_db w1" and "w_net v = []"
  shows "fst (block_detail (i64_to_string (height_val (b_height (bb_block b)))) v) =
      Inr \<lparr>wbt_block = to_wire_block (bb_block b), wbt_transactions = map to_wire_tx (bb_txs b)\<rparr> \<and>
    (\<forall>t\<in>set (bb_txs b). \<forall>raw. to_lowercase raw = t_hash t \<longrightarrow> fst (tx_detail raw v) =
      Inr \<lparr>tx_tx = to_wire_tx t,
           tx_logs = map to_wire_log (filter (\<lambda>l. l_tx_hash l = t_hash t) (bb_logs b)),
           tx_block_timestamp = b_timestamp (bb_block b)\<rparr>)"
proof -
  let ?h = "height_val (b_height (bb_block b))"
  obtain w2 where t: "transaction SqlxErr (write_block_body b) w = (Inr (), w2)" "w_db w1 = w_db w2"
    using assms(1) by (auto simp: write_block_def bind_io_Inr push_all_db)
  have "write_rows b (w_db w) = (Inr (), w_db v)"
    using transaction_Inr_spec [OF write_block_body_implements t(1)] assms(5) t(2) by simp
  note found = fresh_bundle_found [OF this assms(2,3)]
  have block: "map_err_io ApiDb (blocks_get_by_height (BlockHeight ?h)) v = (Inr (Some (bb_block b)), v)"
    using found(1) by (simp add: blocks_get_by_height_def map_err_io_query [OF assms(6)] row_to_block_to_row)
  have txs: "map_err_io ApiDb (txs_for_block (BlockHeight ?h)) v = (Inr (bb_txs b), v)"
    by (simp add: txs_for_block_def fetch_all_def map_err_io_query [OF assms(6)] found(2) collect_encoded)
  have "fst (tx_detail raw v) = Inr \<lparr>tx_tx = to_wire_tx t,
      tx_logs = map to_wire_log (filter (\<lambda>l. l_tx_hash l = t_hash t) (bb_logs b)),
      tx_block_timestamp = b_timestamp (bb_block b)\<rparr>"
    if t: "t \<in> set (bb_txs b)" "to_lowercase raw = t_hash t" for t raw
  proof -
    have "map_err_io ApiDb (tx_get_by_hash (t_hash t)) v = (Inr (Some t), v)"
      by (simp add: tx_get_by_hash_def fetch_optional_def map_err_io_query [OF assms(6)] found(3) [OF t(1)]
          row_to_tx_to_row)
    moreover have "map_err_io ApiDb (logs_for_tx (t_hash t)) v =
        (Inr (filter (\<lambda>l. l_tx_hash l = t_hash t) (bb_logs b)), v)"
      by (simp add: logs_for_tx_def fetch_all_def map_err_io_query [OF assms(6)] found(4) [OF t(1)] collect_encoded)
    moreover have "t_block_height t = BlockHeight ?h"
      using assms(2) t(1) by (cases "t_block_height t") (auto simp: fresh_bundle_def Let_def)
    ultimately show ?thesis
      using block t(2)
      by (simp add: tx_detail_def Let_def bind_io_def lift_io_def ret_io_def del: map_err_io_Inr)
  qed
  then show ?thesis
    using assms(4) block txs
    by (simp add: block_detail_def parse_height_def parse_i64_to_string bind_io_def lift_io_def ret_io_def
        del: map_err_io_Inr)
qed

text \<open>A world to serve from: a database, no cache, no faults.\<close>

definition s_api :: "db \<Rightarrow> api_world" where
  "s_api d = \<lparr>w_db = d, w_net = [], stats_daily_mv = [], redis_store = (\<lambda>_. None), redis_net = [],
     breaker = breaker_new 5 (30 * 10 ^ 9), clock = 0\<rparr>"

lemma s_api_sel [simp]: "w_db (s_api d) = d" "w_net (s_api d) = []"
  by (simp_all add: s_api_def)

theorem written_block_is_served_witness:
  "\<exists>w1. write_block ext_ref False (s_bundle 1) (s_world empty_db []) = (Inr (), w1) \<and>
     fst (block_detail (i64_to_string 1) (s_api (w_db w1))) =
       Inr \<lparr>wbt_block = to_wire_block (s_block 1), wbt_transactions = [to_wire_tx (s_tx 1)]\<rparr> \<and>
     fst (tx_detail ''0xC1'' (s_api (w_db w1))) =
       Inr \<lparr>tx_tx = to_wire_tx (s_tx 1), tx_logs = [to_wire_log (s_log 1)], tx_block_timestamp = 1001\<rparr>"
proof -
  have "fst (write_rows (s_bundle 1) empty_db) = Inr ()" by code_simp
  then obtain w1 where w1: "write_block ext_ref False (s_bundle 1) (s_world empty_db []) = (Inr (), w1)"
    using write_block_complete [of "s_world empty_db []" "s_bundle 1"] by (metis prod.collapse s_world_sel)
  have fresh: "fresh_bundle (s_bundle 1) (w_db (s_world empty_db []))" "db_wf (w_db (s_world empty_db []))"
    by (simp_all add: fresh_bundle_def s_bundle_def s_block_def s_tx_def s_log_def heights_def empty_db_def
        db_wf_def keys_ok_def fk_ok_def)
  have "to_lowercase ''0xC1'' = t_hash (s_tx 1)" by code_simp
  moreover have "in_i64 (height_val (b_height (bb_block (s_bundle 1))))"
    by (simp add: s_bundle_def s_block_def rust_arith)
  ultimately show ?thesis
    using w1 written_block_is_served [OF w1 fresh, of "s_api (w_db w1)"]
    by (auto simp: s_bundle_def s_block_def s_tx_def s_log_def)
qed

definition s_no_codec :: "list_response codec" where
  "s_no_codec = \<lparr>to_json = (\<lambda>_. Inl ''unsupported''), from_json = (\<lambda>_. Inl ''unsupported'')\<rparr>"

text \<open>C26: Following \<open>next_cursor\<close> lists the chain. Over a database whose blocks have distinct heights,
  a client that starts without \<open>before\<close> and passes each \<open>next_cursor\<close> back sees every block exactly
  once, newest first, whatever its \<open>limit\<close>, and reaches a page without cursor after at most one more
  page than the blocks fill.\<close>

theorem pages_enumerate_blocks:
  assumes "w_net w = []" and "db_wf (w_db w)"
    and "\<forall>r\<in>set (tbl_blocks (w_db w)). readable r \<and> 0 \<le> br_height r \<and> in_i64 (br_height r)"
    and "(length (tbl_blocks (w_db w)) + nat (clamp_limit limit) - 1) div nat (clamp_limit limit) < n"
  shows "\<exists>rows. mset rows = mset (tbl_blocks (w_db w)) \<and>
    sorted_wrt (\<lambda>a b. br_height b < br_height a) rows \<and>
    follow_pages c limit n None w = (map (to_wire_block \<circ> block_of) rows, None)"
proof -
  have distinct: "distinct (map br_height (tbl_blocks (w_db w)))"
    using assms(2) by (simp add: db_wf_def keys_ok_def)
  have "parse_before None = Inr None" by (simp add: parse_before_def)
  from follow_pages_run [OF assms(1,3) distinct this refl, of limit n c] assms(4)
  have "follow_pages c limit n None w =
      (map (to_wire_block \<circ> block_of) (order_desc br_height (tbl_blocks (w_db w))), None)" by simp
  with order_desc_strict [OF distinct] show ?thesis
    by (intro exI [of _ "order_desc br_height (tbl_blocks (w_db w))"]) simp
qed

theorem pages_enumerate_blocks_witness:
  "map wb_height (fst (follow_pages s_no_codec (Some ''1'') 4 None
     (s_api (empty_db\<lparr>tbl_blocks := map (block_to_row \<circ> s_block) [7, 9, 8]\<rparr>)))) = [''9'', ''8'', ''7'']"
proof -
  let ?rows = "map (block_to_row \<circ> s_block) [7, 9, 8]" and ?w = "s_api (empty_db\<lparr>tbl_blocks := map (block_to_row \<circ> s_block) [7, 9, 8]\<rparr>)"
  have clamp: "clamp_limit (Some ''1'') = 1" by code_simp
  have heights: "map br_height ?rows = [7, 9, 8]" by (simp add: block_to_row_def s_block_def)
  have "db_wf (w_db ?w)"
    by (simp add: db_wf_def keys_ok_def fk_ok_def empty_db_def block_to_row_def s_block_def digit_char_def)
  moreover have "\<forall>r\<in>set (tbl_blocks (w_db ?w)). readable r \<and> 0 \<le> br_height r \<and> in_i64 (br_height r)"
    by (auto simp: readable_def row_to_block_to_row) (simp_all add: block_to_row_def s_block_def rust_arith)
  ultimately obtain rows where rows: "mset rows = mset ?rows" "sorted_wrt (\<lambda>a b. br_height b < br_height a) rows"
    "follow_pages s_no_codec (Some ''1'') 4 None ?w = (map (to_wire_block \<circ> block_of) rows, None)"
    using pages_enumerate_blocks [of ?w "Some ''1''" 4 s_no_codec] by (auto simp: clamp)
  have "set rows = set ?rows" using rows(1) by (metis set_mset_mset)
  then have "\<forall>r\<in>set rows. wb_height (to_wire_block (block_of r)) = i64_to_string (br_height r)"
    by (auto simp: to_wire_block_def block_of_def row_to_block_to_row) (simp_all add: block_to_row_def)
  then have "map (wb_height \<circ> (to_wire_block \<circ> block_of)) rows = map i64_to_string (map br_height rows)"
    by simp
  moreover have "map (\<lambda>r. - br_height r) rows = [-9, -8, -7]"
  proof -
    have "sorted_wrt (<) (map (\<lambda>r. - br_height r) rows)" using rows(2) by (simp add: sorted_wrt_map)
    moreover have "set (map (\<lambda>r. - br_height r) rows) = {-7, -9, -8}"
      using \<open>set rows = set ?rows\<close> by (simp add: block_to_row_def s_block_def)
    ultimately show ?thesis
      using sorted_distinct_set_unique [of "map (\<lambda>r. - br_height r) rows" "[-9, -8, -7]"]
      by (auto simp: strict_sorted_iff)
  qed
  then have "map br_height rows = [9, 8, 7]"
    by (cases rows rule: list.exhaust) (auto simp: map_eq_Cons_conv)
  ultimately show ?thesis
    by (simp add: rows(3)) code_simp
qed

section \<open>Two interfaces, one content\<close>

lemma run_answered:
  assumes "w_net w = []" and "bind_io (map_err_io g (query f)) k w = (Inr v, w')"
  shows "\<exists>a. f (w_db w) = Inr a \<and> k a w = (Inr v, w')"
  using assms by (auto simp: bind_io_Inr query_answered)

lemma gql_query_run: "w_net w = [] \<Longrightarrow> f (w_db w) = Inr a \<Longrightarrow> gql_query (query f) w = (Inr a, w)"
  by (simp add: gql_query_def query_answered)

text \<open>C27: REST and GraphQL serve the same content. Without faults of the connection, whenever
  \<open>/blocks/<height>\<close>, a page of \<open>/blocks\<close> or \<open>/tx/<hash>\<close> answers, the GraphQL query for the same
  object answers with the same fields, amounts rendered as the decimal strings that the REST values
  serialise to.\<close>

theorem rest_and_graphql_agree:
  assumes "w_net w = []"
  shows "(block_detail (i64_to_string h) w = (Inr rb, w1) \<and> in_i64 h \<longrightarrow>
      fst (gql_block x h w) = Inr (Some (gql_of_wire_block x (wbt_block rb)))) \<and>
    (blocks_list None c (Some (i64_to_string k)) (map_option i64_to_string before) w = (Inr page, w2) \<and>
       1 \<le> k \<and> k \<le> 100 \<and> (\<forall>b\<in>set_option before. in_i64 b) \<longrightarrow>
      fst (gql_blocks x (Some k) before w) = Inr (map (gql_of_wire_block x) (ls_blocks page))) \<and>
    (tx_detail raw w = (Inr rt, w3) \<longrightarrow> fst (gql_transaction x raw w) =
      Inr (Some \<lparr>gtl_tx = gql_of_wire_tx x (tx_tx rt), gtl_logs = map gql_of_wire_log (tx_logs rt)\<rparr>))"
proof (intro conjI impI)
  assume "block_detail (i64_to_string h) w = (Inr rb, w1) \<and> in_i64 h"
  then obtain b txs where "(case find (\<lambda>r. br_height r = h) (tbl_blocks (w_db w)) of None \<Rightarrow> Inr None
      | Some r \<Rightarrow> bind_result (row_to_block r) (\<lambda>b. Inr (Some b))) = Inr (Some b)"
    and "rb = \<lparr>wbt_block = to_wire_block b, wbt_transactions = map to_wire_tx txs\<rparr>"
    using assms by (auto simp: block_detail_def parse_height_def parse_i64_to_string bind_io_Inr lift_io_def
        blocks_get_by_height_def txs_for_block_def fetch_all_def query_answered ret_io_def)
  then show "fst (gql_block x h w) = Inr (Some (gql_of_wire_block x (wbt_block rb)))"
    using assms by (simp add: gql_block_def blocks_get_by_height_def gql_query_run bind_io_def ret_io_def)
next
  assume page: "blocks_list None c (Some (i64_to_string k)) (map_option i64_to_string before) w = (Inr page, w2) \<and>
       1 \<le> k \<and> k \<le> 100 \<and> (\<forall>b\<in>set_option before. in_i64 b)"
  then have "in_i64 k" by (simp add: rust_arith)
  with page have clamp: "clamp_limit (Some (i64_to_string k)) = k"
    by (simp add: clamp_limit_def parse_i64_to_string max_limit_def)
  have "parse_before (map_option i64_to_string before) = Inr (map_option BlockHeight before)"
    using page by (cases before) (simp_all add: parse_before_def parse_i64_to_string)
  with page clamp obtain rows where "list_before (map_option BlockHeight before) k w = (Inr rows, w)"
    and "page = \<lparr>ls_blocks = map to_wire_block rows, ls_next_cursor = next_cursor rows\<rparr>"
    using assms by (auto simp: blocks_list_def Let_def get_or_load_def load_blocks_def bind_io_Inr lift_io_def
        ret_io_def list_before_def fetch_all_def query_answered)
  with page show "fst (gql_blocks x (Some k) before w) = Inr (map (gql_of_wire_block x) (ls_blocks page))"
    by (simp add: gql_blocks_def gql_query_def bind_io_def map_err_io_def ret_io_def)
next
  assume "tx_detail raw w = (Inr rt, w3)"
  then obtain tx ls where "tx_get_by_hash (to_lowercase raw) w = (Inr (Some tx), w)"
    and "logs_for_tx (to_lowercase raw) w = (Inr ls, w)"
    and "tx_tx rt = to_wire_tx tx" "tx_logs rt = map to_wire_log ls"
    using assms by (auto simp: tx_detail_def Let_def bind_io_Inr lift_io_def ret_io_def tx_get_by_hash_def
        fetch_optional_def logs_for_tx_def fetch_all_def query_answered)
  then show "fst (gql_transaction x raw w) =
      Inr (Some \<lparr>gtl_tx = gql_of_wire_tx x (tx_tx rt), gtl_logs = map gql_of_wire_log (tx_logs rt)\<rparr>)"
    by (simp add: gql_transaction_def gql_query_def bind_io_def map_err_io_def ret_io_def Let_def)
qed

theorem rest_and_graphql_agree_witness:
  "fst (gql_block ext_ref 1 (s_api (empty_db\<lparr>tbl_blocks := [block_to_row (s_block 1)]\<rparr>))) =
     Inr (Some (to_block_gql ext_ref (s_block 1)))"
proof -
  let ?w = "s_api (empty_db\<lparr>tbl_blocks := [block_to_row (s_block 1)]\<rparr>)"
    and ?rb = "\<lparr>wbt_block = to_wire_block (s_block 1), wbt_transactions = []\<rparr>"
  have "find (\<lambda>r. br_height r = 1) [block_to_row (s_block 1)] = Some (block_to_row (s_block 1))"
    by (simp add: block_to_row_def s_block_def)
  then have "block_detail (i64_to_string 1) ?w = (Inr ?rb, ?w)"
    by (simp add: block_detail_def parse_height_def parse_i64_to_string rust_arith bind_io_def lift_io_def
        map_err_io_query blocks_get_by_height_def txs_for_block_def fetch_all_def row_to_block_to_row
        empty_db_def order_asc_def ret_io_def)
  moreover have "in_i64 1" by (simp add: rust_arith)
  ultimately show ?thesis
    using conjunct1 [OF rest_and_graphql_agree [of ?w 1 ?rb ?w ext_ref]] by simp
qed

section \<open>Guards and lookups\<close>

lemma trim_idem: "trim (trim s) = trim s"
proof -
  define u where "u = dropWhile is_space s"
  define v where "v = rev (dropWhile is_space (rev u))"
  have u: "u = [] \<or> \<not> is_space (hd u)"
    unfolding u_def by (metis hd_dropWhile)
  have "u = v @ rev (takeWhile is_space (rev u))"
    unfolding v_def by (metis rev_append rev_rev_ident takeWhile_dropWhile_id)
  with u have "v = [] \<or> \<not> is_space (hd v)" by (metis append_is_Nil_conv hd_append2)
  then have "dropWhile is_space v = v" by (cases v) auto
  then have "trim v = rev (dropWhile is_space (rev v))" by (simp add: trim_def)
  then show ?thesis by (simp add: trim_def u_def v_def)
qed

text \<open>The bearer guard lets exactly the right requests through. With a token configured, a request
  passes if and only if its path is \<open>/health\<close> or its header is \<open>Bearer\<close> followed by the token, with
  white space around the token ignored; so a configured token that itself begins or ends with white
  space locks everybody out.\<close>

lemma bearer_guard_exact:
  "(require_bearer (Some token) path header \<longleftrightarrow>
     path = ''/health'' \<or> (\<exists>s. header = Some (''Bearer '' @ s) \<and> trim s = token)) \<and>
   (trim token \<noteq> token \<longrightarrow> require_bearer (Some token) path header \<longrightarrow> path = ''/health'')"
proof -
  have strip: "strip_prefix p h = Some s \<longleftrightarrow> h = p @ s" for p h s
    by (auto simp: strip_prefix_def starts_with_def) (metis append_take_drop_id)
  define pre where "pre = ''Bearer ''"
  have "(case map_option trim (strip_prefix pre h) of Some p \<Rightarrow> p = token | None \<Rightarrow> False) \<longleftrightarrow>
      (\<exists>s. h = pre @ s \<and> trim s = token)" for h
  proof (cases "strip_prefix pre h")
    case None
    then show ?thesis using strip [of pre h] by auto
  next
    case (Some s)
    then show ?thesis using strip [of pre h] by auto
  qed
  then have iff: "require_bearer (Some token) path header \<longleftrightarrow>
     path = ''/health'' \<or> (\<exists>s. header = Some (pre @ s) \<and> trim s = token)"
    by (cases header) (simp_all add: require_bearer_def pre_def [symmetric])
  then have "trim token \<noteq> token \<longrightarrow> require_bearer (Some token) path header \<longrightarrow> path = ''/health''"
    using trim_idem by auto
  with iff show ?thesis unfolding pre_def by (rule conjI)
qed



end
