(* ===== verification/Cache_Laws.thy ===== *)
theory Cache_Laws
  imports Api
begin

text \<open>
  The contract of the cache-aside routes as a locale: what a route must guarantee about its keys and
  its loader for the cache to be a delayed view of the database. It is interpreted on every cached
  route of the API.
\<close>

section \<open>Keys\<close>

lemma digit_char_simps: "d < 10 \<Longrightarrow> digit_char d \<noteq> CHR '':'' \<and> digit_char d \<noteq> CHR ''t''"
  using digit_val_char [of d] by (auto simp: digit_val_def)

lemma dec_nat_chars: "c \<in> set (dec_nat n) \<Longrightarrow> \<exists>d<10. c = digit_char d"
proof (induction n rule: dec_nat.induct)
  case (1 n)
  have last: "\<exists>d<10. digit_char (n mod 10) = digit_char d" by (intro exI [of _ "n mod 10"]) simp
  from 1 show ?case by (subst (asm) dec_nat.simps) (auto split: if_splits intro: last)
qed

lemma i64_to_string_chars: "c \<in> set (i64_to_string v) \<Longrightarrow> c \<noteq> CHR '':'' \<and> c \<noteq> CHR ''t''"
  using digit_char_simps by (auto simp: i64_to_string_def dest!: dec_nat_chars split: if_splits)

lemma i64_to_string_eq: "i64_to_string v = i64_to_string u \<longleftrightarrow> v = u"
proof
  assume eq: "i64_to_string v = i64_to_string u"
  have sign: "hd (dec_nat n) \<noteq> CHR ''-''" for n
    using dec_nat_Cons [of n] digit_char_not_sign by fastforce
  show "v = u"
  proof (cases "v < 0 \<longleftrightarrow> u < 0")
    case True
    with eq show ?thesis by (auto simp: i64_to_string_def dec_nat_inj split: if_splits)
  next
    case False
    with eq sign [of "nat v"] sign [of "nat u"] show ?thesis
      by (auto simp: i64_to_string_def split: if_splits) (metis list.sel(1))+
  qed
qed simp

lemma blocks_key_inj: "blocks_key l b = blocks_key l' b' \<longleftrightarrow> l = l' \<and> b = b'"
proof
  assume eq: "blocks_key l b = blocks_key l' b'"
  let ?tail = "\<lambda>b. case b of None \<Rightarrow> ''tip'' | Some b \<Rightarrow> i64_to_string (height_val b)"
  have "i64_to_string l @ CHR '':'' # ?tail b = i64_to_string l' @ CHR '':'' # ?tail b'"
    using eq by (simp add: blocks_key_def)
  moreover have "CHR '':'' \<notin> set (i64_to_string l)" "CHR '':'' \<notin> set (?tail b)"
    using i64_to_string_chars by (auto split: option.splits)
  ultimately have "i64_to_string l = i64_to_string l'" "?tail b = ?tail b'"
    by (simp_all add: append_Cons_eq_iff)
  moreover have "''tip'' \<noteq> i64_to_string v" for v
    using i64_to_string_chars [of "CHR ''t''" v] by (metis list.set_intros(1))
  ultimately show "l = l' \<and> b = b'"
    by (cases b; cases b') (auto simp: i64_to_string_eq intro: block_height.expand dest: sym)
qed simp

section \<open>What the client operations do to the store\<close>

definition delays_within :: "nat \<Rightarrow> 'z api_world_scheme \<Rightarrow> bool" where
  "delays_within dmax w \<longleftrightarrow> (\<forall>(oc, d)\<in>set (redis_net w). d \<le> dmax)"

text \<open>What an operation of the client leaves alone.\<close>

definition same_data :: "'z api_world_scheme \<Rightarrow> 'z api_world_scheme \<Rightarrow> bool" where
  "same_data w w' \<longleftrightarrow> w_db w' = w_db w \<and> stats_daily_mv w' = stats_daily_mv w \<and> w_net w' = w_net w"

lemma breaker_open_run:
  assumes "breaker_open w = (b, w1)"
  shows "\<exists>br. w1 = w\<lparr>breaker := br\<rparr>"
  using assms by (auto simp: breaker_open_def split: prod.splits)

lemma redis_call_run:
  assumes "redis_call op w = (r, w')" and "delays_within dmax w"
  shows "same_data w w' \<and> clock w \<le> clock w' \<and> clock w' \<le> clock w + dmax \<and> delays_within dmax w' \<and>
    breaker w' = breaker w \<and> redis_store w' \<in> {redis_store w, snd (op (clock w') (redis_store w))} \<and>
    (\<forall>a. r = Inr a \<longrightarrow> a = fst (op (clock w') (redis_store w)) \<and>
      redis_store w' = snd (op (clock w') (redis_store w)))"
  using assms
  by (cases "redis_net w"; cases "op (clock w + (case redis_net w of [] \<Rightarrow> 0 | x # xs \<Rightarrow> snd x)) (redis_store w)")
    (auto simp: redis_call_def Let_def same_data_def delays_within_def split: redis_outcome.splits prod.splits)

lemma guarded_run:
  assumes "guarded (redis_call op) w = (r, w')" and "delays_within dmax w"
  shows "same_data w w' \<and> clock w \<le> clock w' \<and> clock w' \<le> clock w + dmax \<and> delays_within dmax w' \<and>
    redis_store w' \<in> {redis_store w, snd (op (clock w') (redis_store w))} \<and>
    (\<forall>a. r = Inr a \<longrightarrow> a = fst (op (clock w') (redis_store w)))"
proof -
  obtain b w1 where o: "breaker_open w = (b, w1)" by fastforce
  then obtain br where w1: "w1 = w\<lparr>breaker := br\<rparr>" using breaker_open_run by blast
  obtain q w2 where c: "redis_call op w1 = (q, w2)" by fastforce
  have "delays_within dmax w1" using assms(2) by (simp add: w1 delays_within_def)
  note run = redis_call_run [OF c this]
  show ?thesis
    using assms o c run
    by (cases b; cases q) (auto simp: guarded_def w1 same_data_def delays_within_def)
qed

definition live :: "nat \<Rightarrow> (string \<Rightarrow> (string \<times> nat) option) \<Rightarrow> string \<Rightarrow> string option" where
  "live t s k = (case s k of None \<Rightarrow> None | Some (body, expires) \<Rightarrow> if t < expires then Some body else None)"

lemma cache_get_run:
  assumes "cache_get namespace c key w = (r, w')" and "delays_within dmax w"
  shows "same_data w w' \<and> clock w \<le> clock w' \<and> clock w' \<le> clock w + dmax \<and> delays_within dmax w' \<and>
    redis_store w' = redis_store w \<and>
    (\<forall>v. r = Inr (Some v) \<longrightarrow>
      (\<exists>body. live (clock w') (redis_store w) (full_key namespace key) = Some body \<and> from_json c body = Inr v))"
proof -
  let ?op = "\<lambda>t s. (live t s (full_key namespace key), s)"
  obtain q w1 where g: "guarded (redis_call ?op) w = (q, w1)" by fastforce
  note run = guarded_run [OF g assms(2)]
  have "cache_get namespace c key w = bind_io (guarded (redis_call ?op)) (\<lambda>raw.
       case raw of
         None \<Rightarrow> ret_io None
       | Some s \<Rightarrow> lift_io (bind_result (map_err Encode (from_json c s)) (\<lambda>v. Inr (Some v)))) w"
    unfolding cache_get_def redis_get_def live_def ..
  with assms(1) g run show ?thesis
    by (auto simp: bind_io_def ret_io_def lift_io_def bind_result_Inr split: sum.splits option.splits)
qed

lemma cache_set_run:
  assumes "cache_set namespace c key v tier w = (r, w')" and "delays_within dmax w"
  shows "same_data w w' \<and> clock w \<le> clock w' \<and> clock w' \<le> clock w + dmax \<and> delays_within dmax w' \<and>
    (redis_store w' = redis_store w \<or>
      (\<exists>body. to_json c v = Inr body \<and> redis_store w' =
        (redis_store w)(full_key namespace key \<mapsto> (body, clock w' + ttl_secs tier * 10 ^ 9))))"
proof (cases "to_json c v")
  case (Inl e)
  with assms show ?thesis
    by (auto simp: cache_set_def same_data_def delays_within_def dest!: breaker_open_run split: prod.splits)
next
  case (Inr body)
  with assms(1) have "guarded (redis_call (\<lambda>t s. ((), s(full_key namespace key \<mapsto> (body, t + ttl_secs tier * 10 ^ 9))))) w = (r, w')"
    by (simp add: cache_set_def redis_set_def)
  from guarded_run [OF this assms(2)] Inr show ?thesis by auto
qed

section \<open>Cached routes\<close>

text \<open>
  A cached route: requests of type \<open>'q\<close>, their keys, the loader, and \<open>view\<close>, what the loader reads
  off the data. Two requests share a key only if they have the same view, and a loader that answers
  answers with the view of the data it ran on, touching nothing but the connection.
\<close>

type_synonym data = "db \<times> daily_mv_row list"

definition data_of :: "'z api_world_scheme \<Rightarrow> data" where
  "data_of w = (w_db w, stats_daily_mv w)"

locale cached_route =
  fixes key :: "'q \<Rightarrow> string" and view :: "'q \<Rightarrow> data \<Rightarrow> 'v option"
    and loader :: "'q \<Rightarrow> (api_world, 'e, 'v) io"
  assumes key_view: "key q = key p \<Longrightarrow> view q = view p"
    and loader_view: "loader q w = (Inr v, w') \<Longrightarrow> view q (data_of w) = Some v"
    and loader_frame: "loader q w = (r, w') \<Longrightarrow> \<exists>ns. w' = w\<lparr>w_net := ns\<rparr>"
begin

text \<open>
  Every live entry of the route's keys is the view of data the database had when some request was
  made, at most the time to live and two delays before it expires. \<open>past\<close> holds those moments.
\<close>

definition fresh :: "string \<Rightarrow> 'v codec \<Rightarrow> tier \<Rightarrow> nat \<Rightarrow> (nat \<times> data) set \<Rightarrow> api_world \<Rightarrow> bool" where
  "fresh namespace c tier dmax past w \<longleftrightarrow> (\<forall>q body expires.
     redis_store w (full_key namespace (key q)) = Some (body, expires) \<longrightarrow>
     (\<exists>(s, D)\<in>past. \<exists>v. view q D = Some v \<and> to_json c v = Inr body \<and>
        expires \<le> s + ttl_secs tier * 10 ^ 9 + 2 * dmax))"

definition serve :: "string \<Rightarrow> 'v codec \<Rightarrow> tier \<Rightarrow> 'q \<Rightarrow> (api_world, 'e, 'v) io" where
  "serve namespace c tier q = get_or_load (Some namespace) c (key q) tier (loader q)"

lemma fresh_mono: "fresh ns c tier dmax past w \<Longrightarrow> past \<subseteq> past' \<Longrightarrow> fresh ns c tier dmax past' w"
  unfolding fresh_def by blast

lemma fresh_store: "fresh ns c tier dmax past w \<Longrightarrow> redis_store w' = redis_store w \<Longrightarrow> fresh ns c tier dmax past w'"
  by (simp add: fresh_def)

lemma full_key_eq: "full_key ns k = full_key ns k' \<longleftrightarrow> k = k'"
  by (simp add: full_key_def)

lemma fresh_hit:
  assumes "fresh namespace c tier dmax past w" and json: "\<And>v b. to_json c v = Inr b \<Longrightarrow> from_json c b = Inr v"
    and hit: "live t (redis_store w) (full_key namespace (key q)) = Some body" "from_json c body = Inr v"
  shows "\<exists>(s, D)\<in>past. view q D = Some v \<and> t \<le> s + ttl_secs tier * 10 ^ 9 + 2 * dmax"
proof -
  from hit(1) obtain expires where "redis_store w (full_key namespace (key q)) = Some (body, expires)"
    and exp: "t < expires" by (auto simp: live_def split: option.splits if_splits)
  with assms(1) obtain s D u where "(s, D) \<in> past" "view q D = Some u" "to_json c u = Inr body"
    and "expires \<le> s + ttl_secs tier * 10 ^ 9 + 2 * dmax"
    unfolding fresh_def by blast
  moreover from this json hit(2) have "u = v" by fastforce
  ultimately show ?thesis using exp by (intro bexI [of _ "(s, D)"]) auto
qed

lemma fresh_put:
  assumes "fresh namespace c tier dmax past w" and set: "cache_set namespace c (key q) v tier w = (u, w')"
    and "delays_within dmax w" and moment: "(s, D) \<in> past" "view q D = Some v" "clock w' \<le> s + 2 * dmax"
  shows "fresh namespace c tier dmax past w'"
  unfolding fresh_def
proof (intro allI impI)
  fix p body expires
  assume entry: "redis_store w' (full_key namespace (key p)) = Some (body, expires)"
  note put = cache_set_run [OF set assms(3)]
  show "\<exists>(s, D)\<in>past. \<exists>v. view p D = Some v \<and> to_json c v = Inr body \<and>
      expires \<le> s + ttl_secs tier * 10 ^ 9 + 2 * dmax"
  proof (cases "redis_store w' = redis_store w \<or> key p \<noteq> key q")
    case True
    with entry put have "redis_store w (full_key namespace (key p)) = Some (body, expires)"
      by (auto simp: full_key_eq split: if_splits)
    with assms(1) show ?thesis unfolding fresh_def by blast
  next
    case False
    with entry put have "to_json c v = Inr body" "expires = clock w' + ttl_secs tier * 10 ^ 9"
      by (auto simp: full_key_eq)
    moreover have "view p D = Some v" using key_view [of p q] False moment(2) by simp
    ultimately show ?thesis using moment by (intro bexI [of _ "(s, D)"]) auto
  qed
qed

lemma served:
  assumes "serve namespace c tier q w = (r, w')" and "fresh namespace c tier dmax past w"
    and "delays_within dmax w" and json: "\<And>v b. to_json c v = Inr b \<Longrightarrow> from_json c b = Inr v"
  shows "fresh namespace c tier dmax (insert (clock w, data_of w) past) w' \<and> data_of w' = data_of w \<and>
    clock w \<le> clock w' \<and> delays_within dmax w' \<and>
    (\<forall>v. r = Inr v \<longrightarrow> (\<exists>(s, D)\<in>insert (clock w, data_of w) past. view q D = Some v \<and>
       clock w' \<le> s + ttl_secs tier * 10 ^ 9 + 2 * dmax)) \<and>
    (\<forall>e. r = Inl e \<longrightarrow> (\<exists>w1 w2. loader q w1 = (Inl e, w2) \<and> data_of w1 = data_of w))"
proof -
  let ?past = "insert (clock w, data_of w) past"
  obtain g w1 where get: "cache_get namespace c (key q) w = (g, w1)" by fastforce
  note got = cache_get_run [OF get assms(3)]
  have past: "fresh namespace c tier dmax ?past w" by (rule fresh_mono [OF assms(2)]) blast
  with got have w1: "data_of w1 = data_of w" "fresh namespace c tier dmax ?past w1"
    by (auto simp: data_of_def same_data_def intro: fresh_store)
  show ?thesis
  proof (cases "\<exists>v. g = Inr (Some v)")
    case True
    then obtain v where v: "g = Inr (Some v)" by blast
    with assms(1) get have r: "r = Inr v" "w' = w1" by (auto simp: serve_def get_or_load_def)
    from got v fresh_hit [OF past json] have "\<exists>(s, D)\<in>?past. view q D = Some v \<and>
        clock w1 \<le> s + ttl_secs tier * 10 ^ 9 + 2 * dmax" by blast
    with w1 got r show ?thesis by blast
  next
    case False
    obtain l w2 where load: "loader q w1 = (l, w2)" by fastforce
    then obtain ns where w2: "w2 = w1\<lparr>w_net := ns\<rparr>" using loader_frame by blast
    have "delays_within dmax w2" using got by (simp add: w2 delays_within_def)
    show ?thesis
    proof (cases l)
      case (Inl e)
      with assms(1) get False load have "r = Inl e" "w' = w2"
        by (auto simp: serve_def get_or_load_def split: sum.splits option.splits)
      with w1 got load Inl \<open>delays_within dmax w2\<close> show ?thesis by (auto simp: w2 data_of_def fresh_def)
    next
      case (Inr v)
      obtain u w3 where set: "cache_set namespace c (key q) v tier w2 = (u, w3)" by fastforce
      with assms(1) get False load Inr have r: "r = Inr v" "w' = w3"
        by (auto simp: serve_def get_or_load_def split: sum.splits option.splits)
      note put = cache_set_run [OF set \<open>delays_within dmax w2\<close>]
      have view: "view q (data_of w) = Some v"
        using loader_view [OF load [unfolded Inr]] w1(1) by simp
      have times: "clock w3 \<le> clock w + 2 * dmax" "clock w \<le> clock w3"
        using put got by (simp_all add: w2)
      have "fresh namespace c tier dmax ?past w2" using w1(2) by (rule fresh_store) (simp add: w2)
      from fresh_put [OF this set \<open>delays_within dmax w2\<close> insertI1 view times(1)]
      have "fresh namespace c tier dmax ?past w3" .
      moreover have "data_of w3 = data_of w" using put w1(1) by (auto simp: data_of_def same_data_def w2)
      moreover have "view q (data_of w) = Some v \<and> clock w3 \<le> clock w + ttl_secs tier * 10 ^ 9 + 2 * dmax"
        using view times by simp
      ultimately show ?thesis using r times put by auto
    qed
  qed
qed

end

section \<open>The routes of the API\<close>

text \<open>
  An operation that only reads: what it answers is what it would answer on an undisturbed connection
  to the same data, and all it can change is the connection.
\<close>

definition reads :: "(api_world, 'e, 'v) io \<Rightarrow> bool" where
  "reads m \<longleftrightarrow>
     (\<forall>w v w' u. m w = (Inr v, w') \<longrightarrow> data_of u = data_of w \<longrightarrow> w_net u = [] \<longrightarrow> m u = (Inr v, u)) \<and>
     (\<forall>w r w'. m w = (r, w') \<longrightarrow> (\<exists>ns. w' = w\<lparr>w_net := ns\<rparr>))"

text \<open>What a loader reads off some data.\<close>

definition still :: "data \<Rightarrow> api_world" where
  "still D = \<lparr>w_db = fst D, w_net = [], stats_daily_mv = snd D, redis_store = (\<lambda>_. None), redis_net = [],
     breaker = breaker_new 1 0, clock = 0\<rparr>"

definition view_of :: "(api_world, 'e, 'v) io \<Rightarrow> data \<Rightarrow> 'v option" where
  "view_of m D = (case fst (m (still D)) of Inl _ \<Rightarrow> None | Inr v \<Rightarrow> Some v)"

lemma data_of_still [simp]: "data_of (still D) = D" "w_net (still D) = []"
  by (simp_all add: data_of_def still_def)

lemma cached_routeI:
  assumes "\<And>q p. key q = key p \<Longrightarrow> loader q = loader p" and "\<And>q. reads (loader q)"
  shows "cached_route key (\<lambda>q. view_of (loader q)) loader"
proof
  fix q w v w'
  assume run: "loader q w = (Inr v, w')"
  from assms(2) [of q] have "\<forall>w v w' u. loader q w = (Inr v, w') \<longrightarrow> data_of u = data_of w \<longrightarrow> w_net u = [] \<longrightarrow>
      loader q u = (Inr v, u)" unfolding reads_def by (rule conjunct1)
  then have "loader q (still (data_of w)) = (Inr v, still (data_of w))"
    using run data_of_still by blast
  then show "view_of (loader q) (data_of w) = Some v" by (simp add: view_of_def)
next
  show "\<exists>ns. w' = w\<lparr>w_net := ns\<rparr>" if "loader q w = (r, w')" for q w r w'
    using assms(2) [of q] that unfolding reads_def by blast
next
  show "view_of (loader q) = view_of (loader p)" if "key q = key p" for q p
    by (simp only: assms(1) [OF that])
qed

named_theorems reads_intros

lemma query_frame: "query f w = (r, w') \<Longrightarrow> \<exists>ns. w' = w\<lparr>w_net := ns\<rparr>"
  by (auto simp: query_def map_err_io_def request_def statement_def
      split: list.splits pg_outcome.splits sum.splits prod.splits)

lemma reads_query [reads_intros]: "reads (query f)"
  unfolding reads_def
proof (intro conjI allI impI)
  fix w v w' u
  assume "query f w = (Inr v, w')" "data_of u = data_of w" "w_net u = []"
  then show "query f u = (Inr v, u)"
    using query_run(2) [of f w "Inr v" w' v] by (simp add: query_answered data_of_def)
qed (rule query_frame)

lemma reads_map_err [reads_intros]: "reads m \<Longrightarrow> reads (map_err_io g m)"
  unfolding reads_def map_err_io_Inr
  by (auto simp: map_err_io_def split: prod.splits)

lemma reads_ret [reads_intros]: "reads (ret_io v)"
proof -
  have "\<exists>ns. w = w\<lparr>w_net := ns\<rparr>" for w :: api_world
    by (rule exI [of _ "w_net w"]) simp
  then show ?thesis by (auto simp: reads_def ret_io_def)
qed

lemma reads_bind [reads_intros]:
  assumes "reads m" "\<And>a. reads (k a)"
  shows "reads (bind_io m k)"
  unfolding reads_def
proof (intro conjI allI impI)
  fix w v w' and u :: api_world
  assume run: "bind_io m k w = (Inr v, w')" and u: "data_of u = data_of w" "w_net u = []"
  then obtain a w1 where 1: "m w = (Inr a, w1)" "k a w1 = (Inr v, w')" by (auto simp: bind_io_Inr)
  from 1(1) assms(1) obtain ns where "w1 = w\<lparr>w_net := ns\<rparr>" unfolding reads_def by blast
  then have "data_of u = data_of w1" using u(1) by (simp add: data_of_def)
  with 1 u assms have "m u = (Inr a, u)" "k a u = (Inr v, u)" unfolding reads_def by blast+
  then show "bind_io m k u = (Inr v, u)" by (simp add: bind_io_def)
next
  fix w r w'
  assume run: "bind_io m k w = (r, w')"
  obtain q w1 where 1: "m w = (q, w1)" by fastforce
  with assms(1) obtain ns where w1: "w1 = w\<lparr>w_net := ns\<rparr>" unfolding reads_def by blast
  show "\<exists>ns. w' = w\<lparr>w_net := ns\<rparr>"
  proof (cases q)
    case (Inl e)
    with run 1 w1 show ?thesis by (auto simp: bind_io_def)
  next
    case (Inr a)
    with run 1 have "k a w1 = (r, w')" by (simp add: bind_io_def)
    then obtain ns' where "w' = w1\<lparr>w_net := ns'\<rparr>" using assms(2) unfolding reads_def by blast
    with w1 show ?thesis by auto
  qed
qed

lemma reads_fetch [reads_intros]: "reads (fetch_all dec rows)" "reads (fetch_optional dec row)"
  unfolding fetch_all_def fetch_optional_def by (intro reads_intros)+

lemma reads_stats [reads_intros]: "reads (stats_daily to_date limit)"
  unfolding reads_def
proof (intro conjI allI impI)
  fix w v w' u
  assume "stats_daily to_date limit w = (Inr v, w')" "data_of u = data_of w" "w_net u = []"
  then show "stats_daily to_date limit u = (Inr v, u)"
    unfolding stats_daily_def fetch_all_def
    using query_run(2) by (fastforce simp: query_answered data_of_def)
next
  fix w r w'
  assume "stats_daily to_date limit w = (r, w')"
  then show "\<exists>ns. w' = w\<lparr>w_net := ns\<rparr>" unfolding stats_daily_def fetch_all_def by (rule query_frame)
qed

lemma reads_loaders [reads_intros]:
  "reads (load_blocks before limit)" "reads (load_active limit)" "reads (load_contracts limit asc)"
  "reads (load_tokens limit)" "reads (load_whales limit)"
  unfolding load_blocks_def load_tokens_def load_whales_def list_before_def load_active_def top_senders_def load_contracts_def
    list_contracts_def list_tokens_def top_by_value_def
  by (intro reads_intros)+

interpretation blocks_route: cached_route "\<lambda>(limit, before). blocks_key limit before"
    "\<lambda>q. view_of (case q of (limit, before) \<Rightarrow> load_blocks before limit)" "\<lambda>(limit, before). load_blocks before limit"
  by (rule cached_routeI) (auto simp: blocks_key_inj intro: reads_intros)

interpretation active_route: cached_route "\<lambda>limit. ''accounts:active:'' @ i64_to_string limit"
    "\<lambda>limit. view_of (load_active limit)" load_active
  by (rule cached_routeI) (auto simp: i64_to_string_eq intro: reads_intros)

interpretation whale_route: cached_route "\<lambda>limit. ''whale:transfers:'' @ i64_to_string limit"
    "\<lambda>limit. view_of (load_whales limit)" load_whales
  by (rule cached_routeI) (auto simp: i64_to_string_eq intro: reads_intros)

interpretation contracts_route: cached_route "\<lambda>limit. ''contracts:'' @ name @ '':'' @ i64_to_string limit"
    "\<lambda>limit. view_of (load_contracts limit asc)" "\<lambda>limit. load_contracts limit asc" for name asc
  by (rule cached_routeI) (auto simp: i64_to_string_eq intro: reads_intros)

interpretation tokens_route: cached_route "\<lambda>limit. ''coinblast:tokens:'' @ i64_to_string limit"
    "\<lambda>limit. view_of (load_tokens limit)" load_tokens
  by (rule cached_routeI) (auto simp: i64_to_string_eq intro: reads_intros)

interpretation stats_route: cached_route "\<lambda>limit. ''stats:daily:'' @ i64_to_string limit"
    "\<lambda>limit. view_of (map_err_io ApiDb (stats_daily to_date limit))"
    "\<lambda>limit. map_err_io ApiDb (stats_daily to_date limit)" for to_date
  by (rule cached_routeI) (auto simp: i64_to_string_eq intro: reads_intros)

end
