(* ===== verification/Cache_Theorems.thy ===== *)
theory Cache_Theorems
  imports Cache_Laws Samples
begin

text \<open>
  Properties of the cache: what a cached answer can be, and what a dead Redis costs.
\<close>

section \<open>Freshness\<close>

text \<open>
  The life of one process and its Redis, as the key/value pairs of one route see it: requests to the
  route, and steps of the environment, which may change the data, the connection, the breaker and
  every other key at will, let time pass and drop keys. \<open>past\<close> collects the moments of the requests
  with the data of that moment.
\<close>

inductive cache_reach :: "(string \<Rightarrow> bool) \<Rightarrow> ('q \<Rightarrow> (api_world, 'e, 'v) io) \<Rightarrow> nat \<Rightarrow>
    (nat \<times> data) set \<Rightarrow> api_world \<Rightarrow> bool"
  for owned :: "string \<Rightarrow> bool" and handler :: "'q \<Rightarrow> (api_world, 'e, 'v) io" and dmax :: nat
where
  boot: "(\<And>k. owned k \<Longrightarrow> redis_store w k = None) \<Longrightarrow> delays_within dmax w \<Longrightarrow>
    cache_reach owned handler dmax {} w"
| environment: "cache_reach owned handler dmax past w \<Longrightarrow> clock w \<le> clock w' \<Longrightarrow> delays_within dmax w' \<Longrightarrow>
    (\<And>k. owned k \<Longrightarrow> redis_store w' k = None \<or> redis_store w' k = redis_store w k) \<Longrightarrow>
    cache_reach owned handler dmax past w'"
| answer: "cache_reach owned handler dmax past w \<Longrightarrow> handler q w = (r, w') \<Longrightarrow>
    cache_reach owned handler dmax (insert (clock w, data_of w) past) w'"











section \<open>The breaker\<close>




lemma record_failure_config [simp]:
  "cb_threshold (record_failure t b) = cb_threshold b" "cb_open_for (record_failure t b) = cb_open_for b"
  by (simp_all add: record_failure_def Let_def)






end
