(* ===== verification/Router.thy ===== *)
theory Router
  imports Cache_Laws
begin

text \<open>
  \<open>crates/api/src/lib.rs\<close> with the \<open>router\<close> functions of the route modules and \<open>graphql.rs\<close>: the whole
  API as one operation from a request to a response. Matching of a path and the layers follow axum:
  the layer added last runs first, so a request meets the request id, the bearer guard, the rate
  limiter and then its handler. The verdict of the limiter, the percent-decoding of a path segment,
  the query map and the root fields of a GraphQL document are what the libraries hand to the code:
  they are parts of the request.
\<close>

section \<open>Requests and responses\<close>

datatype http_method = GetMethod | PostMethod | OtherMethod

datatype gql_field = GqlBlock i64 | GqlBlocks "i32 option" "i64 option" | GqlTransaction string

datatype gql_value =
    GqlBlockValue "block_gql option"
  | GqlBlocksValue "block_gql list"
  | GqlTxValue "transaction_with_logs option"

text \<open>
  \<open>HEAD\<close> counts as \<open>GET\<close>, as axum serves it. \<open>rq_secs\<close> and \<open>rq_nanos\<close> are the clock when the request
  arrives. \<open>rq_query\<close> is \<open>None\<close> when axum rejects the query string, and \<open>rq_decode\<close> when it rejects a segment.
\<close>

record http_request =
  rq_method :: http_method
  rq_path :: string
  rq_query :: "(string \<Rightarrow> string option) option"
  rq_decode :: "string \<Rightarrow> string option"
  rq_authorization :: "string option"
  rq_request_id :: "string option"
  rq_admitted :: bool
  rq_pg_timely :: bool
  rq_gql :: "gql_field list option"
  rq_secs :: u64
  rq_nanos :: u64

datatype api_body =
    NoBody
  | JsonBody json
  | DocumentBody string
  | BlocksBody list_response
  | BlockBody wire_block_with_txs
  | TxBody tx_response
  | TxsBody "wire_tx list"
  | TransfersBody "wire_transfer list"
  | ActiveBody "active_account list"
  | WhalesBody "whale_transfer list"
  | ContractsBody "contract_entry list"
  | StatsBody "stats_daily_row list"
  | TokensBody "wire_token list"
  | TokenBody wire_token
  | TradesBody "wire_trade list"
  | EsBody es_envelope
  | GqlBody "(string + gql_value) list"

type_synonym response = "nat \<times> api_body"

section \<open>Routes\<close>

datatype endpoint =
    EHealth | EReadyz | EOpenapi | EDocs | EBlocks | EBlock string | ETx string
  | EAddressTxs string | EAddressTransfers string | EActive | EWhales
  | ETokens | EToken string | ETrades | EStatsDaily | EContracts string | EEtherscan
  | EGraphql | EPlayground

text \<open>A parameter \<open>{..}\<close> of a route matches one segment that is not empty.\<close>

definition static_routes :: "(string list \<times> endpoint) list" where
  "static_routes =
     [([''health''], EHealth), ([''readyz''], EReadyz), ([''openapi.json''], EOpenapi), ([''docs''], EDocs),
      ([''blocks''], EBlocks),
      ([''accounts'', ''active''], EActive), ([''whale'', ''transfers''], EWhales), ([''whale'', ''tx''], EWhales),
      ([''coinblast'', ''tokens''], ETokens), ([''coinblast'', ''trades''], ETrades),
      ([''stats'', ''daily''], EStatsDaily),
      ([''contracts'', ''recent''], EContracts ''recent''), ([''contracts'', ''pioneers''], EContracts ''pioneers''),
      ([''contracts'', ''stats''], EContracts ''stats''),
      ([''api''], EEtherscan), ([''graphql''], EGraphql), ([''graphql'', ''playground''], EPlayground)]"

definition param_route :: "string list \<Rightarrow> endpoint option" where
  "param_route segments =
     (case segments of
        [a, p] \<Rightarrow>
          if p = [] then None
          else if a = ''blocks'' then Some (EBlock p)
          else if a = ''tx'' then Some (ETx p)
          else None
      | [a, p, b] \<Rightarrow>
          if a = ''address'' \<and> p \<noteq> [] then
            if b = ''txs'' then Some (EAddressTxs p)
            else if b = ''transfers'' then Some (EAddressTransfers p) else None
          else if a = ''coinblast'' \<and> p = ''tokens'' \<and> b \<noteq> [] then Some (EToken b)
          else None
      | _ \<Rightarrow> None)"

definition route :: "string \<Rightarrow> endpoint option" where
  "route path =
     (case split_on CHR ''/'' path of
        [] # segments \<Rightarrow>
          (case map_of static_routes segments of
             Some e \<Rightarrow> Some e
           | None \<Rightarrow> param_route segments)
      | _ \<Rightarrow> None)"

definition route_method :: "endpoint \<Rightarrow> http_method" where
  "route_method e = (if e = EGraphql then PostMethod else GetMethod)"

section \<open>Handlers\<close>

record app_state =
  as_cache :: "string option"
  as_blocks_codec :: "list_response codec"
  as_active_codec :: "active_account list codec"
  as_whales_codec :: "whale_transfer list codec"
  as_contracts_codec :: "contract_entry list codec"
  as_stats_codec :: "stats_daily_row list codec"
  as_tokens_codec :: "wire_token list codec"
  as_value_codec :: "json codec"
  as_ext :: ext
  as_to_date :: "i64 \<Rightarrow> string"

definition respond :: "('a \<Rightarrow> api_body) \<Rightarrow> ('w, api_error, 'a) io \<Rightarrow> 'w \<Rightarrow> response \<times> 'w" where
  "respond body m w =
     (case m w of
        (Inl e, w') \<Rightarrow> (case error_response e of (status, j) \<Rightarrow> ((status, JsonBody j), w'))
      | (Inr v, w') \<Rightarrow> ((200, body v), w'))"

definition with_query :: "http_request \<Rightarrow> ((string \<Rightarrow> string option) \<Rightarrow> 'w \<Rightarrow> response \<times> 'w) \<Rightarrow> 'w \<Rightarrow> response \<times> 'w" where
  "with_query rq h w = (case rq_query rq of None \<Rightarrow> ((400, NoBody), w) | Some q \<Rightarrow> h q w)"

definition with_segment :: "http_request \<Rightarrow> string \<Rightarrow> (string \<Rightarrow> 'w \<Rightarrow> response \<times> 'w) \<Rightarrow> 'w \<Rightarrow> response \<times> 'w" where
  "with_segment rq raw h w = (case rq_decode rq raw of None \<Rightarrow> ((400, NoBody), w) | Some s \<Rightarrow> h s w)"

definition es_query_of :: "(string \<Rightarrow> string option) \<Rightarrow> es_query" where
  "es_query_of q = \<lparr>es_module = q ''module'', es_action = q ''action'', es_address = q ''address'',
     es_start_block = q ''startblock'', es_end_block = q ''endblock'', es_page = q ''page'',
     es_offset = q ''offset'', es_sort = q ''sort'', es_timestamp = q ''timestamp'', es_closest = q ''closest''\<rparr>"

fun gql_resolve :: "ext \<Rightarrow> gql_field \<Rightarrow> ('z world_scheme, string, gql_value) io" where
  "gql_resolve x (GqlBlock h) = bind_io (gql_block x h) (\<lambda>b. ret_io (GqlBlockValue b))"
| "gql_resolve x (GqlBlocks n before) = bind_io (gql_blocks x n before) (\<lambda>bs. ret_io (GqlBlocksValue bs))"
| "gql_resolve x (GqlTransaction h) = bind_io (gql_transaction x h) (\<lambda>t. ret_io (GqlTxValue t))"

text \<open>Each root field has its value or its error; the status of the response is 200.\<close>

fun gql_execute :: "ext \<Rightarrow> gql_field list \<Rightarrow> 'z world_scheme \<Rightarrow> (string + gql_value) list \<times> 'z world_scheme" where
  "gql_execute x [] w = ([], w)"
| "gql_execute x (f # fs) w =
     (let (r, w1) = gql_resolve x f w; (rs, w2) = gql_execute x fs w1 in (r # rs, w2))"

definition handle :: "app_state \<Rightarrow> http_request \<Rightarrow> endpoint \<Rightarrow> 'z api_world_scheme \<Rightarrow> response \<times> 'z api_world_scheme" where
  "handle st rq e w =
     (case e of
        EHealth \<Rightarrow> ((200, JsonBody health), w)
      | EReadyz \<Rightarrow> (case readyz (rq_pg_timely rq) (as_cache st) (as_value_codec st) w of
          ((status, j), w') \<Rightarrow> ((status, JsonBody j), w'))
      | EOpenapi \<Rightarrow> ((200, DocumentBody ''openapi.json''), w)
      | EDocs \<Rightarrow> ((200, DocumentBody ''docs''), w)
      | EPlayground \<Rightarrow> ((200, DocumentBody ''playground''), w)
      | EBlocks \<Rightarrow> with_query rq (\<lambda>q. respond BlocksBody
          (blocks_list (as_cache st) (as_blocks_codec st) (q ''limit'') (q ''before''))) w
      | EBlock raw \<Rightarrow> with_segment rq raw (\<lambda>s. respond BlockBody (block_detail s)) w
      | ETx raw \<Rightarrow> with_segment rq raw (\<lambda>s. respond TxBody (tx_detail s)) w
      | EAddressTxs raw \<Rightarrow> with_segment rq raw (\<lambda>a. with_query rq (\<lambda>q. respond TxsBody (address_txs a (q ''limit'')))) w
      | EAddressTransfers raw \<Rightarrow> with_segment rq raw (\<lambda>a. with_query rq (\<lambda>q. respond TransfersBody
          (address_transfers a (q ''standard'') (q ''limit'')))) w
      | EActive \<Rightarrow> with_query rq (\<lambda>q. respond ActiveBody
          (accounts_active (as_cache st) (as_active_codec st) (q ''limit''))) w
      | EWhales \<Rightarrow> with_query rq (\<lambda>q. respond WhalesBody
          (whale_transfers (as_cache st) (as_whales_codec st) (q ''limit''))) w
      | ETokens \<Rightarrow> with_query rq (\<lambda>q. respond TokensBody
          (coinblast_tokens (as_cache st) (as_tokens_codec st) (q ''limit''))) w
      | EToken raw \<Rightarrow> with_segment rq raw (\<lambda>s. respond TokenBody (coinblast_token_detail s)) w
      | ETrades \<Rightarrow> with_query rq (\<lambda>q. respond TradesBody (coinblast_trades (q ''curve'') (q ''limit''))) w
      | EStatsDaily \<Rightarrow> with_query rq (\<lambda>q. respond StatsBody
          (stats_daily_route (as_to_date st) (as_cache st) (as_stats_codec st) (q ''limit''))) w
      | EContracts name \<Rightarrow> with_query rq (\<lambda>q. respond ContractsBody
          ((if name = ''pioneers'' then contracts_pioneers
            else if name = ''recent'' then contracts_recent else contracts_stats)
             (as_cache st) (as_contracts_codec st) (q ''limit''))) w
      | EEtherscan \<Rightarrow> with_query rq (\<lambda>q w. case es_dispatch (as_ext st) (es_query_of q) w of
          (env, w') \<Rightarrow> ((200, EsBody env), w')) w
      | EGraphql \<Rightarrow> (case rq_gql rq of
          None \<Rightarrow> ((400, NoBody), w)
        | Some fs \<Rightarrow> (case gql_execute (as_ext st) fs w of (vs, w') \<Rightarrow> ((200, GqlBody vs), w'))))"

definition dispatch_route :: "app_state \<Rightarrow> http_request \<Rightarrow> 'z api_world_scheme \<Rightarrow> response \<times> 'z api_world_scheme" where
  "dispatch_route st rq w =
     (case route (rq_path rq) of
        None \<Rightarrow> ((404, NoBody), w)
      | Some e \<Rightarrow> if rq_method rq \<noteq> route_method e then ((405, NoBody), w) else handle st rq e w)"

section \<open>Layers\<close>

record router_config =
  rc_auth_token :: "string option"
  rc_rate_per_sec :: u64
  rc_rate_burst :: u32

definition router_config_default :: router_config where
  "router_config_default = \<lparr>rc_auth_token = None, rc_rate_per_sec = 50, rc_rate_burst = 50\<rparr>"

text \<open>
  The guard stands before the limiter: a request that lacks the token does not count. Outermost is the
  request id, which every response carries; \<open>seq\<close> is the process-wide counter of fresh ids.
\<close>

definition layered :: "app_state \<Rightarrow> router_config \<Rightarrow> http_request \<Rightarrow> 'z api_world_scheme \<Rightarrow>
    response \<times> 'z api_world_scheme" where
  "layered st cfg rq w =
     (if \<not> require_bearer (rc_auth_token cfg) (rq_path rq) (rq_authorization rq)
      then ((fst unauthorized, JsonBody (snd unauthorized)), w)
      else if \<not> rq_admitted rq then ((429, NoBody), w)
      else dispatch_route st rq w)"

definition make_router :: "app_state \<Rightarrow> router_config \<Rightarrow> http_request \<Rightarrow> u64 \<Rightarrow> 'z api_world_scheme \<Rightarrow>
    (string \<times> response) \<times> u64 \<times> 'z api_world_scheme" where
  "make_router st cfg rq seq w =
     (let (rid, seq') = request_id (as_ext st) (rq_request_id rq) (rq_secs rq) (rq_nanos rq) seq;
          (resp, w') = layered st cfg rq w
      in ((rid, resp), seq', w'))"

end
