(* ===== verification/Router_Theorems.thy ===== *)
theory Router_Theorems
  imports Router Api_Theorems
begin

text \<open>
  Properties of the API as a whole: it only reads, its responses have a fixed set of shapes that carry
  no internal error, and with a token configured nothing but \<open>/health\<close> is served without it.
\<close>

section \<open>Handlers leave the data alone\<close>

definition readonly :: "(api_world \<Rightarrow> 'a \<times> api_world) \<Rightarrow> bool" where
  "readonly m \<longleftrightarrow> (\<forall>w. data_of (snd (m w)) = data_of w)"

named_theorems readonly_intros

lemma readonlyD: "readonly m \<Longrightarrow> m w = (r, w') \<Longrightarrow> data_of w' = data_of w"
  unfolding readonly_def by (metis snd_conv)

lemma readonly_stay [readonly_intros]: "readonly (\<lambda>w. (r, w))"
  by (simp add: readonly_def)

lemma readonly_reads:
  assumes "reads m"
  shows "readonly m"
  unfolding readonly_def
proof
  fix w
  obtain r w' where m: "m w = (r, w')" by fastforce
  with assms obtain ns where "w' = w\<lparr>w_net := ns\<rparr>" unfolding reads_def by blast
  with m show "data_of (snd (m w)) = data_of w" by (simp add: data_of_def)
qed

lemma readonly_then [readonly_intros]:
  assumes "readonly m" "\<And>r. readonly (k r)"
  shows "readonly (\<lambda>w. case m w of (r, w') \<Rightarrow> k r w')"
  using assms unfolding readonly_def by (auto split: prod.splits) (metis snd_conv)

lemma readonly_bind [readonly_intros]: "readonly m \<Longrightarrow> (\<And>a. readonly (k a)) \<Longrightarrow> readonly (bind_io m k)"
  unfolding readonly_def bind_io_def by (auto split: prod.splits sum.splits) (metis snd_conv)+

lemma delays_within_some: "\<exists>dmax. delays_within dmax w"
proof -
  let ?ds = "insert 0 (snd ` set (redis_net w))"
  have "d \<le> Max ?ds" if "(oc, d) \<in> set (redis_net w)" for oc d
    by (rule Max_ge) (use that in \<open>auto intro!: rev_image_eqI\<close>)
  then show ?thesis by (auto simp: delays_within_def)
qed

lemma readonly_cache:
  shows cache_get_data: "cache_get ns c k w = (r, w') \<Longrightarrow> data_of w' = data_of w"
    and cache_set_data: "cache_set ns c k v t w = (q, w') \<Longrightarrow> data_of w' = data_of w"
proof -
  obtain dmax where d: "delays_within dmax w" using delays_within_some by blast
  show "cache_get ns c k w = (r, w') \<Longrightarrow> data_of w' = data_of w"
    using cache_get_run [OF _ d] by (fastforce simp: same_data_def data_of_def)
  show "cache_set ns c k v t w = (q, w') \<Longrightarrow> data_of w' = data_of w"
    using cache_set_run [OF _ d] by (fastforce simp: same_data_def data_of_def)
qed

lemma readonly_get_or_load [readonly_intros]:
  assumes "reads loader"
  shows "readonly (get_or_load cache c key tier loader)"
  unfolding readonly_def
proof
  fix w
  note load = readonlyD [OF readonly_reads [OF assms]]
  have loaded: "data_of (snd (loader w)) = data_of w"
    by (rule load [OF prod.collapse [symmetric]])
  have put: "data_of (snd (cache_set ns c key v tier w1)) = data_of w1" for ns v w1
    by (rule cache_set_data [OF prod.collapse [symmetric]])
  show "data_of (snd (get_or_load cache c key tier loader w)) = data_of w"
    by (auto simp: get_or_load_def put loaded split: option.splits prod.splits sum.splits dest!: cache_get_data load)
qed

lemma reads_lift [reads_intros]: "reads (lift_io r)"
  unfolding reads_def lift_io_def
proof (intro conjI allI impI)
  show "\<exists>ns. w' = w\<lparr>w_net := ns\<rparr>" if "(r, w) = (q, w')" for w q and w' :: api_world
    using that by (intro exI [of _ "w_net w"]) simp
qed auto

lemma reads_queries [reads_intros]:
  "reads (blocks_get_by_height h)" "reads (blocks_get_by_hash hash)" "reads (txs_for_block h)"
  "reads (tx_get_by_hash hash)" "reads (logs_for_tx hash)" "reads (txs_for_address a limit)"
  "reads (transfers_for_address a standard limit)" "reads (get_token curve)" "reads (list_trades cv limit)"
  "reads (list_before before limit)" "reads (block_by_time closest ts)"
  unfolding blocks_get_by_height_def blocks_get_by_hash_def txs_for_block_def tx_get_by_hash_def logs_for_tx_def
    txs_for_address_def transfers_for_address_def get_token_def list_trades_def list_before_def block_by_time_def
  by (intro reads_intros)+

lemma reads_handlers [reads_intros]:
  "reads (block_detail s)" "reads (tx_detail s)" "reads (address_txs a limit)" "reads (address_transfers a std limit)"
  "reads (coinblast_token_detail s)" "reads (coinblast_trades cv limit)"
  unfolding block_detail_def tx_detail_def Let_def address_txs_def address_transfers_def coinblast_token_detail_def
    coinblast_trades_def
  by (intro reads_intros)+

lemma readonly_respond [readonly_intros]:
  assumes "readonly m"
  shows "readonly (respond body m)"
  using readonlyD [OF assms] unfolding readonly_def respond_def by (auto split: prod.splits sum.splits)

lemma readonly_wraps [readonly_intros]:
  "(\<And>q. readonly (h q)) \<Longrightarrow> readonly (with_query rq h)" "(\<And>s. readonly (g s)) \<Longrightarrow> readonly (with_segment rq raw g)"
  by (auto simp: readonly_def with_query_def with_segment_def split: option.splits)

lemma readonly_lift [readonly_intros]: "readonly (lift_io r)"
  by (simp add: readonly_def lift_io_def)

lemma readonly_cached [readonly_intros]:
  "readonly (blocks_list cache c lim before)" "readonly (accounts_active cache ca lim)"
  "readonly (whale_transfers cache cw lim)" "readonly (contracts_route name asc cache cc lim)"
  "readonly (coinblast_tokens cache ct lim)" "readonly (stats_daily_route to_date cache cs lim)"
  unfolding blocks_list_def accounts_active_def whale_transfers_def contracts_route_def coinblast_tokens_def
    stats_daily_route_def Let_def
  by (intro readonly_intros reads_intros)+

lemma reads_gql [reads_intros]: "reads (gql_block x h)" "reads (gql_blocks x n before)" "reads (gql_transaction x s)"
proof -
  show "reads (gql_block x h)" "reads (gql_blocks x n before)"
    unfolding gql_block_def gql_blocks_def gql_query_def Let_def by (intro reads_intros)+
  have "reads (case row of None \<Rightarrow> ret_io None
        | Some tx \<Rightarrow> bind_io (map_err_io g (logs_for_tx (to_lowercase s))) (\<lambda>ls. ret_io (Some (k tx ls))))"
    for row g and k :: "transaction \<Rightarrow> log list \<Rightarrow> transaction_with_logs"
    by (cases row) (auto intro: reads_intros)
  then show "reads (gql_transaction x s)"
    unfolding gql_transaction_def gql_query_def Let_def by (intro reads_intros)
qed

lemma reads_resolve: "reads (gql_resolve x f)"
  by (cases f) (auto intro: reads_intros)

lemma readonly_execute [readonly_intros]: "readonly (gql_execute x fs)"
proof (induction fs)
  case (Cons f fs)
  show ?case
    using readonlyD [OF readonly_reads [OF reads_resolve]] readonlyD [OF Cons]
    unfolding readonly_def by (auto simp: Let_def split: prod.splits)
qed (simp add: readonly_def)

lemma readonly_etherscan [readonly_intros]: "readonly (es_dispatch x q)"
proof -
  note txs = readonlyD [OF readonly_reads [OF reads_queries(6)]] and time = readonlyD [OF readonly_reads [OF reads_queries(11)]]
  have "readonly (txlist x q)"
    unfolding readonly_def txlist_def by (auto split: option.splits prod.splits sum.splits dest!: txs)
  moreover have "readonly (getblocknobytime q)"
    unfolding readonly_def getblocknobytime_def Let_def
    by (auto split: option.splits prod.splits sum.splits dest!: time)
  ultimately show ?thesis by (simp add: readonly_def es_dispatch_def Let_def)
qed

lemma readonly_readyz [readonly_intros]: "readonly (readyz timely cache c)"
proof -
  have "readonly (pg_probe timely)"
    using readonlyD [OF readonly_reads [OF reads_query]]
    unfolding readonly_def pg_probe_def by (auto split: prod.splits)
  moreover have "readonly (cache_probe cache c)"
    unfolding readonly_def cache_probe_def
    by (auto split: option.splits prod.splits sum.splits cache_error.splits dest!: cache_get_data)
  ultimately show ?thesis
    unfolding readonly_def readyz_def by (simp add: Let_def split: prod.splits) (metis snd_conv)
qed

lemma readonly_handle [readonly_intros]: "readonly (handle st rq e)"
proof -
  have "readonly (\<lambda>w. case fields of None \<Rightarrow> ((400, NoBody), w)
      | Some fs \<Rightarrow> (case gql_execute x fs w of (vs, w') \<Rightarrow> ((200 :: nat, GqlBody vs), w')))" for x fields
    by (cases fields) (auto intro: readonly_intros)
  moreover have "readonly (\<lambda>w. case readyz t c k w of ((status, j), w') \<Rightarrow> ((status, JsonBody j), w'))" for t c k
    using readonlyD [OF readonly_readyz] by (auto simp: readonly_def split: prod.splits)
  ultimately show ?thesis
    by (cases e) (auto simp: handle_def [abs_def] contracts_pioneers_def contracts_recent_def contracts_stats_def
        intro!: readonly_intros readonly_reads reads_intros split: option.splits if_splits)
qed

lemma readonly_layered: "readonly (layered st cfg rq)"
  using readonly_handle unfolding readonly_def layered_def dispatch_route_def by (auto split: option.splits)

text \<open>C37: The API only reads. Whatever request reaches the router, in whatever state of the cache, the
  connection and the limiter, the tables and the statistics view stay as they are; a request turned
  away by the guard or the limiter touches neither the database nor Redis.\<close>

theorem api_is_read_only:
  fixes w :: api_world
  shows "case make_router st cfg rq seq w of ((rid, status, body), seq', w') \<Rightarrow>
    w_db w' = w_db w \<and> stats_daily_mv w' = stats_daily_mv w \<and>
    (\<not> require_bearer (rc_auth_token cfg) (rq_path rq) (rq_authorization rq) \<or> \<not> rq_admitted rq \<longrightarrow> w' = w)"
proof -
  have "data_of (snd (layered st cfg rq w)) = data_of w"
    using readonly_layered unfolding readonly_def by blast
  then show ?thesis
    by (auto simp: make_router_def data_of_def layered_def Let_def split: prod.splits)
qed

definition s_app :: app_state where
  "s_app = \<lparr>as_cache = None, as_blocks_codec = s_no_codec,
     as_active_codec = \<lparr>to_json = (\<lambda>_. Inl []), from_json = (\<lambda>_. Inl [])\<rparr>,
     as_whales_codec = \<lparr>to_json = (\<lambda>_. Inl []), from_json = (\<lambda>_. Inl [])\<rparr>,
     as_contracts_codec = \<lparr>to_json = (\<lambda>_. Inl []), from_json = (\<lambda>_. Inl [])\<rparr>,
     as_stats_codec = \<lparr>to_json = (\<lambda>_. Inl []), from_json = (\<lambda>_. Inl [])\<rparr>,
     as_tokens_codec = \<lparr>to_json = (\<lambda>_. Inl []), from_json = (\<lambda>_. Inl [])\<rparr>,
     as_value_codec = \<lparr>to_json = (\<lambda>_. Inl []), from_json = (\<lambda>_. Inl [])\<rparr>,
     as_ext = ext_ref, as_to_date = i64_to_string\<rparr>"

definition s_request :: "string \<Rightarrow> string option \<Rightarrow> http_request" where
  "s_request path auth = \<lparr>rq_method = GetMethod, rq_path = path, rq_query = Some (\<lambda>_. None), rq_decode = Some,
     rq_authorization = auth, rq_request_id = Some ''id'', rq_admitted = True, rq_pg_timely = True,
     rq_gql = None, rq_secs = 0, rq_nanos = 0\<rparr>"

definition s_config :: router_config where
  "s_config = router_config_default\<lparr>rc_auth_token := Some ''t''\<rparr>"

definition s_down :: api_world where
  "s_down = (still (s_db, []))\<lparr>w_net := [Refused]\<rparr>"

theorem api_is_read_only_witness:
  "snd (snd (make_router s_app s_config (s_request ''/blocks/1'' (Some ''Bearer u'')) 0 s_down)) = s_down \<and>
   w_db (snd (snd (make_router s_app s_config (s_request ''/blocks/1'' (Some ''Bearer t'')) 0 s_down))) = s_db"
proof -
  have "\<not> require_bearer (rc_auth_token s_config) (rq_path (s_request ''/blocks/1'' (Some ''Bearer u'')))
      (rq_authorization (s_request ''/blocks/1'' (Some ''Bearer u'')))" by code_simp
  then show ?thesis
    using api_is_read_only [where st = s_app and cfg = s_config and rq = "s_request ''/blocks/1'' (Some ''Bearer u'')" and seq = 0 and w = s_down]
      api_is_read_only [where st = s_app and cfg = s_config and rq = "s_request ''/blocks/1'' (Some ''Bearer t'')" and seq = 0 and w = s_down]
    by (auto simp: s_down_def still_def split: prod.splits)
qed

section \<open>Shapes of responses\<close>

definition internal_error :: api_body where
  "internal_error = JsonBody (JObject [(''error'', JString ''internal server error''), (''code'', JString ''internal'')])"

definition fixed_messages :: "api_body \<Rightarrow> bool" where
  "fixed_messages b = (case b of
      GqlBody vs \<Rightarrow> list_all (\<lambda>v. case v of Inl msg \<Rightarrow> msg = ''internal server error'' | Inr _ \<Rightarrow> True) vs
    | _ \<Rightarrow> True)"

definition answer_ok :: "nat set \<Rightarrow> response \<Rightarrow> bool" where
  "answer_ok S resp \<longleftrightarrow> fst resp \<in> S \<and> (fst resp = 500 \<longrightarrow> snd resp = internal_error) \<and> fixed_messages (snd resp)"

lemma answer_ok_simple: "s \<in> S \<Longrightarrow> s \<noteq> 500 \<Longrightarrow> fixed_messages b \<Longrightarrow> answer_ok S (s, b)"
  by (simp add: answer_ok_def)

lemma error_ok:
  assumes "{400, 404, 500} \<subseteq> S"
  shows "answer_ok S (case error_response e of (status, j) \<Rightarrow> (status, JsonBody j))"
  using assms by (cases e) (simp_all add: error_response_def answer_ok_def internal_error_def fixed_messages_def)

lemma respond_ok:
  assumes "\<And>v. fixed_messages (body v)" "{200, 400, 404, 500} \<subseteq> S"
  shows "answer_ok S (fst (respond body m w))"
proof (cases "m w")
  case (Pair r w')
  show ?thesis
  proof (cases r)
    case (Inl e)
    with Pair error_ok [of S e] assms(2) show ?thesis
      by (cases "error_response e") (simp add: respond_def)
  next
    case (Inr v)
    with Pair assms show ?thesis by (simp add: respond_def answer_ok_simple)
  qed
qed

lemma wraps_ok:
  "400 \<in> S \<Longrightarrow> (\<And>q w. answer_ok S (fst (h q w))) \<Longrightarrow> answer_ok S (fst (with_query rq h w))"
  "400 \<in> S \<Longrightarrow> (\<And>s w. answer_ok S (fst (g s w))) \<Longrightarrow> answer_ok S (fst (with_segment rq raw g w))"
  by (auto simp: with_query_def with_segment_def answer_ok_def fixed_messages_def split: option.splits)

lemma gql_query_error: "gql_query m w = (Inl e, w') \<Longrightarrow> e = ''internal server error''"
  by (auto simp: gql_query_def map_err_io_def map_err_def split: prod.splits sum.splits)

lemma gql_resolve_error: "gql_resolve x f w = (Inl e, w') \<Longrightarrow> e = ''internal server error''"
  by (cases f) (auto simp: gql_block_def gql_blocks_def gql_transaction_def bind_io_def ret_io_def Let_def
      dest: gql_query_error split: prod.splits sum.splits option.splits)

lemma gql_execute_messages: "gql_execute x fs w = (vs, w') \<Longrightarrow> fixed_messages (GqlBody vs)"
proof (induction fs arbitrary: w vs w')
  case (Cons f fs)
  obtain r w1 where 1: "gql_resolve x f w = (r, w1)" by fastforce
  obtain rs w2 where 2: "gql_execute x fs w1 = (rs, w2)" by fastforce
  show ?case
    using Cons.prems Cons.IH [OF 2] gql_resolve_error [of x f w _ w1] 1 2
    by (auto simp: fixed_messages_def split: sum.splits)
qed (simp add: fixed_messages_def)

lemma handle_ok:
  assumes "{200, 400, 404, 500} \<subseteq> S" and "e = EReadyz \<longrightarrow> 503 \<in> S"
  shows "answer_ok S (fst (handle st rq e w))"
proof (cases "e = EGraphql")
  case True
  with assms show ?thesis
    by (auto simp: handle_def answer_ok_simple gql_execute_messages fixed_messages_def [of NoBody]
        split: option.splits prod.splits)
next
  case False
  have "fixed_messages (JsonBody j)" "fixed_messages (DocumentBody d)" "fixed_messages (EsBody ev)" for j d ev
    by (simp_all add: fixed_messages_def)
  note basic = this answer_ok_simple
  from False show ?thesis
    using assms
    by (cases e) (auto simp: handle_def basic readyz_def Let_def fixed_messages_def
        split: prod.splits intro!: wraps_ok respond_ok answer_ok_simple)
qed

text \<open>C39: The responses of the API have fixed shapes. The status is one of eight; 503 is the readiness
  probe's; a 500 has one fixed body, so that no text of a database error reaches a client, and so have
  the errors of GraphQL fields. The response carries the caller's request id when there is one.\<close>

theorem api_responses_typed:
  fixes w :: api_world
  shows "case make_router st cfg rq seq w of ((rid, status, body), seq', w') \<Rightarrow>
    status \<in> {200, 400, 401, 404, 405, 429, 500, 503} \<and>
    (status = 503 \<longrightarrow> route (rq_path rq) = Some EReadyz) \<and>
    (status = 500 \<longrightarrow> body = internal_error) \<and> fixed_messages body \<and>
    (\<forall>i. rq_request_id rq = Some i \<longrightarrow> rid = i)"
proof -
  let ?S = "{200, 400, 401, 404, 405, 429, 500} \<union> (if route (rq_path rq) = Some EReadyz then {503} else {})"
  have "answer_ok ?S (fst (layered st cfg rq w))"
    by (auto simp: layered_def dispatch_route_def unauthorized_def fixed_messages_def
        intro!: answer_ok_simple handle_ok split: option.splits)
  then show ?thesis
    by (auto simp: make_router_def request_id_def answer_ok_def Let_def split: prod.splits if_splits)
qed

theorem api_responses_typed_witness:
  "fst (snd (fst (make_router s_app s_config (s_request ''/blocks/1'' (Some ''Bearer t'')) 0 s_down))) = 500 \<and>
   snd (fst (make_router s_app s_config (s_request ''/blocks/1'' (Some ''Bearer t'')) 0 s_down)) = (500, internal_error)"
proof -
  have "fst (snd (fst (make_router s_app s_config (s_request ''/blocks/1'' (Some ''Bearer t'')) 0 s_down))) = 500"
    by code_simp
  then show ?thesis
    using api_responses_typed [where st = s_app and cfg = s_config and rq = "s_request ''/blocks/1'' (Some ''Bearer t'')" and seq = 0 and w = s_down]
    by (auto split: prod.splits)
qed

section \<open>The token\<close>

text \<open>C40: A configured token guards everything but \<open>/health\<close>. The API answers 401 exactly to the
  requests for another path whose header is not \<open>Bearer\<close> followed by the token, with white space around
  it ignored, whatever the limiter says, and does nothing else for them. A configured token that itself
  begins or ends with white space therefore locks everybody out.\<close>

theorem token_guards_everything:
  fixes w :: api_world
  assumes "rc_auth_token cfg = Some token"
  shows "case make_router st cfg rq seq w of ((rid, status, body), seq', w') \<Rightarrow>
    (status = 401 \<longleftrightarrow> rq_path rq \<noteq> ''/health'' \<and>
       \<not> (\<exists>s. rq_authorization rq = Some (''Bearer '' @ s) \<and> trim s = token)) \<and>
    (status = 401 \<longrightarrow> w' = w) \<and>
    (trim token \<noteq> token \<longrightarrow> rq_path rq \<noteq> ''/health'' \<longrightarrow> status = 401)"
proof -
  let ?ok = "require_bearer (Some token) (rq_path rq) (rq_authorization rq)"
  have "fst (fst (layered st cfg rq w)) = 401 \<longleftrightarrow> \<not> ?ok"
  proof (cases ?ok)
    case True
    have "answer_ok ({200, 400, 404, 405, 429, 500, 503}) (fst (layered st cfg rq w))"
      using True assms
      by (auto simp: layered_def dispatch_route_def fixed_messages_def
          intro!: answer_ok_simple handle_ok split: option.splits)
    with True show ?thesis by (auto simp: answer_ok_def)
  next
    case False
    with assms show ?thesis by (simp add: layered_def unauthorized_def)
  qed
  moreover have "\<not> ?ok \<longrightarrow> snd (layered st cfg rq w) = w"
    using assms by (simp add: layered_def)
  moreover obtain status body w' where run: "layered st cfg rq w = ((status, body), w')"
    by (metis surj_pair)
  ultimately have "(status = 401 \<longleftrightarrow> \<not> ?ok) \<and> (\<not> ?ok \<longrightarrow> w' = w)" by simp
  with bearer_guard_exact [of token "rq_path rq" "rq_authorization rq"]
  have "(status = 401 \<longleftrightarrow> rq_path rq \<noteq> ''/health'' \<and>
       \<not> (\<exists>s. rq_authorization rq = Some (''Bearer '' @ s) \<and> trim s = token)) \<and>
    (status = 401 \<longrightarrow> w' = w) \<and> (trim token \<noteq> token \<longrightarrow> rq_path rq \<noteq> ''/health'' \<longrightarrow> status = 401)"
    by blast
  then show ?thesis
    unfolding make_router_def run Let_def by (simp only: prod.case split: prod.split) simp
qed

theorem token_guards_everything_witness:
  "fst (snd (fst (make_router s_app (s_config\<lparr>rc_auth_token := Some '' t''\<rparr>) (s_request ''/blocks'' (Some ''Bearer  t'')) 0 s_down))) = 401"
proof -
  have "trim '' t'' \<noteq> '' t''" by code_simp
  then show ?thesis
    using token_guards_everything [where cfg = "s_config\<lparr>rc_auth_token := Some '' t''\<rparr>" and token = "'' t''" and st = s_app
        and rq = "s_request ''/blocks'' (Some ''Bearer  t'')" and seq = 0 and w = s_down]
    by (auto simp: s_request_def split: prod.splits)
qed

end
