(* ===== verification/Detector.thy ===== *)
theory Detector
  imports Backfill Queries
begin

text \<open>
  \<open>crates/sync/src/contract_detect.rs\<close>: the worker that classifies the rows of \<open>addresses\<close> with
  \<open>eth_getCode\<close>. Parsing an address and hashing the code are done by alloy, a parameter of the model.
  Each sweep has its own answers of the node, one per probe, and its own cancellation flags.
\<close>

section \<open>The worker\<close>

record alloy =
  addr_from_str :: "string \<Rightarrow> u8 list option"
  keccak256 :: "u8 list \<Rightarrow> u8 list"

definition keccak_laws :: "alloy \<Rightarrow> bool" where
  "keccak_laws k \<longleftrightarrow> (\<forall>bs. length (keccak256 k bs) = 32)"

definition no_code :: string where "no_code = ''0x''"

definition code_hash_of :: "ext \<Rightarrow> alloy \<Rightarrow> u8 list \<Rightarrow> string" where
  "code_hash_of x k code = (if code \<noteq> [] then ''0x'' @ hex_encode x (keccak256 k code) else no_code)"

definition classify_one :: "ext \<Rightarrow> alloy \<Rightarrow> node \<Rightarrow> string \<Rightarrow> ('z world_scheme, sync_error, unit) io" where
  "classify_one x k n addr =
     (case addr_from_str k addr of
        None \<Rightarrow> map_err_io DbErr (addresses_classify addr False no_code)
      | Some parsed \<Rightarrow>
          bind_io (lift_io (map_err ChainErr (get_code n parsed))) (\<lambda>code.
            map_err_io DbErr (addresses_classify addr (code \<noteq> []) (code_hash_of x k code))))"

text \<open>One sweep; a probe that fails is logged and skipped. \<open>True\<close>: cancelled on the way.\<close>

fun sweep :: "ext \<Rightarrow> alloy \<Rightarrow> (nat \<Rightarrow> node) \<Rightarrow> (nat \<Rightarrow> bool) \<Rightarrow> nat \<Rightarrow> string list \<Rightarrow> 'z world_scheme \<Rightarrow>
    bool \<times> 'z world_scheme" where
  "sweep x k ns cancel i [] w = (False, w)"
| "sweep x k ns cancel i (addr # addrs) w =
     (if cancel i then (True, w)
      else sweep x k ns cancel (Suc i) addrs (snd (classify_one x k (ns i) addr w)))"

record sweep_input =
  si_cancelled :: bool
  si_nodes :: "nat \<Rightarrow> node"
  si_cancel :: "nat \<Rightarrow> bool"

text \<open>\<open>None\<close>: every tick so far was handled and the worker waits for the next.\<close>

fun run_contract_detector :: "ext \<Rightarrow> alloy \<Rightarrow> i64 \<Rightarrow> sweep_input list \<Rightarrow> 'z world_scheme \<Rightarrow>
    (sync_error + unit) option \<times> 'z world_scheme" where
  "run_contract_detector x k batch [] w = (None, w)"
| "run_contract_detector x k batch (t # ts) w =
     (if si_cancelled t then (Some (Inr ()), w)
      else case unclassified_batch batch w of
        (Inl e, w1) \<Rightarrow> (Some (Inl (DbErr e)), w1)
      | (Inr candidates, w1) \<Rightarrow>
          (case sweep x k (si_nodes t) (si_cancel t) 0 candidates w1 of
             (True, w2) \<Rightarrow> (Some (Inr ()), w2)
           | (False, w2) \<Rightarrow> run_contract_detector x k batch ts w2))"

section \<open>Marking rows\<close>

text \<open>
  \<open>code\<close> is the code an address has on the chain; \<open>class_of\<close> the classification the row should get.
\<close>

definition class_of :: "ext \<Rightarrow> alloy \<Rightarrow> (u8 list \<Rightarrow> u8 list) \<Rightarrow> string \<Rightarrow> bool \<times> string" where
  "class_of x k code addr =
     (case addr_from_str k addr of
        None \<Rightarrow> (False, no_code)
      | Some a \<Rightarrow> (code a \<noteq> [], code_hash_of x k (code a)))"

definition mark_rows :: "ext \<Rightarrow> alloy \<Rightarrow> (u8 list \<Rightarrow> u8 list) \<Rightarrow> string set \<Rightarrow> address_row list \<Rightarrow> address_row list" where
  "mark_rows x k code as rows = map (\<lambda>r. if ar_address r \<in> as
     then r\<lparr>ar_is_contract := fst (class_of x k code (ar_address r)),
            ar_code_hash := Some (snd (class_of x k code (ar_address r)))\<rparr> else r) rows"

definition unclassified :: "db \<Rightarrow> string list" where
  "unclassified d = map ar_address (filter (\<lambda>r. ar_code_hash r = None) (tbl_addresses d))"

text \<open>Nodes that never lie about the code of an account; they may fail.\<close>

definition code_node :: "(u8 list \<Rightarrow> u8 list) \<Rightarrow> node \<Rightarrow> bool" where
  "code_node code n \<longleftrightarrow> (\<forall>a c. eth_get_code n a = Inr c \<longrightarrow> c = code a)"

definition class_row :: "ext \<Rightarrow> alloy \<Rightarrow> (u8 list \<Rightarrow> u8 list) \<Rightarrow> address_row \<Rightarrow> bool" where
  "class_row x k code r \<longleftrightarrow>
     (\<forall>h. ar_code_hash r = Some h \<longrightarrow> (ar_is_contract r, h) = class_of x k code (ar_address r))"

definition classes_right :: "ext \<Rightarrow> alloy \<Rightarrow> (u8 list \<Rightarrow> u8 list) \<Rightarrow> db \<Rightarrow> bool" where
  "classes_right x k code d \<longleftrightarrow> list_all (class_row x k code) (tbl_addresses d)"

lemma mark_rows_basic [simp]:
  "mark_rows x k code {} rows = rows"
  "map ar_address (mark_rows x k code as rows) = map ar_address rows"
  "map ar_first_seen (mark_rows x k code as rows) = map ar_first_seen rows"
  "map ar_last_seen (mark_rows x k code as rows) = map ar_last_seen rows"
  by (simp_all add: mark_rows_def)

lemma mark_rows_mark [simp]:
  "mark_rows x k code as (mark_rows x k code bs rows) = mark_rows x k code (as \<union> bs) rows"
  by (auto simp: mark_rows_def)

lemma mark_rows_right:
  "list_all (class_row x k code) rows \<Longrightarrow> list_all (class_row x k code) (mark_rows x k code as rows)"
  by (induction rows) (auto simp: mark_rows_def class_row_def)

lemma mark_rows_unclassified:
  "map ar_address (filter (\<lambda>r. ar_code_hash r = None) (mark_rows x k code as rows)) =
   filter (\<lambda>a. a \<notin> as) (map ar_address (filter (\<lambda>r. ar_code_hash r = None) rows))"
  by (induction rows) (auto simp: mark_rows_def)

lemma unclassified_mark:
  "unclassified (d\<lparr>tbl_addresses := mark_rows x k code as (tbl_addresses d)\<rparr>) = filter (\<lambda>a. a \<notin> as) (unclassified d)"
  using mark_rows_unclassified [of x k code as "tbl_addresses d"] by (simp add: unclassified_def)

lemma class_hash_fits:
  assumes "hex_laws x" "keccak_laws k"
  shows "varchar_fits 66 (snd (class_of x k code addr))"
  using assms by (auto simp: class_of_def code_hash_of_def no_code_def varchar_fits_def hex_laws_def keccak_laws_def
      split: option.splits)

section \<open>One probe\<close>

lemma classify_stmt_marks:
  assumes "varchar_fits 66 (snd (class_of x k code addr))"
  shows "classify_stmt addr (fst (class_of x k code addr)) (snd (class_of x k code addr)) d =
    (Inr (), d\<lparr>tbl_addresses := mark_rows x k code {addr} (tbl_addresses d)\<rparr>)"
  using assms by (auto simp: classify_stmt_def mark_rows_def)

lemma classify_one_request:
  assumes "code_node code n"
  shows "(\<exists>e. classify_one x k n addr w = (Inl e, w)) \<or>
    classify_one x k n addr w = map_err_io DbErr
      (addresses_classify addr (fst (class_of x k code addr)) (snd (class_of x k code addr))) w"
  using assms by (auto simp: classify_one_def class_of_def bind_io_def lift_io_def get_code_def code_node_def
      split: option.splits sum.splits)

lemma request_marks:
  assumes "varchar_fits 66 (snd (class_of x k code addr))"
  shows "\<exists>as\<in>{{}, {addr}}. w_db (snd (map_err_io DbErr (addresses_classify addr (fst (class_of x k code addr))
      (snd (class_of x k code addr))) w)) = w_db w\<lparr>tbl_addresses := mark_rows x k code as (tbl_addresses (w_db w))\<rparr>"
  by (auto simp: addresses_classify_def map_err_io_def request_def statement_def classify_stmt_marks [OF assms(1)]
      split: list.splits pg_outcome.splits prod.splits)

lemma classify_one_db:
  assumes "code_node code n" "hex_laws x" "keccak_laws k"
  shows "\<exists>as. w_db (snd (classify_one x k n addr w)) =
    w_db w\<lparr>tbl_addresses := mark_rows x k code as (tbl_addresses (w_db w))\<rparr>"
  using classify_one_request [OF assms(1), of x k addr w]
proof (elim disjE exE)
  fix e
  assume "classify_one x k n addr w = (Inl e, w)"
  then show ?thesis by (intro exI [of _ "{}"]) simp
next
  assume "classify_one x k n addr w = map_err_io DbErr
      (addresses_classify addr (fst (class_of x k code addr)) (snd (class_of x k code addr))) w"
  moreover obtain as where "w_db (snd (map_err_io DbErr (addresses_classify addr (fst (class_of x k code addr))
      (snd (class_of x k code addr))) w)) = w_db w\<lparr>tbl_addresses := mark_rows x k code as (tbl_addresses (w_db w))\<rparr>"
    using request_marks [of x k code addr w, OF class_hash_fits [OF assms(2,3)]] by blast
  ultimately show ?thesis by (intro exI [of _ as]) simp
qed

lemma classify_one_answered:
  assumes "eth_get_code n = (\<lambda>a. Inr (code a))" "hex_laws x" "keccak_laws k" "w_net w = []"
  shows "snd (classify_one x k n addr w) =
    w\<lparr>w_db := w_db w\<lparr>tbl_addresses := mark_rows x k code {addr} (tbl_addresses (w_db w))\<rparr>\<rparr>"
proof -
  have "classify_one x k n addr w = map_err_io DbErr
      (addresses_classify addr (fst (class_of x k code addr)) (snd (class_of x k code addr))) w"
    using assms(1) by (simp add: classify_one_def class_of_def bind_io_def lift_io_def get_code_def split: option.splits)
  then show ?thesis
    using assms(4) classify_stmt_marks [of x k code addr, OF class_hash_fits [OF assms(2,3)]]
    by (simp add: addresses_classify_def map_err_io_def request_def statement_def)
qed

section \<open>Sweeps\<close>

lemma sweep_db:
  assumes "\<And>i. code_node code (ns i)" "hex_laws x" "keccak_laws k"
  shows "\<exists>as. w_db (snd (sweep x k ns cancel i addrs w)) =
    w_db w\<lparr>tbl_addresses := mark_rows x k code as (tbl_addresses (w_db w))\<rparr>"
proof (induction addrs arbitrary: i w)
  case Nil
  show ?case by (intro exI [of _ "{}"]) simp
next
  case (Cons a as)
  show ?case
  proof (cases "cancel i")
    case True
    then show ?thesis by (intro exI [of _ "{}"]) simp
  next
    case False
    obtain bs where 1: "w_db (snd (classify_one x k (ns i) a w)) =
        w_db w\<lparr>tbl_addresses := mark_rows x k code bs (tbl_addresses (w_db w))\<rparr>"
      using classify_one_db [OF assms] by blast
    obtain cs where "w_db (snd (sweep x k ns cancel i (a # as) w)) =
        w_db (snd (classify_one x k (ns i) a w))\<lparr>tbl_addresses := mark_rows x k code cs
          (tbl_addresses (w_db (snd (classify_one x k (ns i) a w))))\<rparr>"
      using Cons.IH [of "Suc i"] False by auto
    with 1 show ?thesis by (intro exI [of _ "cs \<union> bs"]) simp
  qed
qed

lemma sweep_answered:
  assumes "\<And>i. eth_get_code (ns i) = (\<lambda>a. Inr (code a))" "\<And>i. \<not> cancel i" "hex_laws x" "keccak_laws k"
    and "w_net w = []"
  shows "sweep x k ns cancel i addrs w = (False,
    w\<lparr>w_db := w_db w\<lparr>tbl_addresses := mark_rows x k code (set addrs) (tbl_addresses (w_db w))\<rparr>\<rparr>)"
  using assms(5)
proof (induction addrs arbitrary: i w)
  case (Cons a as)
  then show ?case
    using assms(2) classify_one_answered [OF assms(1,3,4) Cons.prems, of i a]
    by simp
qed simp

lemma sweep_failing:
  assumes "\<And>i a. a \<in> set addrs \<Longrightarrow> \<exists>p. addr_from_str k a = Some p \<and> (\<exists>e. eth_get_code (ns i) p = Inl e)"
  shows "snd (sweep x k ns cancel i addrs w) = w"
  using assms
proof (induction addrs arbitrary: i)
  case (Cons a as)
  obtain p e where "addr_from_str k a = Some p" "eth_get_code (ns i) p = Inl e"
    using Cons.prems [of a i] by auto
  then have "snd (classify_one x k (ns i) a w) = w"
    by (simp add: classify_one_def bind_io_def lift_io_def get_code_def)
  with Cons show ?case by simp
qed simp

section \<open>The run\<close>

lemma unclassified_batch_db: "unclassified_batch batch w = (r, w') \<Longrightarrow> w_db w' = w_db w"
  unfolding unclassified_batch_def by (rule query_run(1))

lemma unclassified_batch_Inr:
  "unclassified_batch batch w = (Inr as, w') \<Longrightarrow>
     0 \<le> batch \<and> as = take (nat batch) (unclassified (w_db w)) \<and> w_db w' = w_db w"
  unfolding unclassified_batch_def
  by (frule query_run(1), drule query_run(2) [OF _ refl]) (auto simp: limit_rows_def unclassified_def split: if_splits)

lemma detector_db:
  assumes "\<And>t i. t \<in> set ts \<Longrightarrow> code_node code (si_nodes t i)" "hex_laws x" "keccak_laws k"
  shows "\<exists>as. w_db (snd (run_contract_detector x k batch ts w)) =
    w_db w\<lparr>tbl_addresses := mark_rows x k code as (tbl_addresses (w_db w))\<rparr>"
  using assms(1)
proof (induction ts arbitrary: w)
  case Nil
  show ?case by (intro exI [of _ "{}"]) simp
next
  case (Cons t ts)
  obtain r w1 where q: "unclassified_batch batch w = (r, w1)" by fastforce
  note db1 = unclassified_batch_db [OF q]
  have stop: "\<exists>as. w_db w1 = w_db w\<lparr>tbl_addresses := mark_rows x k code as (tbl_addresses (w_db w))\<rparr>"
    "\<exists>as. w_db w = w_db w\<lparr>tbl_addresses := mark_rows x k code as (tbl_addresses (w_db w))\<rparr>"
    by (intro exI [of _ "{}"], simp add: db1)+
  show ?case
  proof (cases "si_cancelled t \<or> (\<exists>e. r = Inl e)")
    case True
    with q stop show ?thesis by auto
  next
    case False
    then obtain as where r: "r = Inr as" by (cases r) auto
    obtain b w2 where s: "sweep x k (si_nodes t) (si_cancel t) 0 as w1 = (b, w2)" by fastforce
    obtain bs where 2: "w_db w2 = w_db w1\<lparr>tbl_addresses := mark_rows x k code bs (tbl_addresses (w_db w1))\<rparr>"
      using sweep_db [of code "si_nodes t" x k "si_cancel t" 0 as w1] Cons.prems assms(2,3) s by auto
    obtain cs where 3: "w_db (snd (run_contract_detector x k batch ts w2)) =
        w_db w2\<lparr>tbl_addresses := mark_rows x k code cs (tbl_addresses (w_db w2))\<rparr>"
      using Cons.IH [of w2] Cons.prems by auto
    show ?thesis
    proof (cases b)
      case True
      with False q r s 2 db1 show ?thesis by (intro exI [of _ bs]) simp
    next
      case b: False
      with False q r s 2 3 db1 show ?thesis by (intro exI [of _ "cs \<union> bs"]) simp
    qed
  qed
qed

lemma length_unmarked:
  "length (filter (\<lambda>a. a \<notin> set (take n xs)) xs) \<le> length xs - n"
proof -
  have "filter (\<lambda>a. a \<notin> set (take n xs)) xs = filter (\<lambda>a. a \<notin> set (take n xs)) (take n xs @ drop n xs)"
    by simp
  also have "\<dots> = filter (\<lambda>a. a \<notin> set (take n xs)) (drop n xs)"
    by (simp only: filter_append) (simp add: filter_False)
  finally show ?thesis
    using length_filter_le [of _ "drop n xs"] by simp
qed

lemma detector_answered:
  assumes "\<And>t i. t \<in> set ts \<Longrightarrow> \<not> si_cancelled t \<and> \<not> si_cancel t i \<and> eth_get_code (si_nodes t i) = (\<lambda>a. Inr (code a))"
    and "hex_laws x" "keccak_laws k" "0 \<le> batch" "w_net w = []"
  shows "fst (run_contract_detector x k batch ts w) = None \<and>
    length (unclassified (w_db (snd (run_contract_detector x k batch ts w))))
      \<le> length (unclassified (w_db w)) - length ts * nat batch"
  using assms(1,5)
proof (induction ts arbitrary: w)
  case (Cons t ts)
  let ?as = "take (nat batch) (unclassified (w_db w))"
  let ?w = "w\<lparr>w_db := w_db w\<lparr>tbl_addresses := mark_rows x k code (set ?as) (tbl_addresses (w_db w))\<rparr>\<rparr>"
  have q: "unclassified_batch batch w = (Inr ?as, w)"
    using assms(4) Cons.prems(2) by (simp add: unclassified_batch_def query_def map_err_io_def request_def
        statement_def limit_rows_def unclassified_def)
  have s: "sweep x k (si_nodes t) (si_cancel t) 0 ?as w = (False, ?w)"
    by (rule sweep_answered) (use Cons.prems assms(2,3) in simp_all)
  have u: "unclassified (w_db ?w) = filter (\<lambda>a. a \<notin> set ?as) (unclassified (w_db w))"
    by (simp add: unclassified_mark)
  have "fst (run_contract_detector x k batch ts ?w) = None \<and>
      length (unclassified (w_db (snd (run_contract_detector x k batch ts ?w))))
        \<le> length (unclassified (w_db ?w)) - length ts * nat batch"
    by (rule Cons.IH) (use Cons.prems in auto)
  moreover have "length (unclassified (w_db ?w)) \<le> length (unclassified (w_db w)) - nat batch"
    unfolding u by (rule length_unmarked)
  moreover have "run_contract_detector x k batch (t # ts) w = run_contract_detector x k batch ts ?w"
    using Cons.prems(1) [of t] q s by simp
  moreover have "m \<le> u - l * n \<Longrightarrow> u \<le> v - n \<Longrightarrow> m \<le> v - Suc l * n" for m u v l n :: nat
    by simp
  ultimately show ?case by (metis length_Cons)
qed simp

lemma detector_starved:
  assumes "\<And>t i a. t \<in> set ts \<Longrightarrow> a \<in> set (take (nat batch) (unclassified (w_db w))) \<Longrightarrow>
      \<exists>p. addr_from_str k a = Some p \<and> (\<exists>e. eth_get_code (si_nodes t i) p = Inl e)"
  shows "w_db (snd (run_contract_detector x k batch ts w)) = w_db w"
  using assms
proof (induction ts arbitrary: w)
  case (Cons t ts)
  obtain r w1 where q: "unclassified_batch batch w = (r, w1)" by fastforce
  note db1 = unclassified_batch_db [OF q]
  show ?case
  proof (cases r)
    case (Inl e)
    with q db1 show ?thesis by simp
  next
    case (Inr as)
    then have as: "as = take (nat batch) (unclassified (w_db w))"
      using unclassified_batch_Inr q by blast
    obtain b w2 where s: "sweep x k (si_nodes t) (si_cancel t) 0 as w1 = (b, w2)" by fastforce
    have "w2 = w1"
      using sweep_failing [of as k "si_nodes t" x "si_cancel t" 0 w1] Cons.prems [of t] as s by simp
    moreover have "w_db (snd (run_contract_detector x k batch ts w1)) = w_db w1"
      by (rule Cons.IH) (use Cons.prems db1 in auto)
    ultimately show ?thesis using q Inr s db1 by (cases b) simp_all
  qed
qed simp

end
