(* ===== verification/Daemon.thy ===== *)
theory Daemon
  imports Tail Detector Coinblast
begin

text \<open>
  \<open>bin/indexer.rs\<close>: the loops that \<open>main\<close> spawns around the workers of the crates. A loop is given the
  list of its turns, each with what the outside does during it: whether shutdown was requested, the
  node, the answers of the gRPC server. The flag in a result tells whether the loop has returned;
  otherwise it waits for the next turn. Waiting times between turns have no effect on the state.
\<close>

section \<open>Configuration\<close>

definition quoted :: "string \<Rightarrow> string" where
  "quoted s = CHR 0x27 # s @ [CHR 0x27]"

definition parse_network :: "string \<Rightarrow> string + network" where
  "parse_network s =
     (if s = ''mainnet'' then Inr Mainnet
      else if s = ''testnet'' then Inr Testnet
      else Inl (''INDEXER_NETWORK must be '' @ quoted ''mainnet'' @ '' or '' @ quoted ''testnet'' @ '', got '' @ quoted s))"

section \<open>History of the addresses\<close>

text \<open>Runs once, at start; every error is only logged.\<close>

definition address_history :: "'z world_scheme \<Rightarrow> 'z world_scheme" where
  "address_history w =
     (case addresses_count w of
        (Inr n, w1) \<Rightarrow> if n = 0 then snd (backfill_from_transactions w1) else w1
      | (Inl _, w1) \<Rightarrow> w1)"

section \<open>Backfill loop\<close>

record backfill_turn =
  bt_cancelled :: bool
  bt_node :: node
  bt_cancel :: "nat \<Rightarrow> bool"

text \<open>A failed run is logged; the next tick starts over from the stored cursor.\<close>

fun backfill_daemon :: "ext \<Rightarrow> string option \<Rightarrow> bool \<Rightarrow> backfill_turn list \<Rightarrow> 'z sync_world_scheme \<Rightarrow>
    bool \<times> 'z sync_world_scheme" where
  "backfill_daemon x batch_var an [] w = (False, w)"
| "backfill_daemon x batch_var an (t # ts) w =
     (if bt_cancelled t then (True, w)
      else backfill_daemon x batch_var an ts
             (snd (run_backfill x (bt_node t) sync_config_default batch_var an (bt_cancel t) w)))"

section \<open>Tail loop\<close>

record tail_session =
  ss_cancelled :: bool
  ss_connect :: "chain_error + unit"
  ss_opened :: "chain_error + unit"
  ss_inputs :: "tail_input list"

text \<open>The gate outlives the sessions.\<close>

fun tail_daemon :: "ext \<Rightarrow> bool \<Rightarrow> tail_session list \<Rightarrow> gate \<Rightarrow> 'z sync_world_scheme \<Rightarrow>
    bool \<times> gate \<times> 'z sync_world_scheme" where
  "tail_daemon x an [] g w = (False, g, w)"
| "tail_daemon x an (s # ss) g w =
     (if ss_cancelled s then (True, g, w)
      else case ss_connect s of
        Inl _ \<Rightarrow> tail_daemon x an ss g w
      | Inr _ \<Rightarrow>
          (case run_tail x sync_config_default an (ss_opened s) (ss_inputs s) g w of
             (None, g', w') \<Rightarrow> (False, g', w')
           | (Some (Inr Cancelled), g', w') \<Rightarrow> (True, g', w')
           | (Some _, g', w') \<Rightarrow> tail_daemon x an ss g' w'))"

section \<open>Refresh of the statistics\<close>

record stats_turn =
  st_cancelled :: bool
  st_db :: db

text \<open>Each turn finds the database as the writers have left it.\<close>

fun stats_daemon :: "bool \<Rightarrow> stats_turn list \<Rightarrow> 'z stats_world_scheme \<Rightarrow> bool \<times> 'z stats_world_scheme" where
  "stats_daemon populated [] w = (populated, w)"
| "stats_daemon populated (t # ts) w =
     (if st_cancelled t then (populated, w)
      else case (if populated then stats_refresh else stats_refresh_full) (w\<lparr>w_db := st_db t\<rparr>) of
        (Inr _, w') \<Rightarrow> stats_daemon True ts w'
      | (Inl _, w') \<Rightarrow> stats_daemon populated ts w')"

section \<open>Shutdown\<close>

text \<open>
  After the signal \<open>main\<close> cancels the token and awaits its tasks one after the other. A task that
  panicked ends \<open>main\<close> with an error at once, the others not awaited; what a task returned is dropped,
  but for a warning about the flusher.
\<close>

datatype ('e, 'a) joined = TaskPanicked | TaskReturned "'e + 'a"

fun await_tasks :: "('e, 'a) joined list \<Rightarrow> string + unit" where
  "await_tasks [] = Inr ()"
| "await_tasks (TaskPanicked # ts) = Inl ''JoinError''"
| "await_tasks (TaskReturned r # ts) = await_tasks ts"

definition option_list :: "'a option \<Rightarrow> 'a list" where
  "option_list v = (case v of None \<Rightarrow> [] | Some a \<Rightarrow> [a])"

definition indexer_shutdown :: "('e, unit) joined \<Rightarrow> ('e, unit) joined \<Rightarrow> ('e, unit) joined \<Rightarrow> ('e, unit) joined \<Rightarrow>
    ('e, unit) joined option \<Rightarrow> ('e, unit) joined option \<Rightarrow> string + 'e option" where
  "indexer_shutdown stats detector backfill coinblast tail analytics =
     bind_result (await_tasks ([stats, detector, backfill, coinblast] @ option_list tail @ option_list analytics)) (\<lambda>_.
       Inr (case analytics of Some (TaskReturned (Inl e)) \<Rightarrow> Some e | _ \<Rightarrow> None))"

lemma await_tasks_Inr: "await_tasks ts = Inr () \<longleftrightarrow> TaskPanicked \<notin> set ts"
  by (induction ts rule: await_tasks.induct) auto

text \<open>
  The detector and the launchpad worker end for good at their first error; nothing awaits them before
  the shutdown, and then their error changes nothing in the result.
\<close>

lemma shutdown_drops_errors:
  "indexer_shutdown stats (TaskReturned d) backfill (TaskReturned c) tail analytics =
   indexer_shutdown stats (TaskReturned (Inr ())) backfill (TaskReturned (Inr ())) tail analytics"
  by (cases stats; cases backfill) (simp_all add: indexer_shutdown_def)

section \<open>Facts about the loops\<close>

lemma backfill_daemon_append:
  "backfill_daemon x v an (ts @ us) w =
     (case backfill_daemon x v an ts w of (True, w') \<Rightarrow> (True, w') | (False, w') \<Rightarrow> backfill_daemon x v an us w')"
  by (induction ts arbitrary: w) (simp_all split: prod.splits bool.splits)

lemma backfill_daemon_inv:
  assumes "\<And>t. t \<in> set ts \<Longrightarrow> honest_node (bt_node t) \<and> (\<forall>h. node_gaps (bt_node t) h \<longrightarrow> gaps h)"
    and "sync_inv gaps (w_db w)"
  shows "sync_inv gaps (w_db (snd (backfill_daemon x v an ts w))) \<and>
    cursor_pos (w_db w) \<le> cursor_pos (w_db (snd (backfill_daemon x v an ts w))) \<and>
    heights (w_db w) \<subseteq> heights (w_db (snd (backfill_daemon x v an ts w)))"
  using assms
proof (induction ts arbitrary: w)
  case (Cons t ts)
  obtain r w1 where r: "run_backfill x (bt_node t) sync_config_default v an (bt_cancel t) w = (r, w1)"
    by fastforce
  have "saturating_sub_i64 a b \<le> i64_max" for a b
    by (simp add: saturating_sub_i64_def rust_arith)
  then have "run_ok gaps (cursor_pos (w_db w) + 1) i64_max (w_db w) (w_db w1)"
    using Cons.prems by (intro run_backfill_run [OF r]) (auto simp: rust_arith)
  note one = this [unfolded run_ok_def]
  have "sync_inv gaps (w_db (snd (backfill_daemon x v an ts w1))) \<and>
      cursor_pos (w_db w1) \<le> cursor_pos (w_db (snd (backfill_daemon x v an ts w1))) \<and>
      heights (w_db w1) \<subseteq> heights (w_db (snd (backfill_daemon x v an ts w1)))"
    by (rule Cons.IH) (use Cons.prems(1) one in auto)
  then show ?case
    using one r Cons.prems(2) by (cases "bt_cancelled t") (auto intro: order_trans)
qed simp

lemma set_map_filter: "set (List.map_filter f xs) = (\<Union>x\<in>set xs. set_option (f x))"
  by (induction xs) (simp_all add: map_filter_simps split: option.splits)

lemma sightings_set:
  "set (sightings d) = (\<Union>t\<in>set (tbl_txs d). insert (tr_from_addr t, tr_block_height t)
     ((\<lambda>a. (a, tr_block_height t)) ` set_option (tr_to_addr t)))"
  by (simp add: sightings_def set_map_filter option.set_map UN_insert_distrib) blast

text \<open>The upserts of a writer that has seen the transactions in the order of the table.\<close>

definition tx_sightings :: "tx_row \<Rightarrow> (string \<times> i64) list" where
  "tx_sightings t = (tr_from_addr t, tr_block_height t) #
     (case tr_to_addr t of None \<Rightarrow> [] | Some a \<Rightarrow> [(a, tr_block_height t)])"

definition upserted_history :: "tx_row list \<Rightarrow> address_row list" where
  "upserted_history txs = fold upsert_address_row (concat (map tx_sightings txs)) []"

lemma history_row_other: "a \<noteq> fst s \<Longrightarrow> history_row (ss @ [s]) a = history_row ss a"
  by (simp add: history_row_def seen_heights_def)

lemma history_row_cong: "set ss = set ss' \<Longrightarrow> history_row ss a = history_row ss' a"
  by (simp add: history_row_def seen_heights_def)

lemma history_row_address [simp]: "ar_address (history_row ss a) = a"
  by (simp add: history_row_def)

lemma history_row_again:
  assumes "a \<in> fst ` set ss" and "\<And>s. s \<in> set ss \<Longrightarrow> snd s \<le> h"
  shows "history_row (ss @ [(a, h)]) a =
    (history_row ss a)\<lparr>ar_last_seen := max (ar_last_seen (history_row ss a)) h\<rparr>"
proof -
  let ?S = "set (seen_heights a ss)"
  have ne: "?S \<noteq> {}" and le: "\<And>k. k \<in> ?S \<Longrightarrow> k \<le> h"
    using assms by (auto simp: seen_heights_def)
  have "Min (insert h ?S) = Min ?S"
    using ne le [OF Min_in [of ?S]] by (simp add: min_absorb2)
  moreover have "Max (insert h ?S) = max (Max ?S) h"
    using ne by (simp add: max.commute)
  moreover have "set (seen_heights a (ss @ [(a, h)])) = insert h ?S"
    by (simp add: seen_heights_def)
  ultimately show ?thesis by (simp add: history_row_def)
qed

lemma history_row_first: "a \<notin> fst ` set ss \<Longrightarrow> history_row (ss @ [(a, h)]) a =
    \<lparr>ar_address = a, ar_first_seen = h, ar_last_seen = h, ar_is_contract = False, ar_code_hash = None\<rparr>"
proof -
  assume "a \<notin> fst ` set ss"
  then have "seen_heights a (ss @ [(a, h)]) = [h]"
    by (force simp: seen_heights_def filter_empty_conv)
  then show ?thesis by (simp add: history_row_def)
qed

lemma upsert_known: "list_ex (\<lambda>r. ar_address r = a) rows \<Longrightarrow> upsert_address_row (a, h) rows =
    map (\<lambda>r. if ar_address r = a then r\<lparr>ar_last_seen := max (ar_last_seen r) h\<rparr> else r) rows"
  and upsert_new: "\<not> list_ex (\<lambda>r. ar_address r = a) rows \<Longrightarrow> upsert_address_row (a, h) rows = rows @
    [\<lparr>ar_address = a, ar_first_seen = h, ar_last_seen = h, ar_is_contract = False, ar_code_hash = None\<rparr>]"
  by (simp_all add: upsert_address_row_def)

lemma upserts_history:
  assumes "sorted (map snd ss)"
  shows "distinct (map ar_address (fold upsert_address_row ss [])) \<and>
    set (fold upsert_address_row ss []) = history_row ss ` fst ` set ss"
  using assms
proof (induction ss rule: rev_induct)
  case (snoc s ss)
  obtain a h where s: "s = (a, h)" by fastforce
  let ?rows = "fold upsert_address_row ss []"
  have ih: "distinct (map ar_address ?rows)" "set ?rows = history_row ss ` fst ` set ss"
    using snoc by (simp_all add: sorted_append)
  have le: "\<And>s'. s' \<in> set ss \<Longrightarrow> snd s' \<le> h"
    using snoc.prems s by (auto simp: sorted_append)
  have known: "list_ex (\<lambda>r. ar_address r = a) ?rows \<longleftrightarrow> a \<in> fst ` set ss"
    using ih(2) by (auto simp: list_ex_iff)
  have same: "history_row (ss @ [s]) b = history_row ss b" if "b \<noteq> a" for b
    using history_row_other that s by simp
  let ?up = "\<lambda>r. if ar_address r = a then r\<lparr>ar_last_seen := max (ar_last_seen r) h\<rparr> else r"
  show ?case
  proof (cases "a \<in> fst ` set ss")
    case True
    have up: "?up (history_row ss b) = history_row (ss @ [s]) b" for b
      using same [of b] history_row_again [OF True le] s by simp
    have "set (map ?up ?rows) = history_row (ss @ [s]) ` fst ` set ss"
      unfolding set_map ih(2) image_image up ..
    moreover have "map ar_address (map ?up ?rows) = map ar_address ?rows" by simp
    moreover have "fold upsert_address_row (ss @ [s]) [] = map ?up ?rows"
      using True known upsert_known [of a ?rows h] s by simp
    moreover have "fst ` set (ss @ [s]) = fst ` set ss"
      using True s by auto
    ultimately show ?thesis using ih(1) by (simp only:)
  next
    case False
    then have "history_row (ss @ [s]) ` fst ` set ss = set ?rows"
      unfolding ih(2) using same by (metis (no_types, lifting) image_cong)
    moreover have "fold upsert_address_row (ss @ [s]) [] = ?rows @ [history_row (ss @ [s]) a]"
      using False known upsert_new [of a ?rows h] s history_row_first [of a ss h] by simp
    moreover have "set (map ar_address ?rows) = fst ` set ss"
      unfolding set_map ih(2) image_image by simp
    then have "a \<notin> set (map ar_address ?rows)"
      using False by simp
    ultimately show ?thesis using ih(1) s by simp
  qed
qed simp

lemma concat_sightings:
  "sorted (map tr_block_height txs) \<Longrightarrow> sorted (map snd (concat (map tx_sightings txs)))"
  by (induction txs) (auto simp: tx_sightings_def sorted_append split: option.splits)

lemma set_concat_sightings: "set (concat (map tx_sightings (tbl_txs d))) = set (sightings d)"
  by (auto simp: sightings_set tx_sightings_def split: option.splits)

lemma history_stmt_seeds:
  assumes "tbl_addresses d = []" "list_all (\<lambda>s. varchar_fits 42 (fst s)) (sightings d)"
    and "sorted (map tr_block_height (tbl_txs d))"
  shows "\<exists>rows. history_stmt d = (Inr (length rows), d\<lparr>tbl_addresses := rows\<rparr>) \<and>
    distinct (map ar_address rows) \<and> set rows = set (upserted_history (tbl_txs d))"
proof -
  let ?rows = "map (history_row (sightings d)) (remdups (map fst (sightings d)))"
  have "history_stmt d = (Inr (length ?rows), d\<lparr>tbl_addresses := ?rows\<rparr>)"
    using assms(1,2) by (simp add: history_stmt_def Let_def)
  moreover have "distinct (map ar_address ?rows)"
    by (simp add: comp_def)
  moreover have "set ?rows = set (upserted_history (tbl_txs d))"
    using upserts_history [OF concat_sightings [OF assms(3)]] history_row_cong [OF set_concat_sightings [of d]]
    unfolding upserted_history_def by (simp add: set_concat_sightings del: set_concat)
  ultimately show ?thesis by blast
qed

section \<open>Facts about the view\<close>

lemma bucket_partition:
  "distinct days \<Longrightarrow> set (map f rs) \<subseteq> set days \<Longrightarrow>
     sum_list (map (\<lambda>k. sum_list (map g (filter (\<lambda>r. f r = k) rs))) days) = (sum_list (map g rs) :: int)"
proof (induction rs)
  case (Cons r rs)
  have "sum_list (map (\<lambda>k. sum_list (map g (filter (\<lambda>r'. f r' = k) (r # rs)))) days) =
      sum_list (map (\<lambda>k. (if k = f r then g r else 0) + sum_list (map g (filter (\<lambda>r'. f r' = k) rs))) days)"
    by (intro arg_cong [where f = sum_list] map_cong) auto
  also have "\<dots> = sum_list (map (\<lambda>k. if k = f r then g r else 0) days) + sum_list (map g rs)"
    using Cons by (simp add: sum_list_addf)
  also have "sum_list (map (\<lambda>k. if k = f r then g r else 0) days) = g r"
    using Cons.prems by (simp add: sum_list_distinct_conv_sum_set)
  finally show ?case by simp
qed simp

lemma daily_view_sums:
  assumes "daily_view blocks = Inr rows"
  shows "sum_list (map dm_block_count rows) = int (length blocks)"
    and "sum_list (map dm_tx_count rows) = sum_list (map br_tx_count blocks)"
    and "distinct (map dm_day_bucket rows)" and "dm_day_bucket ` set rows = day_bucket ` set blocks"
proof -
  from assms have rows: "rows = map (daily_row blocks) (remdups (map day_bucket blocks))"
    by (auto simp: daily_view_def Let_def split: if_splits)
  have p: "sum_list (map (\<lambda>k. sum_list (map g (filter (\<lambda>r. day_bucket r = k) blocks))) (remdups (map day_bucket blocks)))
      = sum_list (map g blocks)" for g :: "block_row \<Rightarrow> int"
    by (rule bucket_partition) simp_all
  have len: "int (length xs) = sum_list (map (\<lambda>_. 1) xs)" for xs :: "block_row list"
    by (simp add: sum_list_triv)
  show "sum_list (map dm_block_count rows) = int (length blocks)"
    using p [of "\<lambda>_. 1"] by (simp add: rows daily_row_def Let_def comp_def len)
  show "sum_list (map dm_tx_count rows) = sum_list (map br_tx_count blocks)"
    using p [of br_tx_count] by (simp add: rows daily_row_def Let_def comp_def)
  show "distinct (map dm_day_bucket rows)" "dm_day_bucket ` set rows = day_bucket ` set blocks"
    by (simp_all add: rows daily_row_def Let_def comp_def image_image)
qed

lemma order_desc_sum: "sum_list (map f (order_desc g rows)) = (sum_list (map f rows) :: int)"
  by (metis mset_map order_mset(2) sum_mset_sum_list)

end
