(* ===== verification/Flusher.thy ===== *)
theory Flusher
  imports Writer "HOL-Library.Sublist"
begin

text \<open>
  \<open>crates/analytics/src/flusher.rs\<close>: the task that moves the analytics rows from the channel to
  ClickHouse. Every \<open>await\<close> of the task is a point where the producers may push, so the task is a step
  relation: a pass through the \<open>select!\<close> is one step, a flush is a second one. Which ready branch
  \<open>select!\<close> takes is open.
\<close>

section \<open>State\<close>

text \<open>\<open>Flushing e\<close>: awaiting the insert; \<open>e\<close> tells whether the task returns after it.\<close>

datatype flusher_phase = Selecting | Flushing bool | Exited "analytics_error + unit"

record flusher =
  fl_phase :: flusher_phase
  fl_senders :: bool
  fl_chan :: "raw_tx_row list"
  fl_buf :: "raw_tx_row list"
  fl_sink :: "raw_tx_row list"

definition run_flusher :: flusher where
  "run_flusher = \<lparr>fl_phase = Selecting, fl_senders = True, fl_chan = [], fl_buf = [], fl_sink = []\<rparr>"

text \<open>\<open>AnalyticsHandle::push\<close>: the channel is closed when the task, which owns its receiver, is gone.\<close>

definition handle_push :: "raw_tx_row \<Rightarrow> flusher \<Rightarrow> (analytics_error + unit) \<times> flusher" where
  "handle_push row f =
     (case fl_phase f of
        Exited _ \<Rightarrow> (Inl Closed, f)
      | _ \<Rightarrow> (Inr (), f\<lparr>fl_chan := fl_chan f @ [row]\<rparr>))"

section \<open>Operations of the task\<close>

definition drain :: "flusher \<Rightarrow> flusher" where
  "drain f = f\<lparr>fl_buf := fl_buf f @ fl_chan f, fl_chan := []\<rparr>"

text \<open>
  \<open>flush\<close> up to its first \<open>await\<close>: an empty buffer returns at once. \<open>finish_flush\<close> is the rest: the
  insert was stored, or it failed after its first \<open>n\<close> rows reached the table. The buffer is drained
  either way.
\<close>

datatype insert_outcome = Stored | InsertFailed nat string

definition start_flush :: "bool \<Rightarrow> flusher \<Rightarrow> flusher" where
  "start_flush last_one f =
     (if fl_buf f = [] then (if last_one then f\<lparr>fl_phase := Exited (Inr ())\<rparr> else f)
      else f\<lparr>fl_phase := Flushing last_one\<rparr>)"

definition finish_flush :: "bool \<Rightarrow> insert_outcome \<Rightarrow> flusher \<Rightarrow> flusher" where
  "finish_flush last_one oc f =
     (case oc of
        Stored \<Rightarrow> f\<lparr>fl_sink := fl_sink f @ fl_buf f, fl_buf := [],
          fl_phase := if last_one then Exited (Inr ()) else Selecting\<rparr>
      | InsertFailed n e \<Rightarrow> f\<lparr>fl_sink := fl_sink f @ take n (fl_buf f), fl_buf := [],
          fl_phase := Exited (Inl (Clickhouse e))\<rparr>)"

datatype flusher_event =
    Pushed raw_tx_row "analytics_error + unit"
  | SendersDropped
  | CancelSeen
  | TickFired
  | RowReceived
  | ChannelClosed
  | FlushEnded insert_outcome

inductive flusher_step :: "flusher \<Rightarrow> flusher_event \<Rightarrow> flusher \<Rightarrow> bool" where
  push_row: "fl_senders f \<Longrightarrow> handle_push row f = (r, f') \<Longrightarrow> flusher_step f (Pushed row r) f'"
| drop_senders: "flusher_step f SendersDropped (f\<lparr>fl_senders := False\<rparr>)"
| see_cancel: "fl_phase f = Selecting \<Longrightarrow> flusher_step f CancelSeen (start_flush True (drain f))"
| tick: "fl_phase f = Selecting \<Longrightarrow> flusher_step f TickFired (start_flush False (drain f))"
| receive: "fl_phase f = Selecting \<Longrightarrow> fl_chan f = row # rows \<Longrightarrow>
    flusher_step f RowReceived (f\<lparr>fl_buf := fl_buf f @ [row], fl_chan := rows\<rparr>)"
| channel_closed: "fl_phase f = Selecting \<Longrightarrow> fl_chan f = [] \<Longrightarrow> \<not> fl_senders f \<Longrightarrow>
    flusher_step f ChannelClosed (start_flush True f)"
| flush_ends: "fl_phase f = Flushing last_one \<Longrightarrow>
    flusher_step f (FlushEnded oc) (finish_flush last_one oc f)"

inductive_cases flusher_stepE: "flusher_step f ev f'"

inductive flusher_trace :: "flusher \<Rightarrow> flusher_event list \<Rightarrow> flusher \<Rightarrow> bool" where
  start: "flusher_trace f [] f"
| more: "flusher_trace f evs g \<Longrightarrow> flusher_step g ev h \<Longrightarrow> flusher_trace f (evs @ [ev]) h"

text \<open>The rows whose \<open>push\<close> returned \<open>Ok\<close>, in order.\<close>

definition accepted_row :: "flusher_event \<Rightarrow> raw_tx_row option" where
  "accepted_row ev = (case ev of Pushed row (Inr _) \<Rightarrow> Some row | _ \<Rightarrow> None)"

definition accepted :: "flusher_event list \<Rightarrow> raw_tx_row list" where
  "accepted evs = List.map_filter accepted_row evs"

section \<open>Where the accepted rows are\<close>

lemma accepted_snoc [simp]:
  "accepted [] = []" "accepted (evs @ [ev]) = accepted evs @ (case accepted_row ev of None \<Rightarrow> [] | Some r \<Rightarrow> [r])"
  by (simp_all add: accepted_def map_filter_def split: option.splits)

definition delivered_so_far :: "raw_tx_row list \<Rightarrow> flusher \<Rightarrow> bool" where
  "delivered_so_far rows f \<longleftrightarrow>
     (case fl_phase f of
        Exited (Inl _) \<Rightarrow> prefix (fl_sink f) rows
      | Exited (Inr _) \<Rightarrow> rows = fl_sink f @ fl_chan f
      | _ \<Rightarrow> rows = fl_sink f @ fl_buf f @ fl_chan f)"

lemma step_delivers:
  assumes "flusher_step f ev f'" "delivered_so_far rows f"
  shows "delivered_so_far (rows @ (case accepted_row ev of None \<Rightarrow> [] | Some r \<Rightarrow> [r])) f'"
  using assms(1)
proof cases
  case (flush_ends last_one oc)
  then show ?thesis
    using assms(2) append_take_drop_id [of _ "fl_buf f"]
    by (auto simp: delivered_so_far_def finish_flush_def accepted_row_def prefix_def split: insert_outcome.splits)
      (metis append.assoc append_take_drop_id)
qed (use assms(2) in \<open>auto simp: delivered_so_far_def handle_push_def start_flush_def drain_def accepted_row_def
      split: flusher_phase.splits sum.splits if_splits\<close>)

lemma trace_delivers: "flusher_trace f evs g \<Longrightarrow> f = run_flusher \<Longrightarrow> delivered_so_far (accepted evs) g"
proof (induction rule: flusher_trace.induct)
  case (start f)
  then show ?case by (simp add: delivered_so_far_def run_flusher_def)
next
  case (more f evs g ev h)
  then show ?case using step_delivers by simp
qed

lemma exited_stays:
  assumes "flusher_trace f evs g" "fl_phase f = Exited r"
  shows "fl_phase g = Exited r \<and> fl_sink g = fl_sink f \<and> accepted evs = []"
  using assms
proof (induction rule: flusher_trace.induct)
  case (more f evs g ev h)
  from more.hyps(2) show ?case
    using more.IH more.prems by cases (auto simp: handle_push_def accepted_row_def)
qed simp

lemma failed_flush_exits:
  "flusher_trace f evs g \<Longrightarrow> FlushEnded (InsertFailed n e) \<in> set evs \<Longrightarrow> \<exists>e. fl_phase g = Exited (Inl e)"
proof (induction rule: flusher_trace.induct)
  case (more f evs g ev h)
  from more.hyps(2) show ?case
  proof cases
    case (flush_ends last_one oc)
    then show ?thesis using more by (auto simp: finish_flush_def split: insert_outcome.splits)
  qed (use more in \<open>auto simp: handle_push_def\<close>)
qed simp

text \<open>
  The block writer sees the task through \<open>push\<close> only: its world keeps the accepted rows and whether
  the channel is closed.
\<close>

lemma push_refines:
  assumes "ch_closed w = (\<exists>r. fl_phase f = Exited r)"
  shows "fst (push row w) = fst (handle_push row f) \<and>
    ch_closed (snd (push row w)) = (\<exists>r. fl_phase (snd (handle_push row f)) = Exited r) \<and>
    ch_rows (snd (push row w)) = ch_rows w @ accepted [Pushed row (fst (handle_push row f))]"
  using assms by (auto simp: push_def handle_push_def accepted_def accepted_row_def map_filter_def
      split: flusher_phase.splits)

end
