(* ===== verification/Worker_Theorems.thy ===== *)
theory Worker_Theorems
  imports Daemon Flusher Sync_Theorems
begin

text \<open>
  The properties of the background workers of \<open>bin/indexer.rs\<close>: the contract detector, the analytics
  flusher, the seeding of the address table, the backfill loop and the refresh of the statistics.
\<close>

section \<open>Contract detector\<close>

definition s_alloy :: alloy where
  "s_alloy = \<lparr>addr_from_str = (\<lambda>s. if s = ''0x01'' then Some [1] else if s = ''0x02'' then Some [2] else None),
     keccak256 = (\<lambda>bs. replicate 32 7)\<rparr>"

definition s_code :: "u8 list \<Rightarrow> u8 list" where
  "s_code a = (if a = [1] then [96, 128] else [])"

definition s_addr_row :: "string \<Rightarrow> address_row" where
  "s_addr_row a = \<lparr>ar_address = a, ar_first_seen = 1, ar_last_seen = 2, ar_is_contract = False, ar_code_hash = None\<rparr>"

definition s_addr_db :: db where
  "s_addr_db = empty_db\<lparr>tbl_addresses := [s_addr_row ''0x01'', s_addr_row ''0x02'', s_addr_row ''junk'']\<rparr>"

definition s_sweep :: "node \<Rightarrow> sweep_input" where
  "s_sweep n = \<lparr>si_cancelled = False, si_nodes = (\<lambda>_. n), si_cancel = (\<lambda>_. False)\<rparr>"

definition seen_columns :: "address_row \<Rightarrow> string \<times> i64 \<times> i64" where
  "seen_columns r = (ar_address r, ar_first_seen r, ar_last_seen r)"

text \<open>C32: The detector classifies every address, and rightly. Whatever fails and whenever it is
  cancelled, a row that carries a code hash carries the right one: contract with the hash of its code,
  or no contract with \<open>0x\<close>, where an address that does not parse counts as the latter; nothing else
  of the database changes. If the node and the database answer, the worker keeps running and after
  enough sweeps to cover the unclassified rows none is left.\<close>

theorem detector_classifies:
  assumes "hex_laws x" "keccak_laws k" and "classes_right x k code (w_db w)"
    and "\<And>t i. t \<in> set ts \<Longrightarrow> code_node code (si_nodes t i)"
  shows "let (r, w') = run_contract_detector x k batch ts w in
    (\<exists>rows. w_db w' = w_db w\<lparr>tbl_addresses := rows\<rparr> \<and>
      map seen_columns rows = map seen_columns (tbl_addresses (w_db w))) \<and>
    classes_right x k code (w_db w') \<and>
    ((\<forall>t\<in>set ts. \<forall>i. \<not> si_cancelled t \<and> \<not> si_cancel t i \<and> eth_get_code (si_nodes t i) = (\<lambda>a. Inr (code a))) \<longrightarrow>
     w_net w = [] \<longrightarrow> 0 \<le> batch \<longrightarrow> length (unclassified (w_db w)) \<le> length ts * nat batch \<longrightarrow>
       r = None \<and> unclassified (w_db w') = [])"
proof -
  obtain r w' where run: "run_contract_detector x k batch ts w = (r, w')" by fastforce
  obtain as where db: "w_db w' = w_db w\<lparr>tbl_addresses := mark_rows x k code as (tbl_addresses (w_db w))\<rparr>"
    using detector_db [of ts code x k batch w] assms run by auto
  have "map seen_columns (mark_rows x k code as rows) = map seen_columns rows" for rows
    by (simp add: mark_rows_def seen_columns_def)
  with db have "\<exists>rows. w_db w' = w_db w\<lparr>tbl_addresses := rows\<rparr> \<and>
      map seen_columns rows = map seen_columns (tbl_addresses (w_db w))" by blast
  moreover have "classes_right x k code (w_db w')"
    using assms(3) mark_rows_right db by (simp add: classes_right_def)
  moreover have "r = None \<and> unclassified (w_db w') = []"
    if "\<forall>t\<in>set ts. \<forall>i. \<not> si_cancelled t \<and> \<not> si_cancel t i \<and> eth_get_code (si_nodes t i) = (\<lambda>a. Inr (code a))"
      "w_net w = []" "0 \<le> batch" "length (unclassified (w_db w)) \<le> length ts * nat batch"
  proof -
    have "fst (run_contract_detector x k batch ts w) = None \<and>
        length (unclassified (w_db (snd (run_contract_detector x k batch ts w))))
          \<le> length (unclassified (w_db w)) - length ts * nat batch"
      by (rule detector_answered [where code = code and ts = ts, OF _ assms(1,2) that(3,2)]) (use that(1) in blast)
    with run that(4) show ?thesis by simp
  qed
  ultimately show ?thesis unfolding run Let_def prod.case by blast
qed

theorem detector_classifies_witness:
  "let (r, w') = run_contract_detector ext_ref s_alloy 2
      [s_sweep ((s_node 0)\<lparr>eth_get_code := (\<lambda>a. Inr (s_code a))\<rparr>), s_sweep ((s_node 0)\<lparr>eth_get_code := (\<lambda>a. Inr (s_code a))\<rparr>)]
      (s_world s_addr_db []) in
    r = None \<and> unclassified (w_db w') = [] \<and> classes_right ext_ref s_alloy s_code (w_db w')"
proof -
  let ?ts = "[s_sweep ((s_node 0)\<lparr>eth_get_code := (\<lambda>a. Inr (s_code a))\<rparr>), s_sweep ((s_node 0)\<lparr>eth_get_code := (\<lambda>a. Inr (s_code a))\<rparr>)]"
  have "keccak_laws s_alloy" by (simp add: keccak_laws_def s_alloy_def)
  moreover have "classes_right ext_ref s_alloy s_code (w_db (s_world s_addr_db []))"
    by (simp add: classes_right_def class_row_def s_addr_db_def s_addr_row_def)
  moreover have "\<And>t i. t \<in> set ?ts \<Longrightarrow> code_node s_code (si_nodes t i)"
    by (auto simp: code_node_def s_sweep_def)
  ultimately have "let (r, w') = run_contract_detector ext_ref s_alloy 2 ?ts (s_world s_addr_db []) in
    (\<exists>rows. w_db w' = w_db (s_world s_addr_db [])\<lparr>tbl_addresses := rows\<rparr> \<and>
      map seen_columns rows = map seen_columns (tbl_addresses (w_db (s_world s_addr_db [])))) \<and>
    classes_right ext_ref s_alloy s_code (w_db w') \<and>
    ((\<forall>t\<in>set ?ts. \<forall>i. \<not> si_cancelled t \<and> \<not> si_cancel t i \<and> eth_get_code (si_nodes t i) = (\<lambda>a. Inr (s_code a))) \<longrightarrow>
     w_net (s_world s_addr_db []) = [] \<longrightarrow> (0 :: int) \<le> 2 \<longrightarrow>
     length (unclassified (w_db (s_world s_addr_db []))) \<le> length ?ts * nat 2 \<longrightarrow>
       r = None \<and> unclassified (w_db w') = [])"
    by (rule detector_classifies [OF ext_ref_hex])
  moreover have "length (unclassified (w_db (s_world s_addr_db []))) \<le> length ?ts * nat 2"
    by (simp add: unclassified_def s_addr_db_def s_addr_row_def)
  ultimately show ?thesis
    by (simp add: s_sweep_def Let_def split: prod.splits)
qed



section \<open>Analytics flusher\<close>

text \<open>C34: Where the analytics rows go. In every run of the flusher the table holds a prefix of the rows
  whose push was accepted. While it runs, the rest waits in its buffer and the channel; when it has
  returned \<open>Ok\<close> only the rows pushed after its last drain are missing, and those are lost. A failed
  insert ends the task with an error for good: there is no retry, no later row is accepted or
  stored.\<close>

theorem analytics_rows_accounted:
  assumes "flusher_trace run_flusher evs f"
  shows "(case fl_phase f of
      Exited (Inl _) \<Rightarrow> prefix (fl_sink f) (accepted evs)
    | Exited (Inr _) \<Rightarrow> accepted evs = fl_sink f @ fl_chan f
    | _ \<Rightarrow> accepted evs = fl_sink f @ fl_buf f @ fl_chan f) \<and>
    (\<forall>n e. FlushEnded (InsertFailed n e) \<in> set evs \<longrightarrow> (\<exists>e. fl_phase f = Exited (Inl e))) \<and>
    (\<forall>r evs' f'. fl_phase f = Exited r \<longrightarrow> flusher_trace f evs' f' \<longrightarrow>
       fl_phase f' = Exited r \<and> fl_sink f' = fl_sink f \<and> accepted evs' = [])"
  using trace_delivers [OF assms refl] failed_flush_exits [OF assms] exited_stays
  unfolding delivered_so_far_def by blast

definition s_raw :: "nat \<Rightarrow> raw_tx_row" where
  "s_raw i = raw_row ext_ref (of_nat i) 0 (s_tx i)"

theorem analytics_rows_accounted_witness:
  "\<exists>f evs. flusher_trace run_flusher evs f \<and> fl_phase f = Exited (Inr ()) \<and>
    accepted evs = [s_raw 1, s_raw 2] \<and> fl_sink f @ [s_raw 2] = accepted evs \<and> fl_chan f = [s_raw 2]"
proof -
  let ?f = "\<lambda>ph ch bu si. \<lparr>fl_phase = ph, fl_senders = True, fl_chan = ch, fl_buf = bu, fl_sink = si\<rparr>"
  let ?evs = "[] @ [Pushed (s_raw 1) (Inr ())] @ [CancelSeen] @ [Pushed (s_raw 2) (Inr ())] @ [FlushEnded Stored]"
  have "flusher_trace run_flusher [] (?f Selecting [] [] [])"
    using flusher_trace.start [of run_flusher] by (simp add: run_flusher_def)
  then have "flusher_trace run_flusher ([] @ [Pushed (s_raw 1) (Inr ())]) (?f Selecting [s_raw 1] [] [])"
    by (rule flusher_trace.more) (rule push_row, simp_all add: handle_push_def)
  then have "flusher_trace run_flusher (([] @ [Pushed (s_raw 1) (Inr ())]) @ [CancelSeen]) (?f (Flushing True) [] [s_raw 1] [])"
    by (rule flusher_trace.more) (use see_cancel [of "?f Selecting [s_raw 1] [] []"] in \<open>simp add: drain_def start_flush_def\<close>)
  then have "flusher_trace run_flusher ((([] @ [Pushed (s_raw 1) (Inr ())]) @ [CancelSeen]) @ [Pushed (s_raw 2) (Inr ())])
      (?f (Flushing True) [s_raw 2] [s_raw 1] [])"
    by (rule flusher_trace.more) (rule push_row, simp_all add: handle_push_def)
  then have "flusher_trace run_flusher (((([] @ [Pushed (s_raw 1) (Inr ())]) @ [CancelSeen]) @ [Pushed (s_raw 2) (Inr ())])
      @ [FlushEnded Stored]) (?f (Exited (Inr ())) [s_raw 2] [] [s_raw 1])"
    by (rule flusher_trace.more)
      (use flush_ends [of "?f (Flushing True) [s_raw 2] [s_raw 1] []" True Stored] in \<open>simp add: finish_flush_def\<close>)
  then have t: "flusher_trace run_flusher ?evs (?f (Exited (Inr ())) [s_raw 2] [] [s_raw 1])"
    by simp
  from conjunct1 [OF analytics_rows_accounted [OF t]]
  have "accepted ?evs = [s_raw 1] @ [s_raw 2]" by simp
  with t show ?thesis by (intro exI conjI) (assumption | simp)+
qed

section \<open>Seeding the addresses\<close>

text \<open>C35: Seeding the address table. On an empty table, with no fault, the start-up task leaves exactly
  the rows (first and last block, unclassified) that a writer upserting the stored transactions in
  ascending height would have left, one per address. On a table that holds any row it does nothing,
  whatever is missing from it.\<close>

theorem seeding_equals_upserts:
  assumes "w_net w = []" and "sorted (map tr_block_height (tbl_txs (w_db w)))"
    and "list_all (\<lambda>s. varchar_fits 42 (fst s)) (sightings (w_db w))"
  shows "if tbl_addresses (w_db w) = []
    then \<exists>rows. w_db (address_history w) = w_db w\<lparr>tbl_addresses := rows\<rparr> \<and> distinct (map ar_address rows) \<and>
      set rows = set (upserted_history (tbl_txs (w_db w)))
    else w_db (address_history w) = w_db w"
proof (cases "tbl_addresses (w_db w) = []")
  case True
  from history_stmt_seeds [OF True assms(3,2)] obtain rows where
    "history_stmt (w_db w) = (Inr (length rows), w_db w\<lparr>tbl_addresses := rows\<rparr>)"
    "distinct (map ar_address rows)" "set rows = set (upserted_history (tbl_txs (w_db w)))" by blast
  then show ?thesis
    using True assms(1) by (auto simp: address_history_def addresses_count_def query_answered
        backfill_from_transactions_def map_err_io_def request_def statement_def)
next
  case False
  with assms(1) show ?thesis
    by (simp add: address_history_def addresses_count_def query_answered)
qed

theorem seeding_equals_upserts_witness:
  "\<exists>rows. w_db (address_history (s_world (s_db\<lparr>tbl_addresses := []\<rparr>) [])) = s_db\<lparr>tbl_addresses := rows\<rparr> \<and>
    set rows = set (upserted_history (tbl_txs s_db)) \<and> tbl_txs s_db \<noteq> []"
proof -
  have "sorted (map tr_block_height (tbl_txs s_db))" "list_all (\<lambda>s. varchar_fits 42 (fst s)) (sightings s_db)"
    "tbl_txs s_db \<noteq> []" by code_simp+
  moreover have "sightings (s_db\<lparr>tbl_addresses := []\<rparr>) = sightings s_db"
    by (simp add: sightings_def)
  ultimately show ?thesis
    using seeding_equals_upserts [of "s_world (s_db\<lparr>tbl_addresses := []\<rparr>) []"] by auto
qed

section \<open>Backfill loop\<close>

text \<open>C31: The backfill loop heals itself. Whatever failed in the turns before (node, database,
  cancellations inside a run), the cursor is never ahead of the data, no block is lost, and one
  uncancelled turn whose run returns \<open>Ok\<close> leaves every height up to the cap of that turn's tip
  stored or missing on the node.\<close>

theorem backfill_loop_recovers:
  assumes "\<And>u. u \<in> set (earlier @ [t]) \<Longrightarrow> honest_node (bt_node u) \<and> (\<forall>h. node_gaps (bt_node u) h \<longrightarrow> gaps h)"
    and "sync_inv gaps (w_db w)" and "backfill_daemon x var an earlier w = (False, w1)"
    and "\<not> bt_cancelled t" "\<And>i. \<not> bt_cancel t i"
    and "run_backfill x (bt_node t) sync_config_default var an (bt_cancel t) w1 = (Inr c, w2)"
  shows "backfill_daemon x var an (earlier @ [t]) w = (False, w2) \<and> sync_inv gaps (w_db w2) \<and>
    heights (w_db w) \<subseteq> heights (w_db w2) \<and>
    (\<exists>tip. retried backoff_default (block_number (bt_node t)) = Inr tip \<and>
      (\<forall>h. 0 \<le> h \<longrightarrow> h \<le> backfill_cap sync_config_default tip \<longrightarrow> h \<in> heights (w_db w2) \<or> gaps h))"
proof -
  have all: "backfill_daemon x var an (earlier @ [t]) w = (False, w2)"
    using assms(3,4,6) by (simp add: backfill_daemon_append)
  have "sync_inv gaps (w_db w2)" "heights (w_db w) \<subseteq> heights (w_db w2)"
    using backfill_daemon_inv [where ts = "earlier @ [t]" and x = x and v = var and an = an, OF assms(1,2)] all by simp_all
  moreover have "sync_inv gaps (w_db w1)"
    using backfill_daemon_inv [where ts = earlier and gaps = gaps and w = w and x = x and v = var and an = an] assms(1) [of _] assms(2,3) by auto
  moreover have "honest_node (bt_node t)" "\<And>h. node_gaps (bt_node t) h \<Longrightarrow> gaps h"
    using assms(1) [of t] by simp_all
  ultimately show ?thesis
    using all run_backfill_done [OF assms(6) _ _ _ assms(5), of gaps] by blast
qed

theorem backfill_loop_recovers_witness:
  "0 \<in> heights (w_db (snd (backfill_daemon ext_ref None True
     (replicate 2 \<lparr>bt_cancelled = False, bt_node = s_node 8, bt_cancel = (\<lambda>_. False)\<rparr>) (s_world empty_db [Refused]))))"
proof -
  let ?t = "\<lparr>bt_cancelled = False, bt_node = s_node 8, bt_cancel = (\<lambda>_. False)\<rparr> :: backfill_turn"
  have "run_backfill ext_ref (s_node 8) sync_config_default None True (\<lambda>_. False) (s_world empty_db [Refused]) =
      (Inl (DbErr (DbSqlx SqlxIo)), s_world empty_db [])"
    by (simp add: run_backfill_def read_cursor_def bind_io_def map_err_io_def meta_get_i64_def meta_get_def query_def
        request_def s_world_def)
  then have one: "backfill_daemon ext_ref None True [?t] (s_world empty_db [Refused]) = (False, s_world empty_db [])"
    by simp
  obtain w2 where w2: "run_backfill ext_ref (s_node 8) sync_config_default None True (\<lambda>_. False) (s_world empty_db [])
      = (Inr (BlockHeight 0), w2)"
    by (metis s_backfill_8 prod.collapse)
  have "retried backoff_default (block_number (s_node 8)) = Inr (BlockHeight 8)" by code_simp
  moreover have "backfill_cap sync_config_default (BlockHeight 8) = 0" by code_simp
  moreover have "\<not> node_gaps (s_node 8) 0" by (simp add: node_gaps_def s_node_def)
  moreover note backfill_loop_recovers [where earlier = "[?t]" and t = ?t and gaps = "node_gaps (s_node 8)", OF _ _ one]
  ultimately show ?thesis
    using w2 by (simp add: s_node_honest sync_inv_empty numeral_2_eq_2)
qed

section \<open>Daily statistics\<close>





end
