(* ===== verification/Processes.thy ===== *)
theory Processes
  imports Daemon Coinblast_Laws Writer_Props
begin

text \<open>
  \<open>bin/indexer.rs\<close> as a whole: backfill, tail loop, launchpad worker, contract detector and the seeding of
  the address table run at the same time on one database. The step relation lets them take turns after
  every request and every transaction; each step is an operation of the code, run against any behaviour
  of the connection. What one process writes the invariants of another do not read: this is stated
  through views of the database, and carries every invariant over to the whole.
\<close>

section \<open>The parts of the database the processes own\<close>

definition chain_view :: "db \<Rightarrow> block_row list \<times> meta_row option" where
  "chain_view d = (tbl_blocks d, meta_row_of d last_synced_height_key)"

definition launchpad_view :: "db \<Rightarrow> cb_token_row list \<times> cb_trade_row list" where
  "launchpad_view d = (tbl_cb_tokens d, tbl_cb_trades d)"

interpretation chain_part: db_invariant "\<lambda>d. chain_view d = v" for v
  by unfold_locales (simp add: chain_view_def meta_row_of_def)

interpretation launchpad_part: db_invariant "\<lambda>d. launchpad_view d = v" for v
  by unfold_locales (simp add: launchpad_view_def)

interpretation classes: db_invariant "classes_right x k code" for x k code
  by unfold_locales (simp add: classes_right_def)

lemma chain_view_decides:
  assumes "chain_view d' = chain_view d"
  shows "sync_inv gaps d' = sync_inv gaps d" "pending gaps lo buf d' = pending gaps lo buf d"
    "cursor_pos d' = cursor_pos d" "heights d' = heights d"
  using assms by (simp_all add: chain_view_def sync_inv_def covered_def pending_def cursor_ok_def cursor_pos_def
      cursor_of_def heights_def)

lemma launchpad_view_decides:
  assumes "launchpad_view d' = launchpad_view d"
  shows "cb_inv f d' = cb_inv f d" "curve_rows d' = curve_rows d" "trade_keys d' = trade_keys d"
  using assms cb_inv_tables [of d' d] by (simp_all add: launchpad_view_def trade_keys_def)

section \<open>Statements\<close>

text \<open>The writers leave the launchpad alone, and new addresses come in unclassified.\<close>

lemma upsert_classes:
  "list_all (class_row x k code) rows \<Longrightarrow> list_all (class_row x k code) (fold upsert_address_row seen rows)"
proof (induction seen arbitrary: rows)
  case (Cons s seen)
  have "list_all (class_row x k code) (upsert_address_row s rows)"
    using Cons.prems by (auto simp: upsert_address_row_def class_row_def list_all_iff)
  from Cons.IH [OF this] show ?case by simp
qed simp

lemma writer_stmts_launchpad [keeps_intros]:
  "keeps (\<lambda>d. launchpad_view d = v) (blocks_insert_stmt b)"
  "keeps (\<lambda>d. launchpad_view d = v) (transactions_insert_stmt t)"
  "keeps (\<lambda>d. launchpad_view d = v) (logs_insert_stmt l)"
  "keeps (\<lambda>d. launchpad_view d = v) (token_transfers_insert_stmt tt)"
  "keeps (\<lambda>d. launchpad_view d = v) (upsert_batch_stmt seen)"
  "keeps (\<lambda>d. launchpad_view d = v) (meta_upsert merge key u ts)"
  "keeps (\<lambda>d. launchpad_view d = v) (classify_stmt a c h)"
  "keeps (\<lambda>d. launchpad_view d = v) history_stmt"
  by (rule keepsI, auto simp: launchpad_view_def blocks_insert_stmt_def transactions_insert_stmt_def logs_insert_stmt_def
      token_transfers_insert_stmt_def exec_def bind_io_def ret_io_def block_row_insert_def
      tx_row_insert_def log_row_insert_def transfer_row_insert_def upsert_batch_stmt_def meta_upsert_def
      classify_stmt_def history_stmt_def Let_def split: sum.splits prod.splits option.splits)+

lemma writer_stmts_classes [keeps_intros]:
  "keeps (classes_right x k code) (blocks_insert_stmt b)"
  "keeps (classes_right x k code) (transactions_insert_stmt t)"
  "keeps (classes_right x k code) (logs_insert_stmt l)"
  "keeps (classes_right x k code) (token_transfers_insert_stmt tt)"
  "keeps (classes_right x k code) (meta_upsert merge key u ts)"
  by (rule keepsI, auto simp: classes_right_def blocks_insert_stmt_def transactions_insert_stmt_def logs_insert_stmt_def
      token_transfers_insert_stmt_def exec_def bind_io_def ret_io_def block_row_insert_def
      tx_row_insert_def log_row_insert_def transfer_row_insert_def meta_upsert_def
      Let_def split: sum.splits prod.splits option.splits)+

lemma address_stmts_classes [keeps_intros]:
  "keeps (classes_right x k code) (upsert_batch_stmt seen)" "keeps (classes_right x k code) history_stmt"
  using upsert_classes
  by (auto intro!: keepsI simp: classes_right_def upsert_batch_stmt_def history_stmt_def Let_def
      history_row_def class_row_def [of _ _ _ "history_row _ _"] list.pred_map comp_def)
    (simp add: list_all_iff class_row_def)

text \<open>The launchpad worker leaves the blocks, the cursor of the writers and the classes alone.\<close>

lemma launchpad_stmts_chain [keeps_intros]:
  "keeps (\<lambda>d. chain_view d = v) (cb_tokens_insert_stmt t)"
  "keeps (\<lambda>d. chain_view d = v) (cb_trades_insert_stmt r)"
  "keeps (\<lambda>d. chain_view d = v) (bump_trade_aggregate_stmt c srx price)"
  "keeps (\<lambda>d. chain_view d = v) (mark_graduated_stmt c)"
  "keeps (\<lambda>d. chain_view d = v) (classify_stmt a c' h)"
  "keeps (\<lambda>d. chain_view d = v) history_stmt"
  by (rule keepsI, auto simp: chain_view_def meta_row_of_def cb_tokens_insert_stmt_def cb_trades_insert_stmt_def
      bump_trade_aggregate_stmt_def mark_graduated_stmt_def classify_stmt_def history_stmt_def Let_def
      split: sum.splits prod.splits)+

lemma launchpad_stmts_classes [keeps_intros]:
  "keeps (classes_right x k code) (cb_tokens_insert_stmt t)"
  "keeps (classes_right x k code) (cb_trades_insert_stmt r)"
  "keeps (classes_right x k code) (bump_trade_aggregate_stmt c srx price)"
  "keeps (classes_right x k code) (mark_graduated_stmt c)"
  by (rule keepsI, auto simp: classes_right_def cb_tokens_insert_stmt_def cb_trades_insert_stmt_def
      bump_trade_aggregate_stmt_def mark_graduated_stmt_def Let_def split: sum.splits prod.splits)+

lemma other_key_chain [keeps_intros]:
  assumes "key \<noteq> last_synced_height_key"
  shows "keeps (\<lambda>d. chain_view d = v) (meta_upsert merge key u ts)"
proof (rule keepsI)
  have upd: "find (\<lambda>r. mr_key r = last_synced_height_key)
      (map (\<lambda>r. if mr_key r = key then r\<lparr>mr_value := a, mr_updated_at := b\<rparr> else r) rows) =
      find (\<lambda>r. mr_key r = last_synced_height_key) rows" for a b rows
    using assms by (induction rows) auto
  have new: "find P (rows @ [r]) = find P rows" if "\<not> P r" for P rows and r :: meta_row
    using that by (induction rows) auto
  fix d
  assume "chain_view d = v"
  then show "chain_view (snd (meta_upsert merge key u ts d)) = v"
    using assms by (auto simp: chain_view_def meta_row_of_def meta_upsert_def upd new split: option.splits sum.splits)
qed

lemma cb_tokens_insert_wf [keeps_intros]: "keeps db_wf (cb_tokens_insert_stmt t)"
proof (rule keepsI)
  fix d
  assume wf: "db_wf d"
  let ?r = "cb_token_to_row t"
  let ?ins = "insert_do_nothing cb_token_fits (\<lambda>x y. ct_curve x = ct_curve y) (\<lambda>x y. ct_token x = ct_token y)
    (\<lambda>_. True) ?r (tbl_cb_tokens d)"
  have "db_wf (d\<lparr>tbl_cb_tokens := rows\<rparr>)" if "?ins = Inr (rows, ins)" for rows ins
    using that wf
    by (auto simp: insert_do_nothing_Inr db_wf_def keys_ok_def fk_ok_def has_block_def has_tx_def list_ex_iff
        split: if_splits)
  with wf show "db_wf (snd (cb_tokens_insert_stmt t d))"
    by (auto simp: cb_tokens_insert_stmt_def split: sum.splits prod.splits)
qed

lemma cb_trades_insert_wf [keeps_intros]: "keeps db_wf (cb_trades_insert_stmt r)"
proof (rule keepsI)
  fix d
  assume wf: "db_wf d"
  let ?ins = "insert_do_nothing cb_trade_fits (\<lambda>x y. cb_trade_key x = cb_trade_key y) (\<lambda>_ _. False) (\<lambda>_. True)
    (cb_trade_to_row r (int (Suc (trades_seq d)))) (tbl_cb_trades d)"
  have "db_wf (d\<lparr>trades_seq := i, tbl_cb_trades := rows\<rparr>)" if "?ins = Inr (rows, ins)" for i rows ins
    using that wf
    by (auto simp: insert_do_nothing_Inr db_wf_def keys_ok_def fk_ok_def has_block_def has_tx_def list_ex_iff
        split: if_splits)
  moreover have "db_wf (d\<lparr>trades_seq := i\<rparr>)" for i
    using wf by (simp add: db_wf_def keys_ok_def fk_ok_def has_block_def has_tx_def)
  ultimately show "db_wf (snd (cb_trades_insert_stmt r d))"
    by (auto simp: cb_trades_insert_stmt_def Let_def simp del: cb_trade_row_sel split: sum.splits prod.splits)
qed

lemma db_wf_tokens:
  "db_wf d \<Longrightarrow> map ct_curve rows = map ct_curve (tbl_cb_tokens d) \<Longrightarrow> map ct_token rows = map ct_token (tbl_cb_tokens d) \<Longrightarrow>
     db_wf (d\<lparr>tbl_cb_tokens := rows\<rparr>)"
  by (simp add: db_wf_def keys_ok_def fk_ok_def has_block_def has_tx_def)

lemma token_updates_wf [keeps_intros]:
  "keeps db_wf (bump_trade_aggregate_stmt c srx price)" "keeps db_wf (mark_graduated_stmt c)"
  by (rule keepsI, auto simp: bump_trade_aggregate_stmt_def mark_graduated_stmt_def bump_row_def intro!: db_wf_tokens)+

lemma history_wf [keeps_intros]: "keeps db_wf history_stmt"
proof (rule keepsI)
  fix d
  assume wf: "db_wf d"
  have "distinct (map ar_address (tbl_addresses d @ map (history_row (sightings d))
      (filter (\<lambda>a. a \<notin> ar_address ` set (tbl_addresses d)) (remdups (map fst (sightings d))))))"
    using db_wfD_distinct(1) [OF wf] by (auto simp: comp_def)
  then show "db_wf (snd (history_stmt d))"
    using wf db_wf_addresses [OF wf] by (simp add: history_stmt_def Let_def)
qed

section \<open>Operations\<close>

text \<open>
  What a process keeps is a matter of its statements: an invariant of the statements of the block
  writers is one of the writers, and the same for the launchpad worker.
\<close>

locale writer_invariant = db_invariant Q for Q :: "db \<Rightarrow> bool" +
  assumes blocks: "keeps Q (blocks_insert_stmt b)"
    and txs: "keeps Q (transactions_insert_stmt t)"
    and logs: "keeps Q (logs_insert_stmt l)"
    and transfers: "keeps Q (token_transfers_insert_stmt tt)"
    and upserts: "keeps Q (upsert_batch_stmt seen)"
    and metas: "keeps Q (meta_upsert merge key u ts)"
begin

lemmas stmts = blocks txs logs transfers upserts metas

lemma ops [keeps_intros]:
  "keeps (\<lambda>w. Q (w_db w)) (blocks_insert b)"
  "keeps (\<lambda>w. Q (w_db w)) (transactions_insert t)"
  "keeps (\<lambda>w. Q (w_db w)) (logs_insert l)"
  "keeps (\<lambda>w. Q (w_db w)) (token_transfers_insert tt)"
  "keeps (\<lambda>w. Q (w_db w)) (blocks_insert_batch bs)"
  "keeps (\<lambda>w. Q (w_db w)) (transactions_insert_batch ts')"
  "keeps (\<lambda>w. Q (w_db w)) (logs_insert_batch ls)"
  "keeps (\<lambda>w. Q (w_db w)) (token_transfers_insert_batch tts)"
  "keeps (\<lambda>w. Q (w_db w)) (addresses_upsert_batch seen)"
  "keeps (\<lambda>w. Q (w_db w)) (write_cursor h ts)"
  unfolding blocks_insert_def transactions_insert_def logs_insert_def token_transfers_insert_def
    blocks_insert_batch_def transactions_insert_batch_def logs_insert_batch_def
    token_transfers_insert_batch_def addresses_upsert_batch_def write_cursor_def write_cursor_stmt_def
  by (auto intro!: keeps_ret keeps_map_err keeps_for keeps_request stmts)

lemma write_block: "keeps (\<lambda>w. Q (w_db w)) (write_block x an b)"
  unfolding write_block_def
  by (intro keeps_then_push keeps_transaction) (unfold write_block_body_def, intro keeps_intros)

lemma batch_write_blocks: "keeps (\<lambda>w. Q (w_db w)) (batch_write_blocks x an bs)"
proof (cases "bs = []")
  case True
  then show ?thesis by (simp add: batch_write_blocks_def keeps_ret)
next
  case False
  then show ?thesis
    unfolding batch_write_blocks_def if_not_P [OF False]
    by (intro keeps_then_push keeps_transaction) (unfold batch_body_def in_chunks_def, intro keeps_intros)
qed

end

interpretation wf_writer: writer_invariant db_wf
  by unfold_locales (intro keeps_intros)+

interpretation launchpad_writer: writer_invariant "\<lambda>d. launchpad_view d = v" for v
  by unfold_locales (intro keeps_intros)+

interpretation classes_writer: writer_invariant "classes_right x k code" for x k code
  by unfold_locales (intro keeps_intros)+

locale launchpad_invariant = db_invariant Q for Q :: "db \<Rightarrow> bool" +
  assumes tokens: "keeps Q (cb_tokens_insert_stmt t)"
    and trades: "keeps Q (cb_trades_insert_stmt r)"
    and bumps: "keeps Q (bump_trade_aggregate_stmt c srx price)"
    and marks: "keeps Q (mark_graduated_stmt c)"
    and checkpoints: "keeps Q (meta_upsert merge coinblast_cursor_key u ts)"
begin

lemma token_op [keeps_intros]: "keeps (\<lambda>w. Q (w_db w)) (cb_tokens_insert t)"
  unfolding cb_tokens_insert_def by (intro keeps_intros keeps_request tokens)

lemma record_trade [keeps_intros]: "keeps (\<lambda>w. Q (w_db w)) (record_trade r)"
  unfolding record_trade_def graduate_alt swap_trade_alt graduate_body_def swap_body_def
    cb_trades_insert_def mark_graduated_def bump_trade_aggregate_def
  by (auto intro!: keeps_transaction keeps_bind keeps_map_err keeps_request keeps_ret trades bumps marks)

lemma handlers: "keeps (\<lambda>w. Q (w_db w)) (apply_buy x a l)" "keeps (\<lambda>w. Q (w_db w)) (apply_sell x a l)"
  "keeps (\<lambda>w. Q (w_db w)) (apply_graduated x a l)"
  unfolding handlers_record by (intro keeps_intros)+

lemma cursor: "keeps (\<lambda>w. Q (w_db w)) (cb_write_cursor h)"
  unfolding cb_write_cursor_def meta_set_i64_def meta_set_def
  by (intro keeps_intros keeps_request checkpoints)

lemma factory_log:
  fixes l :: rpc_log
  shows "keeps (\<lambda>w :: 'z cb_world_scheme. Q (w_db w)) (factory_log x a l)"
proof -
  have "keeps (\<lambda>w :: 'z cb_world_scheme. Q (w_db w)) (note_curve c)" for c
    by (simp add: keeps_def note_curve_def)
  then show ?thesis
    unfolding factory_log_def apply_curve_created_def by (auto intro!: keeps_intros)
qed

lemma vet_emitter: "keeps (\<lambda>w :: 'z cb_world_scheme. Q (w_db w)) (vet_emitter x a n pick l)"
proof (rule keepsI)
  fix w :: "'z cb_world_scheme"
  assume Q: "Q (w_db w)"
  have "keeps (\<lambda>w :: 'z cb_world_scheme. Q (w_db w)) (try_adopt x a n c b h)" for c b h
    unfolding try_adopt_def by (auto intro!: keeps_intros split: option.splits)
  from keepsD [OF this Q] have "Q (w_db w')" if "try_adopt x a n c b h w = (r, w')" for c b h r w'
    using that by (metis snd_conv)
  with Q show "Q (w_db (snd (vet_emitter x a n pick l w)))"
    by (auto simp: vet_emitter_def Let_def split: prod.splits sum.splits bool.splits)
qed

end

interpretation wf_launchpad: launchpad_invariant db_wf
  by unfold_locales (intro keeps_intros)+

lemma own_cursor: "coinblast_cursor_key \<noteq> last_synced_height_key"
  by (simp add: coinblast_cursor_key_def last_synced_height_key_def)

interpretation chain_launchpad: launchpad_invariant "\<lambda>d. chain_view d = v" for v
  by unfold_locales (rule launchpad_stmts_chain other_key_chain [OF own_cursor])+

interpretation classes_launchpad: launchpad_invariant "classes_right x k code" for x k code
  by unfold_locales (intro keeps_intros)+

section \<open>The processes side by side\<close>

text \<open>
  \<open>outside\<close>: the libraries, the factory and the nodes that answer. Each writer \<open>p\<close> (the backfill, the
  tail) has the next height it fetches and the bundles it has fetched; the launchpad worker has its
  known curves. A step is one operation that sends one request or one transaction, on a connection
  that may refuse it or lose the answer; a failed operation leaves the process where it is or, as the
  code does, starts it again at the cursor (\<open>resumed\<close>).
\<close>

record outside =
  os_ext :: ext
  os_abi :: abi
  os_alloy :: alloy
  os_factory :: "u8 list"
  os_nodes :: "node set"

record indexer_state =
  is_db :: db
  is_next :: "nat \<Rightarrow> i64"
  is_buf :: "nat \<Rightarrow> block_bundle list"
  is_known :: "string set"

definition fetches :: "outside \<Rightarrow> i64 \<Rightarrow> block_bundle option \<Rightarrow> bool" where
  "fetches e h r \<longleftrightarrow> in_i64 h \<and> (\<exists>n\<in>os_nodes e. \<exists>cfg. fetch_one (os_ext e) n cfg (BlockHeight h) = Inr r)"

definition logged :: "outside \<Rightarrow> u8 list option \<Rightarrow> rpc_log \<Rightarrow> bool" where
  "logged e f l \<longleftrightarrow> (\<exists>n\<in>os_nodes e. \<exists>lo hi k ls. logs_in_range n lo hi f k = Inr ls \<and> l \<in> set ls)"

inductive process_step :: "outside \<Rightarrow> indexer_state \<Rightarrow> indexer_state \<Rightarrow> bool" for e :: outside where
  resumed: "read_cursor w = (Inr c, w') \<Longrightarrow> w_db (w :: sync_world) = is_db s \<Longrightarrow>
    process_step e s (s\<lparr>is_next := (is_next s)(p := (case c of None \<Rightarrow> 0 | Some h \<Rightarrow> height_val h + 1)),
                        is_buf := (is_buf s)(p := [])\<rparr>)"
| fetched: "fetches e (is_next s p) (Some b) \<Longrightarrow>
    process_step e s (s\<lparr>is_next := (is_next s)(p := is_next s p + 1),
                        is_buf := (is_buf s)(p := is_buf s p @ [b])\<rparr>)"
| flushed: "is_buf s p \<noteq> [] \<Longrightarrow> batch_write_blocks (os_ext e) an (is_buf s p) w = (r, w') \<Longrightarrow>
    w_db (w :: sync_world) = is_db s \<Longrightarrow>
    process_step e s (s\<lparr>is_db := w_db w',
                        is_buf := (is_buf s)(p := (if r = Inr () then [] else is_buf s p))\<rparr>)"
| skipped: "is_buf s p = [] \<Longrightarrow> fetches e (is_next s p) None \<Longrightarrow>
    write_cursor (BlockHeight (is_next s p)) 0 w = (r, w') \<Longrightarrow> w_db (w :: sync_world) = is_db s \<Longrightarrow>
    process_step e s (s\<lparr>is_db := w_db w',
                        is_next := (is_next s)(p := (if r = Inr () then is_next s p + 1 else is_next s p))\<rparr>)"
| ingested: "is_buf s p = [] \<Longrightarrow> fetches e (is_next s p) (Some b) \<Longrightarrow>
    write_block (os_ext e) an b w = (r, w') \<Longrightarrow> w_db (w :: sync_world) = is_db s \<Longrightarrow>
    process_step e s (s\<lparr>is_db := w_db w',
                        is_next := (is_next s)(p := (if r = Inr () then is_next s p + 1 else is_next s p))\<rparr>)"
| hydrated: "hydrate_known_curves w = (Inr (), w') \<Longrightarrow> w_db (w :: cb_world) = is_db s \<Longrightarrow>
    process_step e s (s\<lparr>is_known := known_curves w'\<rparr>)"
| announced: "logged e (Some (os_factory e)) l \<Longrightarrow> factory_log (os_ext e) (os_abi e) l w = (r, w') \<Longrightarrow>
    w_db (w :: cb_world) = is_db s \<Longrightarrow> known_curves w = is_known s \<Longrightarrow>
    process_step e s (s\<lparr>is_db := w_db w', is_known := known_curves w'\<rparr>)"
| vetted: "logged e None l \<Longrightarrow> trade_topic (os_abi e) l \<Longrightarrow> n \<in> os_nodes e \<Longrightarrow>
    vet_emitter (os_ext e) (os_abi e) n pick l w = (r, w') \<Longrightarrow>
    w_db (w :: cb_world) = is_db s \<Longrightarrow> known_curves w = is_known s \<Longrightarrow>
    process_step e s (s\<lparr>is_db := w_db w', is_known := known_curves w'\<rparr>)"
| traded: "logged e None l \<Longrightarrow> emitter_of (os_ext e) l \<in> is_known s \<Longrightarrow>
    handler \<in> {apply_buy, apply_sell, apply_graduated} \<Longrightarrow> handler (os_ext e) (os_abi e) l w = (r, w') \<Longrightarrow>
    w_db (w :: cb_world) = is_db s \<Longrightarrow> process_step e s (s\<lparr>is_db := w_db w'\<rparr>)"
| checkpointed: "cb_write_cursor h w = (r, w') \<Longrightarrow> w_db (w :: cb_world) = is_db s \<Longrightarrow>
    process_step e s (s\<lparr>is_db := w_db w'\<rparr>)"
| classified: "n \<in> os_nodes e \<Longrightarrow> classify_one (os_ext e) (os_alloy e) n addr w = (r, w') \<Longrightarrow>
    w_db (w :: world) = is_db s \<Longrightarrow> process_step e s (s\<lparr>is_db := w_db w'\<rparr>)"
| seeded: "backfill_from_transactions w = (r, w') \<Longrightarrow> w_db (w :: world) = is_db s \<Longrightarrow>
    process_step e s (s\<lparr>is_db := w_db w'\<rparr>)"

inductive process_reach :: "outside \<Rightarrow> indexer_state \<Rightarrow> indexer_state \<Rightarrow> bool" for e :: outside where
  start: "process_reach e s s"
| step: "process_reach e s s1 \<Longrightarrow> process_step e s1 s2 \<Longrightarrow> process_reach e s s2"

section \<open>What holds throughout\<close>

text \<open>What the indexer relies on: the nodes answer for one chain and the factory does not trade.\<close>

definition trusted :: "outside \<Rightarrow> (i64 \<Rightarrow> bool) \<Rightarrow> (u8 list \<Rightarrow> u8 list) \<Rightarrow> bool" where
  "trusted e gaps code \<longleftrightarrow> hex_laws (os_ext e) \<and> keccak_laws (os_alloy e) \<and>
     (\<forall>n\<in>os_nodes e. honest_node n \<and> (\<forall>h. node_gaps n h \<longrightarrow> gaps h) \<and> code_node code n \<and>
        factory_behaves (os_ext e) (os_abi e) (os_factory e) n)"

definition lowercase_curves :: "db \<Rightarrow> bool" where
  "lowercase_curves d \<longleftrightarrow> (\<forall>c\<in>curve_rows d. to_lowercase c = c)"

definition data_ok :: "outside \<Rightarrow> (i64 \<Rightarrow> bool) \<Rightarrow> (u8 list \<Rightarrow> u8 list) \<Rightarrow> db \<Rightarrow> bool" where
  "data_ok e gaps code d \<longleftrightarrow> sync_inv gaps d \<and> db_wf d \<and> cb_inv (cb_hex_addr (os_ext e) (os_factory e)) d \<and>
     lowercase_curves d \<and> classes_right (os_ext e) (os_alloy e) code d"

definition nothing_lost :: "db \<Rightarrow> db \<Rightarrow> bool" where
  "nothing_lost d d' \<longleftrightarrow> cursor_pos d \<le> cursor_pos d' \<and> heights d \<subseteq> heights d' \<and>
     curve_rows d \<subseteq> curve_rows d' \<and> trade_keys d \<subseteq> trade_keys d'"

definition state_ok :: "outside \<Rightarrow> (i64 \<Rightarrow> bool) \<Rightarrow> (u8 list \<Rightarrow> u8 list) \<Rightarrow> indexer_state \<Rightarrow> bool" where
  "state_ok e gaps code s \<longleftrightarrow> data_ok e gaps code (is_db s) \<and>
     (\<forall>p. 0 \<le> is_next s p \<and> pending gaps (is_next s p) (is_buf s p) (is_db s)) \<and>
     (\<forall>c\<in>is_known s. c \<in> curve_rows (is_db s) \<or> c = cb_hex_addr (os_ext e) (os_factory e))"

lemma fetches_ok:
  assumes "trusted e gaps code"
  shows "fetches e h (Some b) \<Longrightarrow> bundle_height b = BlockHeight h" "fetches e h None \<Longrightarrow> gaps h"
  using assms fetch_one_ok unfolding trusted_def fetches_def fetch_ok_def
  by (metis, metis block_height.sel)

lemma launchpad_side:
  assumes ok: "state_ok e gaps code s" and view: "chain_view d' = chain_view (is_db s)"
    and "db_wf d'" "classes_right (os_ext e) (os_alloy e) code d'"
    and "cb_inv (cb_hex_addr (os_ext e) (os_factory e)) d'"
    and "curve_rows (is_db s) \<subseteq> curve_rows d'" "trade_keys (is_db s) \<subseteq> trade_keys d'" "lowercase_curves d'"
    and "\<forall>c\<in>known. c \<in> curve_rows d' \<or> c = cb_hex_addr (os_ext e) (os_factory e)"
  shows "state_ok e gaps code (s\<lparr>is_db := d', is_known := known\<rparr>) \<and> nothing_lost (is_db s) d'"
  using assms chain_view_decides [OF view] by (simp add: state_ok_def data_ok_def nothing_lost_def)

lemma writer_side:
  assumes ok: "state_ok e gaps code s" and view: "launchpad_view d' = launchpad_view (is_db s)"
    and "db_wf d'" "classes_right (os_ext e) (os_alloy e) code d'"
    and run: "sync_inv gaps d'" "cursor_pos (is_db s) \<le> cursor_pos d'" "heights (is_db s) \<subseteq> heights d'"
    and new: "0 \<le> lo" "pending gaps lo buf d'"
  shows "state_ok e gaps code (s\<lparr>is_db := d', is_next := (is_next s)(p := lo), is_buf := (is_buf s)(p := buf)\<rparr>) \<and>
    nothing_lost (is_db s) d'"
  using assms launchpad_view_decides [OF view]
  by (auto simp: state_ok_def data_ok_def nothing_lost_def lowercase_curves_def intro: pending_more)

lemma state_okD:
  assumes "state_ok e gaps code s"
  shows "sync_inv gaps (is_db s)" "db_wf (is_db s)" "cb_inv (cb_hex_addr (os_ext e) (os_factory e)) (is_db s)"
    "classes_right (os_ext e) (os_alloy e) code (is_db s)" "lowercase_curves (is_db s)"
  using assms by (auto simp: state_ok_def data_ok_def)

lemma state_ok_next: "state_ok e gaps code s \<Longrightarrow> 0 \<le> is_next s p"
  and state_ok_pending: "state_ok e gaps code s \<Longrightarrow> pending gaps (is_next s p) (is_buf s p) (is_db s)"
  by (simp_all add: state_ok_def)

text \<open>The three operations of a writer that touch the database.\<close>

lemma flushed_ok:
  assumes ok: "state_ok e gaps code s" and ne: "is_buf s p \<noteq> []"
    and run: "batch_write_blocks (os_ext e) an (is_buf s p) w = (r, w')" and w: "w_db w = is_db s"
  shows "state_ok e gaps code (s\<lparr>is_db := w_db w', is_next := (is_next s)(p := is_next s p),
      is_buf := (is_buf s)(p := (if r = Inr () then [] else is_buf s p))\<rparr>) \<and> nothing_lost (is_db s) (w_db w')"
proof -
  note s = state_okD [OF ok] state_ok_next [OF ok, of p] state_ok_pending [OF ok, of p]
  from run have kept: "db_wf (w_db w')" "launchpad_view (w_db w') = launchpad_view (is_db s)"
      "classes_right (os_ext e) (os_alloy e) code (w_db w')"
    using keeps_run [OF wf_writer.batch_write_blocks _ run] keeps_run [OF classes_writer.batch_write_blocks _ run]
      keeps_run [OF launchpad_writer.batch_write_blocks _ run, of "launchpad_view (is_db s)"] s w by simp_all
  from run ne have "sync_inv gaps (w_db w') \<and> cursor_pos (is_db s) \<le> cursor_pos (w_db w') \<and>
      heights (is_db s) \<subseteq> heights (w_db w') \<and>
      pending gaps (is_next s p) (if r = Inr () then [] else is_buf s p) (w_db w')"
  proof (cases rule: batch_write_cases)
    case unchanged
    with s w show ?thesis by (auto simp: same_tables_inv)
  next
    case written
    from s w have "sync_inv gaps (w_db w)" "pending gaps (is_next s p) (is_buf s p) (w_db w)" by simp_all
    note sync = batch_rows_sync [OF written ne this]
    have "heights (is_db s) \<subseteq> heights (w_db w')"
      using sync(4) w by simp
    with sync s(7) w show ?thesis by (auto intro: pending_more)
  qed
  with kept s show ?thesis by (intro writer_side [OF ok]) auto
qed

lemma skipped_ok:
  assumes ok: "state_ok e gaps code s" and buf: "is_buf s p = []" and gap: "gaps (is_next s p)" "in_i64 (is_next s p)"
    and run: "write_cursor (BlockHeight (is_next s p)) 0 w = (r, w')" and w: "w_db w = is_db s"
  shows "state_ok e gaps code (s\<lparr>is_db := w_db w',
      is_next := (is_next s)(p := (if r = Inr () then is_next s p + 1 else is_next s p)),
      is_buf := (is_buf s)(p := [])\<rparr>) \<and> nothing_lost (is_db s) (w_db w')"
proof -
  note s = state_okD [OF ok] state_ok_next [OF ok, of p] state_ok_pending [OF ok, of p]
  from run have kept: "db_wf (w_db w')" "launchpad_view (w_db w') = launchpad_view (is_db s)"
      "classes_right (os_ext e) (os_alloy e) code (w_db w')"
    using keeps_run [OF wf_writer.ops(10) _ run] keeps_run [OF classes_writer.ops(10) _ run]
      keeps_run [OF launchpad_writer.ops(10) _ run, of "launchpad_view (is_db s)"] s w by simp_all
  from run have "sync_inv gaps (w_db w') \<and> cursor_pos (is_db s) \<le> cursor_pos (w_db w') \<and>
      heights (is_db s) \<subseteq> heights (w_db w') \<and>
      pending gaps (if r = Inr () then is_next s p + 1 else is_next s p) [] (w_db w')"
  proof (cases rule: write_cursor_cases)
    case unchanged
    with s w buf show ?thesis by (auto simp: same_tables_inv)
  next
    case written
    have p: "pending gaps (is_next s p) [] (w_db w)" using s(7) buf w by simp
    note sync = gap_write_sync [OF written _ p gap(1) s(6) gap(2)]
    have "pending gaps (is_next s p) [] (w_db w')"
      using p sync(4) s(1) w by (intro pending_more [OF p]) simp
    with sync s w show ?thesis by auto
  qed
  with kept s show ?thesis by (intro writer_side [OF ok]) auto
qed

lemma ingested_ok:
  assumes ok: "state_ok e gaps code s" and buf: "is_buf s p = []"
    and b: "bundle_height b = BlockHeight (is_next s p)" "in_i64 (is_next s p)"
    and run: "write_block (os_ext e) an b w = (r, w')" and w: "w_db w = is_db s"
  shows "state_ok e gaps code (s\<lparr>is_db := w_db w',
      is_next := (is_next s)(p := (if r = Inr () then is_next s p + 1 else is_next s p)),
      is_buf := (is_buf s)(p := [])\<rparr>) \<and> nothing_lost (is_db s) (w_db w')"
proof -
  note s = state_okD [OF ok] state_ok_next [OF ok, of p] state_ok_pending [OF ok, of p]
  from run have kept: "db_wf (w_db w')" "launchpad_view (w_db w') = launchpad_view (is_db s)"
      "classes_right (os_ext e) (os_alloy e) code (w_db w')"
    using keeps_run [OF wf_writer.write_block _ run] keeps_run [OF classes_writer.write_block _ run]
      keeps_run [OF launchpad_writer.write_block _ run, of "launchpad_view (is_db s)"] s w by simp_all
  from run have "sync_inv gaps (w_db w') \<and> cursor_pos (is_db s) \<le> cursor_pos (w_db w') \<and>
      heights (is_db s) \<subseteq> heights (w_db w') \<and>
      pending gaps (if r = Inr () then is_next s p + 1 else is_next s p) [] (w_db w')"
  proof (cases rule: write_block_cases)
    case unchanged
    with s w buf show ?thesis by (auto simp: same_tables_inv)
  next
    case written
    have p: "pending gaps (is_next s p) [] (w_db w)" using s(7) buf w by simp
    note sync = single_write_sync [OF written _ p b(1) s(6) b(2)]
    have "pending gaps (is_next s p) [] (w_db w')"
      using sync(3) s(1) w by (intro pending_more [OF p]) simp
    with sync s w show ?thesis by auto
  qed
  with kept s show ?thesis by (intro writer_side [OF ok]) auto
qed

text \<open>The launchpad worker and the address processes.\<close>

lemma trusted_logs:
  assumes "trusted e gaps code"
  shows "logged e (Some (os_factory e)) l \<Longrightarrow>
      steady (cb_hex_addr (os_ext e) (os_factory e)) (factory_log (os_ext e) (os_abi e) l :: (cb_world, cb_error, unit) io)"
    and "logged e None l \<Longrightarrow> trade_topic (os_abi e) l \<Longrightarrow>
      emitter_of (os_ext e) l \<noteq> cb_hex_addr (os_ext e) (os_factory e)"
  using assms factory_behavesD unfolding trusted_def logged_def by metis+

interpretation lower: db_invariant lowercase_curves
  by unfold_locales (simp add: lowercase_curves_def curve_rows_def)

lemma hex_lowercase:
  assumes "hex_laws x"
  shows "to_lowercase (cb_hex_addr x a) = cb_hex_addr x a"
proof -
  have "lower_char c = c" if "is_lower_hex c" for c
    using that by (auto simp: is_lower_hex_def lower_char_def)
  with hex_encode_lower [OF assms, of _ a] show ?thesis
    by (simp add: cb_hex_addr_def to_lowercase_def map_idI lower_char_def)
qed

lemma tokens_insert_lower:
  assumes "to_lowercase (it_curve_address t) = it_curve_address t"
  shows "keeps (\<lambda>w. lowercase_curves (w_db w)) (cb_tokens_insert t)"
proof -
  have "keeps lowercase_curves (cb_tokens_insert_stmt t)"
  proof (rule keepsI)
    fix d
    assume l: "lowercase_curves d"
    obtain r d' where run: "cb_tokens_insert_stmt t d = (r, d')" by fastforce
    then show "lowercase_curves (snd (cb_tokens_insert_stmt t d))"
    proof (cases rule: cb_tokens_insert_stmt_cases)
      case same
      with l run show ?thesis by simp
    next
      case new
      with l assms run show ?thesis
        by (auto simp: lowercase_curves_def curve_rows_def cb_token_to_row_def)
    qed
  qed
  then show ?thesis
    unfolding cb_tokens_insert_def by (intro keeps_intros lower.keeps_request)
qed

lemma keeps_lift_bind: "(\<And>v. q = Inr v \<Longrightarrow> keeps P (g v)) \<Longrightarrow> keeps P (bind_io (lift_io q) g)"
  by (cases q) (simp_all add: keeps_def bind_io_def lift_io_def)

lemma launchpad_lower:
  fixes l :: rpc_log
  assumes "hex_laws x"
  shows "keeps (\<lambda>w :: 'z cb_world_scheme. lowercase_curves (w_db w)) (factory_log x a l)"
    and "keeps (\<lambda>w :: 'z cb_world_scheme. lowercase_curves (w_db w)) (vet_emitter x a n pick l)"
proof -
  have "keeps (\<lambda>w :: 'z cb_world_scheme. lowercase_curves (w_db w)) (note_curve c)" for c
    by (simp add: keeps_def note_curve_def)
  then show "keeps (\<lambda>w :: 'z cb_world_scheme. lowercase_curves (w_db w)) (factory_log x a l)"
    unfolding factory_log_def apply_curve_created_def
    by (auto intro!: keeps_intros tokens_insert_lower simp: hex_lowercase [OF assms])
  show "keeps (\<lambda>w :: 'z cb_world_scheme. lowercase_curves (w_db w)) (vet_emitter x a n pick l)"
  proof (rule keepsI)
    fix w :: "'z cb_world_scheme"
    assume Q: "lowercase_curves (w_db w)"
    have "keeps (\<lambda>w :: 'z cb_world_scheme. lowercase_curves (w_db w)) (try_adopt x a n c b h)" for c b h
      unfolding try_adopt_def
      by (auto intro!: keeps_intros tokens_insert_lower simp: orphan_row_def hex_lowercase [OF assms]
          split: option.splits sum.splits)
    from keepsD [OF this Q] have "lowercase_curves (w_db w')" if "try_adopt x a n c b h w = (r, w')" for c b h r w'
      using that by (metis snd_conv)
    with Q show "lowercase_curves (w_db (snd (vet_emitter x a n pick l w)))"
      by (auto simp: vet_emitter_def Let_def split: prod.splits sum.splits bool.splits)
  qed
qed

lemma hydrate_spec:
  assumes "hydrate_known_curves w = (q, w')"
  shows "w_db w' = w_db w" "q = Inr () \<Longrightarrow> known_curves w' = to_lowercase ` curve_rows (w_db w)"
    "q \<noteq> Inr () \<Longrightarrow> known_curves w' = known_curves w"
  using assms
  by (auto simp: hydrate_known_curves_def known_curve_addresses_def bind_io_def map_err_io_def map_err_def
      request_def statement_def curve_rows_def image_image split: list.splits pg_outcome.splits)

lemma worker_kept:
  assumes ok: "state_ok e gaps code s" and w: "w_db w = is_db s" "known_curves w = is_known s"
    and run: "m w = (r, w')"
    and keeps: "keeps (\<lambda>w. db_wf (w_db w)) m" "\<And>x k code. keeps (\<lambda>w. classes_right x k code (w_db w)) m"
      "\<And>v. keeps (\<lambda>w. chain_view (w_db w) = v) m"
    and lower: "keeps (\<lambda>w. lowercase_curves (w_db w)) m"
    and inv: "worker_inv (cb_hex_addr (os_ext e) (os_factory e)) w' \<and> grows w w'"
  shows "state_ok e gaps code (s\<lparr>is_db := w_db w', is_known := known_curves w'\<rparr>) \<and> nothing_lost (is_db s) (w_db w')"
proof (rule launchpad_side [OF ok])
  note s = state_okD [OF ok]
  show "chain_view (w_db w') = chain_view (is_db s)"
    using keeps_run [OF keeps(3) _ run, of "chain_view (is_db s)"] w by simp
  show "db_wf (w_db w')" "classes_right (os_ext e) (os_alloy e) code (w_db w')" "lowercase_curves (w_db w')"
    using keeps_run [OF keeps(1) _ run] keeps_run [OF keeps(2) _ run] keeps_run [OF lower _ run] s w by simp_all
qed (use inv w in \<open>auto simp: worker_inv_def grows_def\<close>)

lemma state_ok_worker:
  "state_ok e gaps code s \<Longrightarrow> w_db w = is_db s \<Longrightarrow> known_curves w = is_known s \<Longrightarrow>
     worker_inv (cb_hex_addr (os_ext e) (os_factory e)) w"
  by (auto simp: state_ok_def data_ok_def worker_inv_def)

lemma position_curve: "trade_position x l = Inr (b, i, h, c) \<Longrightarrow> c = emitter_of x l"
  by (auto simp: trade_position_def bind_result_Inr require_emitter_def cb_hex_addr_def emitter_of_def)

lemma rows_curve:
  "buy_row x a l = Inr row \<Longrightarrow> ic_curve_address row = emitter_of x l"
  "sell_row x a l = Inr row \<Longrightarrow> ic_curve_address row = emitter_of x l"
  "graduated_row x a l = Inr row \<Longrightarrow> ic_curve_address row = emitter_of x l"
  by (auto simp: buy_row_def sell_row_def graduated_row_def bind_result_Inr dest: position_curve)

lemma handlers_alt:
  assumes "handler \<in> {apply_buy, apply_sell, apply_graduated}"
  shows "\<exists>row_of. handler x a l = bind_io (lift_io row_of) record_trade \<and>
    (\<forall>row. row_of = Inr row \<longrightarrow> ic_curve_address row = emitter_of x l)"
  using assms rows_curve unfolding insert_iff empty_iff
  by (elim disjE) (simp only: handlers_record, blast, simp only: handlers_record, blast, simp only: handlers_record, blast, simp)

lemma traded_ok:
  assumes ok: "state_ok e gaps code s" and emitter: "emitter_of (os_ext e) l \<in> is_known s"
    and h: "handler \<in> {apply_buy, apply_sell, apply_graduated}"
    and run: "handler (os_ext e) (os_abi e) l w = (r, w')" and w: "w_db w = is_db s"
  shows "state_ok e gaps code (s\<lparr>is_db := w_db w', is_known := is_known s\<rparr>) \<and> nothing_lost (is_db s) (w_db w')"
proof -
  let ?f = "cb_hex_addr (os_ext e) (os_factory e)"
  note s = state_okD [OF ok]
  obtain row_of where row_of: "handler (os_ext e) (os_abi e) l = bind_io (lift_io row_of) record_trade"
      "\<And>row. row_of = Inr row \<Longrightarrow> ic_curve_address row = emitter_of (os_ext e) l"
    using handlers_alt [OF h] by blast
  show ?thesis
  proof (cases row_of)
    case (Inl err)
    with run row_of(1) w have "w_db w' = is_db s" by (auto simp: bind_io_def lift_io_def)
    with ok show ?thesis by (simp add: state_ok_def nothing_lost_def)
  next
    case (Inr row)
    with run row_of(1) have rec: "record_trade row w = (r, w')" by (simp add: bind_io_def lift_io_def)
    have "ic_curve_address row \<in> curve_rows (w_db w) \<or> ic_curve_address row = ?f"
      using ok emitter row_of(2) [OF Inr] w by (auto simp: state_ok_def)
    from record_trade_inv [OF rec _ this] s(3) w
    have "cb_inv ?f (w_db w')" "curve_rows (w_db w') = curve_rows (is_db s)" "trade_keys (is_db s) \<subseteq> trade_keys (w_db w')"
      by simp_all
    moreover have "chain_view (w_db w') = chain_view (is_db s)" "db_wf (w_db w')"
        "classes_right (os_ext e) (os_alloy e) code (w_db w')"
      using keeps_run [OF chain_launchpad.record_trade _ rec, of "chain_view (is_db s)"]
        keeps_run [OF wf_launchpad.record_trade _ rec] keeps_run [OF classes_launchpad.record_trade _ rec] s w by simp_all
    ultimately show ?thesis
      using ok s(5) by (intro launchpad_side [OF ok]) (auto simp: state_ok_def lowercase_curves_def)
  qed
qed

text \<open>Operations that do not touch the launchpad nor the blocks: the checkpoint, a probe, the seeding.\<close>

lemma aside_ok:
  assumes ok: "state_ok e gaps code s" and run: "m w = (r, w')" and w: "w_db w = is_db s"
    and keeps: "keeps (\<lambda>w. db_wf (w_db w)) m" "keeps (\<lambda>w. classes_right (os_ext e) (os_alloy e) code (w_db w)) m"
      "\<And>v. keeps (\<lambda>w. chain_view (w_db w) = v) m" "\<And>v. keeps (\<lambda>w. launchpad_view (w_db w) = v) m"
  shows "state_ok e gaps code (s\<lparr>is_db := w_db w', is_known := is_known s\<rparr>) \<and> nothing_lost (is_db s) (w_db w')"
proof -
  note s = state_okD [OF ok]
  have view: "launchpad_view (w_db w') = launchpad_view (is_db s)"
    using keeps_run [OF keeps(4) _ run] w by simp
  have "chain_view (w_db w') = chain_view (is_db s)" "db_wf (w_db w')"
      "classes_right (os_ext e) (os_alloy e) code (w_db w')"
    using keeps_run [OF keeps(3) _ run, of "chain_view (is_db s)"] keeps_run [OF keeps(1) _ run]
      keeps_run [OF keeps(2) _ run] s w by simp_all
  with ok s launchpad_view_decides [OF view] show ?thesis
    by (intro launchpad_side [OF ok]) (auto simp: state_ok_def lowercase_curves_def)
qed

lemma checkpoint_launchpad: "keeps (\<lambda>w. launchpad_view (w_db w) = v) (cb_write_cursor h)"
  unfolding cb_write_cursor_def meta_set_i64_def meta_set_def
  by (intro keeps_intros launchpad_part.keeps_request)

lemma seeding_keeps:
  "keeps (\<lambda>w. db_wf (w_db w)) backfill_from_transactions"
  "keeps (\<lambda>w. classes_right x k code (w_db w)) backfill_from_transactions"
  "keeps (\<lambda>w. chain_view (w_db w) = v) backfill_from_transactions"
  "keeps (\<lambda>w. launchpad_view (w_db w) = u) backfill_from_transactions"
  unfolding backfill_from_transactions_def
  by (intro keeps_intros wf.keeps_request classes.keeps_request chain_part.keeps_request launchpad_part.keeps_request)+

lemma probe_keeps:
  "keeps (\<lambda>w. db_wf (w_db w)) (classify_one x k n a)"
  "keeps (\<lambda>w. chain_view (w_db w) = v) (classify_one x k n a)"
  "keeps (\<lambda>w. launchpad_view (w_db w) = u) (classify_one x k n a)"
  unfolding classify_one_def addresses_classify_def
  by (auto intro!: keeps_intros wf.keeps_request chain_part.keeps_request launchpad_part.keeps_request split: option.splits)

lemma probe_classes:
  fixes x k n a
  assumes "code_node code n" "hex_laws x" "keccak_laws k"
  shows "keeps (\<lambda>w :: 'z world_scheme. classes_right x k code (w_db w)) (classify_one x k n a)"
proof (rule keepsI)
  fix w :: "'z world_scheme"
  assume "classes_right x k code (w_db w)"
  moreover obtain as where "w_db (snd (classify_one x k n a w)) =
      w_db w\<lparr>tbl_addresses := mark_rows x k code as (tbl_addresses (w_db w))\<rparr>"
    using classify_one_db [OF assms] by blast
  ultimately show "classes_right x k code (w_db (snd (classify_one x k n a w)))"
    by (simp add: classes_right_def mark_rows_right)
qed

section \<open>Every step\<close>

lemma process_step_ok:
  assumes "process_step e s s'" "trusted e gaps code" "state_ok e gaps code s"
  shows "state_ok e gaps code s' \<and> nothing_lost (is_db s) (is_db s')"
  using assms(1)
proof cases
  case (resumed w c w' p)
  then have nxt: "(case c of None \<Rightarrow> 0 | Some h \<Rightarrow> height_val h + 1) = cursor_pos (is_db s) + 1"
    using read_cursor_spec(1) [of w c w'] by (auto simp: cursor_pos_def split: option.splits)
  have "0 \<le> cursor_pos (is_db s) + 1"
    using cursor_pos_range [OF sync_inv_cursor [OF state_okD(1) [OF assms(3)]]] by simp
  with assms(3) show ?thesis
    unfolding resumed(1) nxt
    by (auto simp: state_ok_def nothing_lost_def data_ok_def sync_inv_def covered_def pending_empty)
next
  case (fetched p b)
  then have "bundle_height b = BlockHeight (is_next s p)" "in_i64 (is_next s p)"
    using fetches_ok(1) [OF assms(2)] by (auto simp: fetches_def)
  with assms(3) show ?thesis
    unfolding fetched(1) by (auto simp: state_ok_def nothing_lost_def intro: pending_push)
next
  case (flushed p an w r w')
  from flushed_ok [OF assms(3) flushed(2-4)] show ?thesis unfolding flushed(1) by simp
next
  case (skipped p w r w')
  then have gap: "gaps (is_next s p)" "in_i64 (is_next s p)"
    using fetches_ok(2) [OF assms(2)] by (auto simp: fetches_def)
  have "(is_buf s)(p := []) = is_buf s" using skipped(2) by auto
  with skipped_ok [OF assms(3) skipped(2) gap skipped(4,5)] show ?thesis unfolding skipped(1) by simp
next
  case (ingested p b an w r w')
  then have b: "bundle_height b = BlockHeight (is_next s p)" "in_i64 (is_next s p)"
    using fetches_ok(1) [OF assms(2)] by (auto simp: fetches_def)
  have "(is_buf s)(p := []) = is_buf s" using ingested(2) by auto
  with ingested_ok [OF assms(3) ingested(2) b ingested(4,5)] show ?thesis unfolding ingested(1) by simp
next
  case (hydrated w w')
  then have "known_curves w' = to_lowercase ` curve_rows (is_db s)"
    using hydrate_spec [OF hydrated(2)] by simp
  with assms(3) show ?thesis
    unfolding hydrated(1) by (auto simp: state_ok_def data_ok_def nothing_lost_def lowercase_curves_def)
next
  case (announced l w r w')
  have hex: "hex_laws (os_ext e)" using assms(2) by (simp add: trusted_def)
  show ?thesis
    unfolding announced(1)
    using worker_kept [OF assms(3) announced(4,5,3) wf_launchpad.factory_log classes_launchpad.factory_log
        chain_launchpad.factory_log launchpad_lower(1) [OF hex] steadyD [OF trusted_logs(1) [OF assms(2) announced(2)]
        state_ok_worker [OF assms(3) announced(4,5)] announced(3)]] by simp
next
  case (vetted l n pick w r w')
  have hex: "hex_laws (os_ext e)" using assms(2) by (simp add: trusted_def)
  have "worker_inv (cb_hex_addr (os_ext e) (os_factory e)) w' \<and> grows w w'"
    using vet_emitter_steady [OF trusted_logs(2) [OF assms(2) vetted(2,3)]
        state_ok_worker [OF assms(3) vetted(6,7)] vetted(5)] by blast
  from worker_kept [OF assms(3) vetted(6,7,5) wf_launchpad.vet_emitter classes_launchpad.vet_emitter
      chain_launchpad.vet_emitter launchpad_lower(2) [OF hex] this] show ?thesis unfolding vetted(1) by simp
next
  case (traded l handler w r w')
  from traded_ok [OF assms(3) traded(3-6)] show ?thesis unfolding traded(1) by simp
next
  case (checkpointed h w r w')
  from aside_ok [OF assms(3) checkpointed(2,3) wf_launchpad.cursor classes_launchpad.cursor
      chain_launchpad.cursor checkpoint_launchpad] show ?thesis unfolding checkpointed(1) by simp
next
  case (classified n addr w r w')
  have "code_node code n" "hex_laws (os_ext e)" "keccak_laws (os_alloy e)"
    using assms(2) classified(2) by (auto simp: trusted_def)
  from aside_ok [OF assms(3) classified(3,4) probe_keeps(1) probe_classes [OF this] probe_keeps(2,3)]
  show ?thesis unfolding classified(1) by simp
next
  case (seeded w r w')
  from aside_ok [OF assms(3) seeded(2,3) seeding_keeps] show ?thesis unfolding seeded(1) by simp
qed

lemma nothing_lost_trans: "nothing_lost a b \<Longrightarrow> nothing_lost b c \<Longrightarrow> nothing_lost a c"
  by (auto simp: nothing_lost_def)

lemma process_reach_ok:
  assumes "process_reach e s s'" "trusted e gaps code" "state_ok e gaps code s"
  shows "state_ok e gaps code s' \<and> nothing_lost (is_db s) (is_db s')"
  using assms
proof induction
  case (start s)
  then show ?case by (simp add: nothing_lost_def)
next
  case (step s s1 s2)
  then show ?case using process_step_ok [OF step.hyps(2)] nothing_lost_trans by blast
qed

end
