(* ===== verification/Process_Runs.thy ===== *)
theory Process_Runs
  imports Processes Coinblast_Theorems
begin

text \<open>
  The step relation of \<open>Processes\<close> covers the code: every uninterrupted run of a process, from any state
  of the others and under any faults, is a path of its steps. So what holds on all paths holds between
  any two requests of the processes of \<open>bin/indexer.rs\<close>.
\<close>

section \<open>Writers\<close>

lemma reach_trans:
  assumes "process_reach e b c" "process_reach e a b"
  shows "process_reach e a c"
  using assms by induction (auto intro: process_reach.intros)

lemma reach_step: "process_step e a b \<Longrightarrow> process_reach e b c \<Longrightarrow> process_reach e a c"
  by (meson process_reach.start process_reach.step reach_trans)

lemma one_step: "process_step e a b \<Longrightarrow> process_reach e a b"
  by (meson process_reach.start process_reach.step)

text \<open>The state with the database of \<open>w\<close> in which writer \<open>p\<close> is at \<open>lo\<close> with the bundles \<open>buf\<close>.\<close>

definition at :: "indexer_state \<Rightarrow> nat \<Rightarrow> db \<Rightarrow> i64 \<Rightarrow> block_bundle list \<Rightarrow> indexer_state" where
  "at s p d lo buf = s\<lparr>is_db := d, is_next := (is_next s)(p := lo), is_buf := (is_buf s)(p := buf)\<rparr>"

lemma at_sel [simp]:
  "is_db (at s p d lo buf) = d" "is_next (at s p d lo buf) p = lo" "is_buf (at s p d lo buf) p = buf"
  by (simp_all add: at_def)

lemma at_at [simp]:
  "(at s p d lo buf)\<lparr>is_db := d', is_next := (is_next (at s p d lo buf))(p := lo'), is_buf := (is_buf (at s p d lo buf))(p := buf')\<rparr> =
     at s p d' lo' buf'"
  by (simp add: at_def)

lemma at_db: "(at s p d lo buf)\<lparr>is_db := d', is_buf := (is_buf (at s p d lo buf))(p := buf')\<rparr> = at s p d' lo buf'"
  and at_next: "(at s p d lo buf)\<lparr>is_db := d', is_next := (is_next (at s p d lo buf))(p := lo')\<rparr> = at s p d' lo' buf"
  and at_both: "(at s p d lo buf)\<lparr>is_next := (is_next (at s p d lo buf))(p := lo'), is_buf := (is_buf (at s p d lo buf))(p := buf')\<rparr> =
     at s p d lo' buf'"
  by (simp_all add: at_def fun_upd_idem_iff)

text \<open>\<open>gets_to\<close>: some path of \<open>p\<close> leads to the database \<open>d'\<close>.\<close>

definition gets_to :: "outside \<Rightarrow> nat \<Rightarrow> indexer_state \<Rightarrow> db \<Rightarrow> bool" where
  "gets_to e p s d' \<longleftrightarrow> (\<exists>lo buf. process_reach e s (at s p d' lo buf))"

lemma at_self [simp]: "at s p (is_db s) (is_next s p) (is_buf s p) = s"
  by (simp add: at_def)

lemma at_at' [simp]: "at (at s p d lo buf) p d' lo' buf' = at s p d' lo' buf'"
  by (simp add: at_def)

lemma gets_to_self: "gets_to e p (at s p d lo buf) d"
  unfolding gets_to_def by (intro exI [of _ lo] exI [of _ buf]) (simp add: process_reach.start)

lemma gets_to_after: "process_reach e (at s p d lo buf) (at s p d1 lo1 buf1) \<Longrightarrow> gets_to e p (at s p d1 lo1 buf1) d' \<Longrightarrow>
    gets_to e p (at s p d lo buf) d'"
  unfolding gets_to_def by simp (meson reach_trans)

lemma flush_path:
  fixes w :: sync_world
  assumes "flush_buf (os_ext e) an buf cur w = (r, w')"
  shows "process_reach e (at s p (w_db w) lo buf) (at s p (w_db w') lo (if \<exists>c. r = Inr c then [] else buf))"
proof (cases "buf = []")
  case True
  with assms show ?thesis by (auto simp: flush_buf_def ret_io_def process_reach.start)
next
  case False
  with assms obtain q where "batch_write_blocks (os_ext e) an buf w = (q, w')"
    and q: "q = Inr () \<longleftrightarrow> (\<exists>c. r = Inr c)"
    by (auto simp: flush_buf_def bind_io_def ret_io_def split: prod.splits sum.splits)
  from process_step.flushed [of "at s p (w_db w) lo buf" p e an w q w', simplified at_sel, OF False this(1) refl]
  show ?thesis
    unfolding at_db q by (intro one_step) simp
qed

text \<open>The bundle or the gap the writer was waiting for.\<close>

lemma fetched_path:
  assumes "fetch_one (os_ext e) n cfg (BlockHeight lo) = Inr (Some b)" "n \<in> os_nodes e" "in_i64 lo"
  shows "process_reach e (at s p d lo buf) (at s p d (lo + 1) (buf @ [b]))"
proof -
  have "fetches e lo (Some b)" using assms by (auto simp: fetches_def)
  from process_step.fetched [of e "at s p d lo buf" p b, simplified at_sel, OF this]
  show ?thesis unfolding at_both by (rule one_step)
qed

lemma skip_path:
  fixes w :: sync_world
  assumes "write_cursor (BlockHeight lo) 0 w = (r, w')"
    and "fetch_one (os_ext e) n cfg (BlockHeight lo) = Inr None" "n \<in> os_nodes e" "in_i64 lo"
  shows "process_reach e (at s p (w_db w) lo []) (at s p (w_db w') (if r = Inr () then lo + 1 else lo) [])"
proof -
  have "fetches e lo None" using assms by (auto simp: fetches_def)
  from process_step.skipped [of "at s p (w_db w) lo []" p e w r w', simplified at_sel, OF refl this assms(1) refl]
  show ?thesis unfolding at_next by (rule one_step)
qed

lemma backfill_loop_path:
  fixes w :: sync_world
  assumes "backfill_loop (os_ext e) an k (fetch_one (os_ext e) n cfg) cancel i (map BlockHeight [lo..hi]) buf cur w = (r, w')"
    and n: "n \<in> os_nodes e" and range: "0 \<le> lo" "lo \<le> hi + 1" "in_i64 hi"
  shows "gets_to e p (at s p (w_db w) lo buf) (w_db w')"
  using assms(1,3,4)
proof (induction "nat (hi + 1 - lo)" arbitrary: lo i buf cur w)
  case 0
  then have "lo = hi + 1" by simp
  with 0 have "flush_buf (os_ext e) an buf cur w = (r, w')" by simp
  from flush_path [OF this] gets_to_self show ?case by (rule gets_to_after)
next
  case (Suc m)
  then have le: "lo \<le> hi" and inl: "in_i64 lo" using range(3) by (auto simp: rust_arith)
  have rest: "gets_to e p (at s p (w_db w) lo buf) (w_db w')"
    if "backfill_loop (os_ext e) an k (fetch_one (os_ext e) n cfg) cancel (Suc i) (map BlockHeight [lo + 1..hi]) buf1 cur1 w1 = (r, w')"
      "process_reach e (at s p (w_db w) lo buf) (at s p (w_db w1) (lo + 1) buf1)"
    for buf1 cur1 w1
    using Suc.hyps(1) [OF _ that(1)] Suc.hyps(2) Suc.prems le by (intro gets_to_after [OF that(2)]) auto
  note stop = gets_to_after [OF _ gets_to_self]
  note fetched = fetched_path [OF _ n inl] and skip = skip_path [OF _ _ n inl]
  from Suc.prems(1) [unfolded upto_heights [OF le]] show ?case
  proof (cases rule: backfill_loop_cases)
    case cancelled
    from stop [OF flush_path [OF cancelled(2)]] show ?thesis .
  next
    case (failed err)
    then show ?thesis by (simp add: gets_to_self)
  next
    case (buffered b)
    from rest [OF buffered(3) fetched [OF buffered(1)]] show ?thesis .
  next
    case (flush_failed b err)
    from stop [OF reach_trans [OF flush_path [OF flush_failed(3)] fetched [OF flush_failed(1)]]] show ?thesis .
  next
    case (flushed b c w1)
    from rest [OF flushed(4)] reach_trans [OF flush_path [OF flushed(3)] fetched [OF flushed(1)]] show ?thesis by simp
  next
    case (gap_unflushed err)
    from stop [OF flush_path [OF gap_unflushed(3)]] show ?thesis .
  next
    case (gap_failed c w1 err)
    from stop [OF reach_trans [OF skip [OF gap_failed(4,1)]]] flush_path [OF gap_failed(3)] show ?thesis by simp
  next
    case (gap c w1 w2)
    from rest [OF gap(5)] reach_trans [OF skip [OF gap(4,1)]] flush_path [OF gap(3)] show ?thesis by simp
  qed
qed

lemma resumed_step:
  fixes w :: sync_world
  assumes "read_cursor w = (Inr c, w')"
  shows "process_reach e (at s p (w_db w) lo buf) (at s p (w_db w) (cursor_pos (w_db w) + 1) [])"
proof -
  have "(case c of None \<Rightarrow> 0 | Some h \<Rightarrow> height_val h + 1) = cursor_pos (w_db w) + 1"
    using read_cursor_spec(1) [OF assms] by (auto simp: cursor_pos_def split: option.splits)
  with process_step.resumed [of w c w' "at s p (w_db w) lo buf" e p, OF assms] show ?thesis
    by (intro one_step) (simp add: at_both)
qed

lemma cursor_start:
  assumes "cursor_ok d"
  shows "0 \<le> cursor_pos d + 1" "cursor_pos d < c \<Longrightarrow> c \<le> i64_max \<Longrightarrow> in_i64 c"
  using cursor_pos_range [OF assms] by (auto simp: rust_arith)

lemma run_backfill_path:
  fixes w :: sync_world
  assumes run: "run_backfill (os_ext e) n cfg var an cancel w = (r, w')"
    and n: "n \<in> os_nodes e" and ok: "cursor_ok (w_db w)"
  shows "gets_to e p (at s p (w_db w) lo buf) (w_db w')"
proof -
  obtain rc w0 where rc: "read_cursor w = (rc, w0)" by fastforce
  from run show ?thesis
  proof (cases rule: run_backfill_cases)
    case stopped
    with gets_to_self show ?thesis by simp
  next
    case idle
    with gets_to_self show ?thesis by simp
  next
    case (walk tip w1)
    let ?pos = "cursor_pos (w_db w)" and ?cap = "backfill_cap cfg tip"
    show ?thesis
    proof (cases rc)
      case (Inl err)
      with run rc have "w' = w0" by (simp add: run_backfill_def bind_io_def)
      moreover have "w_db w0 = w_db w"
        using rc Inl by (auto simp: read_cursor_def bind_io_def map_err_io_def map_err_def meta_get_i64_def meta_get_def
            query_def request_def statement_def ret_io_def fail_io_def split: list.splits pg_outcome.splits option.splits
            sum.splits prod.splits)
      ultimately show ?thesis using gets_to_self by simp
    next
      case (Inr c)
      have "?cap \<le> i64_max"
        using order_trans [OF backfill_cap_le [of cfg tip]] by (simp add: rust_arith)
      from backfill_loop_path [OF walk(4) n cursor_start(1) [OF ok] _ cursor_start(2) [OF ok walk(3) this]] walk(3)
      have "gets_to e p (at s p (w_db w) (?pos + 1) []) (w_db w')"
        unfolding walk(2) by simp
      with resumed_step [OF rc [unfolded Inr]] show ?thesis by (rule gets_to_after)
    qed
  qed
qed

text \<open>The tail loop ingests block by block.\<close>

lemma ingest_path:
  fixes w :: sync_world
  assumes run: "ingest_one (os_ext e) n cfg an (BlockHeight lo) w = (r, w')" and n: "n \<in> os_nodes e" and lo: "in_i64 lo"
  shows "process_reach e (at s p (w_db w) lo []) (at s p (w_db w') (if r = Inr () then lo + 1 else lo) [])"
  using run
proof (cases rule: ingest_one_cases)
  case (failed err)
  then show ?thesis by (simp add: process_reach.start)
next
  case (block b)
  then have "fetches e lo (Some b)" using n lo by (auto simp: fetches_def)
  with block(2) show ?thesis
    using process_step.ingested [of "at s p (w_db w) lo []" p e b an w r w', simplified at_sel at_next]
    by (intro one_step) simp
next
  case gap
  from skip_path [OF gap(2,1) n lo] show ?thesis .
qed

lemma ingest_all_path:
  fixes w :: sync_world
  assumes "for_io (ingest_one (os_ext e) n cfg an) (map BlockHeight [lo..hi]) w = (r, w')"
    and n: "n \<in> os_nodes e" and range: "0 \<le> lo" "lo \<le> hi + 1" "in_i64 hi"
  shows "gets_to e p (at s p (w_db w) lo []) (w_db w')"
  using assms(1,3,4)
proof (induction "nat (hi + 1 - lo)" arbitrary: lo w)
  case 0
  then show ?case by (simp add: ret_io_def gets_to_self)
next
  case (Suc m)
  then have le: "lo \<le> hi" and inl: "in_i64 lo" using range(3) by (auto simp: rust_arith)
  obtain r1 w1 where one: "ingest_one (os_ext e) n cfg an (BlockHeight lo) w = (r1, w1)" by fastforce
  note step = ingest_path [OF one n inl, of s p]
  show ?case
  proof (cases r1)
    case (Inl err)
    with Suc.prems(1) one le have "w' = w1" by (simp add: upto_heights bind_io_def)
    with gets_to_after [OF step gets_to_self] show ?thesis by simp
  next
    case (Inr u)
    with Suc.prems(1) one le have "for_io (ingest_one (os_ext e) n cfg an) (map BlockHeight [lo + 1..hi]) w1 = (r, w')"
      by (simp add: upto_heights bind_io_def)
    from Suc.hyps(1) [OF _ this] Suc.hyps(2) Suc.prems le have "gets_to e p (at s p (w_db w1) (lo + 1) []) (w_db w')"
      by simp
    with step Inr show ?thesis by (auto intro: gets_to_after)
  qed
qed

lemma walk_path:
  fixes w :: sync_world
  assumes run: "walk_to (os_ext e) n cfg backoff an tip w = (r, w')" and n: "n \<in> os_nodes e" and ok: "cursor_ok (w_db w)"
  shows "gets_to e p (at s p (w_db w) lo buf) (w_db w')"
  using run
proof (cases rule: walk_to_cases)
  case (unread err)
  with gets_to_self show ?thesis by simp
next
  case idle
  with gets_to_self show ?thesis by simp
next
  case (walk c w1)
  have "tail_cap cfg tip \<le> i64_max" using in_i64_tail_cap [of cfg tip] by (simp add: rust_arith)
  note range = cursor_start(1) [OF ok] cursor_start(2) [OF ok walk(3) this]
  from ingest_all_path [OF walk(4) n range(1) _ range(2)] walk(3)
  have "gets_to e p (at s p (w_db w) (cursor_pos (w_db w) + 1) []) (w_db w')"
    unfolding walk(2) by simp
  with resumed_step [OF walk(1)] show ?thesis by (rule gets_to_after)
qed

lemma gets_to_ok:
  assumes "gets_to e p s d" "trusted e gaps code" "state_ok e gaps code s"
  obtains lo buf where "process_reach e s (at s p d lo buf)" "state_ok e gaps code (at s p d lo buf)"
  using assms process_reach_ok unfolding gets_to_def by blast

lemma gets_to_trans:
  assumes first: "gets_to e p s d1" and ok: "trusted e gaps code" "state_ok e gaps code s"
    and then_to: "\<And>s1. is_db s1 = d1 \<Longrightarrow> state_ok e gaps code s1 \<Longrightarrow> gets_to e p s1 d2"
  shows "gets_to e p s d2"
proof -
  obtain lo buf where "process_reach e s (at s p d1 lo buf)" "state_ok e gaps code (at s p d1 lo buf)"
    using gets_to_ok [OF first ok] .
  with then_to [of "at s p d1 lo buf"] show ?thesis
    using gets_to_after [of e s p "is_db s" "is_next s p" "is_buf s p", unfolded at_self] by simp
qed

lemma gets_to_here: "is_db s = d \<Longrightarrow> gets_to e p s d"
  using gets_to_self [of e p s "is_db s" "is_next s p" "is_buf s p", unfolded at_self] by simp

lemma ok_cursor: "state_ok e gaps code s \<Longrightarrow> cursor_ok (is_db s)"
  by (rule sync_inv_cursor [OF state_okD(1)])

lemma walk_gets_to:
  fixes w :: sync_world
  assumes "walk_to (os_ext e) n cfg backoff an tip w = (r, w')" "n \<in> os_nodes e" "state_ok e gaps code s" "w_db w = is_db s"
  shows "gets_to e p s (w_db w')"
  using walk_path [OF assms(1,2), of p s "is_next s p" "is_buf s p"] ok_cursor [OF assms(3)] assms(4) by simp

lemma handle_loop_path:
  fixes w :: sync_world
  assumes "handle_loop (os_ext e) n cfg backoff an arrivals tip g w = (r, g', w')" and n: "n \<in> os_nodes e"
    and ok: "trusted e gaps code" and "state_ok e gaps code s" "w_db w = is_db s"
  shows "gets_to e p s (w_db w')"
  using assms(1,4,5)
proof (induction arbitrary: s rule: handle_loop_rule)
  case (failed arrivals tip g w err w1)
  from walk_gets_to [OF failed(1) n failed(2,3)] show ?case .
next
  case (released arrivals tip g w w1)
  from walk_gets_to [OF released(1) n released(3,4)] show ?case .
next
  case (again arrivals tip g w w1 h r g' w')
  from walk_gets_to [OF again(1) n again(4,5)] ok again(4) show ?case
    by (rule gets_to_trans) (use again(3) in simp)
qed

lemma handle_path:
  fixes w :: sync_world
  assumes "handle_finalized (os_ext e) n cfg backoff an arrivals tip g w = (r, g', w')" and "n \<in> os_nodes e"
    and "trusted e gaps code" "state_ok e gaps code s" "w_db w = is_db s"
  shows "gets_to e p s (w_db w')"
  using assms handle_loop_path [OF _ assms(2-5)]
  by (auto simp: handle_finalized_def gets_to_here split: prod.splits offer.splits)

lemma tail_loop_path:
  fixes w :: sync_world
  assumes "tail_loop (os_ext e) cfg an ins g w = (r, g', w')" and "\<And>i. i \<in> set ins \<Longrightarrow> ti_node i \<in> os_nodes e"
    and "trusted e gaps code" "state_ok e gaps code s" "w_db w = is_db s"
  shows "gets_to e p s (w_db w')"
  using assms
proof (induction ins arbitrary: s g w)
  case Nil
  then show ?case by (simp add: gets_to_here)
next
  case (Cons i ins)
  show ?case
  proof (cases "\<exists>idx. \<not> ti_cancelled i \<and> ti_msg i = StreamEvent (BlockFinalized (Some idx))")
    case True
    then obtain idx where msg: "\<not> ti_cancelled i" "ti_msg i = StreamEvent (BlockFinalized (Some idx))" by blast
    obtain q g1 w1 where h: "handle_finalized (os_ext e) (ti_node i) cfg backoff_default an (ti_arrivals i)
        (block_height_from_u64 idx) g w = (q, g1, w1)" by (metis prod_cases3)
    note first = handle_path [OF h Cons.prems(2) [of i] Cons.prems(3-5), of p, simplified]
    show ?thesis
    proof (cases q)
      case (Inl err)
      with Cons.prems(1) msg h have "w' = w1" by simp
      with first show ?thesis by simp
    next
      case (Inr u)
      with Cons.prems(1) msg h have "tail_loop (os_ext e) cfg an ins g1 w1 = (r, g', w')" by simp
      from Cons.IH [OF this] Cons.prems(2,3) show ?thesis by (intro gets_to_trans [OF first Cons.prems(3,4)]) simp
    qed
  next
    case False
    with Cons.prems(1) have "w' = w \<or> tail_loop (os_ext e) cfg an ins g w = (r, g', w')"
      by (auto split: stream_msg.splits chain_event.splits option.splits if_splits)
    then show ?thesis
      using Cons.IH [of g w s] Cons.prems gets_to_here by auto
  qed
qed

lemma run_tail_path:
  fixes w :: sync_world
  assumes "run_tail (os_ext e) cfg an opened ins g w = (r, g', w')" and "\<And>i. i \<in> set ins \<Longrightarrow> ti_node i \<in> os_nodes e"
    and "trusted e gaps code" "state_ok e gaps code s" "w_db w = is_db s"
  shows "gets_to e p s (w_db w')"
  using assms tail_loop_path [OF _ assms(2-5)]
  by (auto simp: run_tail_def gets_to_here split: sum.splits)

text \<open>The loops of \<open>main\<close> around them.\<close>

lemma backfill_daemon_path:
  fixes w :: sync_world
  assumes "\<And>t. t \<in> set ts \<Longrightarrow> bt_node t \<in> os_nodes e"
    and "trusted e gaps code" "state_ok e gaps code s" "w_db w = is_db s"
  shows "gets_to e p s (w_db (snd (backfill_daemon (os_ext e) var an ts w)))"
  using assms
proof (induction ts arbitrary: s w)
  case Nil
  then show ?case by (simp add: gets_to_here)
next
  case (Cons t ts)
  obtain r w1 where run: "run_backfill (os_ext e) (bt_node t) sync_config_default var an (bt_cancel t) w = (r, w1)" by fastforce
  have first: "gets_to e p s (w_db w1)"
    using run_backfill_path [OF run, of p s "is_next s p" "is_buf s p"] Cons.prems ok_cursor [OF Cons.prems(3)] by simp
  show ?case
  proof (cases "bt_cancelled t")
    case True
    with Cons.prems show ?thesis by (simp add: gets_to_here)
  next
    case False
    have "gets_to e p s (w_db (snd (backfill_daemon (os_ext e) var an ts w1)))"
      using Cons.IH Cons.prems(1,2) by (intro gets_to_trans [OF first Cons.prems(2,3)]) simp
    with run False show ?thesis by simp
  qed
qed

lemma tail_daemon_path:
  fixes w :: sync_world
  assumes "\<And>t i. t \<in> set ss \<Longrightarrow> i \<in> set (ss_inputs t) \<Longrightarrow> ti_node i \<in> os_nodes e"
    and "trusted e gaps code" "state_ok e gaps code s" "w_db w = is_db s"
  shows "gets_to e p s (w_db (snd (snd (tail_daemon (os_ext e) an ss g w))))"
  using assms
proof (induction ss arbitrary: s g w)
  case Nil
  then show ?case by (simp add: gets_to_here)
next
  case (Cons t ss)
  obtain r g1 w1 where run: "run_tail (os_ext e) sync_config_default an (ss_opened t) (ss_inputs t) g w = (r, g1, w1)"
    by (metis prod_cases3)
  have first: "gets_to e p s (w_db w1)"
    by (rule run_tail_path [OF run _ Cons.prems(2-4)]) (use Cons.prems(1) in auto)
  have rest: "gets_to e p s (w_db (snd (snd (tail_daemon (os_ext e) an ss g1 w1))))"
    by (rule gets_to_trans [OF first Cons.prems(2,3)], rule Cons.IH) (use Cons.prems(1,2) in auto)
  have skip: "gets_to e p s (w_db (snd (snd (tail_daemon (os_ext e) an ss g w))))"
    by (rule Cons.IH) (use Cons.prems in auto)
  show ?case
    using first rest skip run Cons.prems(4)
    by (auto simp: gets_to_here split: sum.splits option.splits tail_exit.splits)
qed

section \<open>Launchpad worker\<close>

text \<open>\<open>follows\<close>: from a state with the database and the curves of the worker, every run is a path.\<close>

definition follows :: "outside \<Rightarrow> (cb_world, 'e, 'a) io \<Rightarrow> bool" where
  "follows e m \<longleftrightarrow> (\<forall>s w. w_db w = is_db s \<longrightarrow> known_curves w = is_known s \<longrightarrow>
     process_reach e s (s\<lparr>is_db := w_db (snd (m w)), is_known := known_curves (snd (m w))\<rparr>))"

named_theorems follows_intros

lemma followsD: "follows e m \<Longrightarrow> m w = (r, w') \<Longrightarrow> w_db w = is_db s \<Longrightarrow> known_curves w = is_known s \<Longrightarrow>
    process_reach e s (s\<lparr>is_db := w_db w', is_known := known_curves w'\<rparr>)"
  unfolding follows_def by (metis snd_conv)

lemma followsI:
  "(\<And>s w r w'. m w = (r, w') \<Longrightarrow> w_db w = is_db s \<Longrightarrow> known_curves w = is_known s \<Longrightarrow>
     process_reach e s (s\<lparr>is_db := w_db w', is_known := known_curves w'\<rparr>)) \<Longrightarrow> follows e m"
  unfolding follows_def by (metis prod.collapse)

lemma same_place: "w_db w = is_db s \<Longrightarrow> known_curves w = is_known s \<Longrightarrow>
    s\<lparr>is_db := w_db w, is_known := known_curves w\<rparr> = (s :: indexer_state)"
  by simp

lemma follows_quiet:
  assumes "\<And>w. w_db (snd (m w)) = w_db w \<and> known_curves (snd (m w)) = known_curves w"
  shows "follows e m"
  using assms unfolding follows_def by (auto simp: process_reach.start)

lemma follows_basic [follows_intros]: "follows e (ret_io v)" "follows e (lift_io q)" "follows e (fail_io err)"
  by (rule follows_quiet, simp add: ret_io_def lift_io_def fail_io_def)+

lemma follows_bind [follows_intros]:
  assumes m: "follows e m" and f: "\<And>v. follows e (f v)"
  shows "follows e (bind_io m f)"
proof (rule followsI)
  fix s :: indexer_state and w :: cb_world and r w'
  assume run: "bind_io m f w = (r, w')" and w: "w_db w = is_db s" "known_curves w = is_known s"
  obtain q w1 where 1: "m w = (q, w1)" by fastforce
  let ?s1 = "s\<lparr>is_db := w_db w1, is_known := known_curves w1\<rparr>"
  note first = followsD [OF m 1 w]
  show "process_reach e s (s\<lparr>is_db := w_db w', is_known := known_curves w'\<rparr>)"
  proof (cases q)
    case (Inl err)
    with run 1 first show ?thesis by (simp add: bind_io_def)
  next
    case (Inr v)
    with run 1 have "f v w1 = (r, w')" by (simp add: bind_io_def)
    from followsD [OF f this, of ?s1] first show ?thesis
      using reach_trans by fastforce
  qed
qed

lemma follows_lift_bind: "(\<And>v. q = Inr v \<Longrightarrow> follows e (g v)) \<Longrightarrow> follows e (bind_io (lift_io q) g)"
  by (cases q) (simp_all add: bind_io_def lift_io_def follows_def process_reach.start)

lemma follows_for: "(\<And>v. v \<in> set vs \<Longrightarrow> follows e (g v)) \<Longrightarrow> follows e (for_io g vs)"
  by (induction vs) (auto intro!: follows_intros)

lemma follows_map_err [follows_intros]: "follows e m \<Longrightarrow> follows e (map_err_io g m)"
  by (auto simp: follows_def map_err_io_def split_beta)

lemma follows_factory_log:
  assumes "logged e (Some (os_factory e)) l"
  shows "follows e (factory_log (os_ext e) (os_abi e) l)"
  by (rule followsI) (rule one_step, rule process_step.announced [OF assms])

lemma follows_cursor [follows_intros]: "follows e (cb_write_cursor h)" "follows e (cb_read_cursor net)"
proof -
  show "follows e (cb_write_cursor h)"
  proof (rule followsI)
    fix s :: indexer_state and w :: cb_world and r w'
    assume run: "cb_write_cursor h w = (r, w')" and w: "w_db w = is_db s" "known_curves w = is_known s"
    have "only_db (cb_write_cursor h)"
      unfolding cb_write_cursor_def meta_set_i64_def meta_set_def by (intro only_db_intros)
    from only_dbD [OF this run] have "known_curves w' = is_known s"
      using w(2) by (metis (no_types, lifting) cb_world.select_convs(1) cb_world.surjective world.update_convs)
    with one_step [OF process_step.checkpointed [OF run w(1)]]
    show "process_reach e s (s\<lparr>is_db := w_db w', is_known := known_curves w'\<rparr>)" by simp
  qed
  show "follows e (cb_read_cursor net)"
  proof -
    have "follows e (request (\<lambda>d. (Inr (f d), d)) :: (cb_world, sqlx_error, 'v) io)" for f :: "db \<Rightarrow> 'v"
      by (rule follows_quiet) (simp add: request_def statement_def split: list.splits pg_outcome.splits)
    then show ?thesis
      unfolding cb_read_cursor_def meta_get_i64_def meta_get_def query_def Let_def
      by (auto intro!: follows_bind follows_map_err follows_basic split: option.splits)
  qed
qed

lemma record_handler:
  obtains handler where "handler \<in> {apply_buy, apply_sell, apply_graduated}"
    "handler x a l = (bind_io (lift_io (trade_row x a l)) record_trade :: (cb_world, cb_error, bool) io)"
proof -
  consider "trade_row x a l = buy_row x a l" | "trade_row x a l = sell_row x a l" | "trade_row x a l = graduated_row x a l"
    unfolding trade_row_def by metis
  then show thesis
  proof cases
    case 1
    show ?thesis by (rule that [of apply_buy]) (simp_all only: handlers_record 1 insert_iff simp_thms)
  next
    case 2
    show ?thesis by (rule that [of apply_sell]) (simp_all only: handlers_record 2 insert_iff simp_thms)
  next
    case 3
    show ?thesis by (rule that [of apply_graduated]) (simp_all only: handlers_record 3 insert_iff simp_thms)
  qed
qed

lemma follows_record:
  fixes w :: cb_world
  assumes m: "bind_io (lift_io (trade_row (os_ext e) (os_abi e) l)) record_trade w = (q, w')"
    and "logged e None l" "w_db w = is_db s" "known_curves w = is_known s" "emitter_of (os_ext e) l \<in> is_known s"
  shows "process_step e s (s\<lparr>is_db := w_db w', is_known := known_curves w'\<rparr>)"
proof -
  obtain handler where h: "handler \<in> {apply_buy, apply_sell, apply_graduated}"
      "handler (os_ext e) (os_abi e) l = (bind_io (lift_io (trade_row (os_ext e) (os_abi e) l)) record_trade :: (cb_world, cb_error, bool) io)"
    by (rule record_handler)
  have "only_db (bind_io (lift_io (trade_row (os_ext e) (os_abi e) l)) record_trade :: (cb_world, cb_error, bool) io)"
    by (intro only_db_intros)
  from only_dbD [OF this m] have "known_curves w' = is_known s"
    using assms(4) by (metis (no_types, lifting) cb_world.select_convs(1) cb_world.surjective world.update_convs)
  then have "s\<lparr>is_db := w_db w', is_known := known_curves w'\<rparr> = s\<lparr>is_db := w_db w'\<rparr>"
    by (intro indexer_state.equality) simp_all
  then show ?thesis
    using process_step.traded [OF assms(2,5) h(1) m [folded h(2)] assms(3)] by simp
qed

lemma vetted_known:
  "vet_emitter x a n pick l w = (Inr True, w') \<Longrightarrow> emitter_of x l \<in> known_curves w'"
  by (auto simp: vet_emitter_def emitter_of_def Let_def split: if_splits sum.splits prod.splits bool.splits)

lemma follows_curve_log:
  assumes l: "logged e None l" and n: "n \<in> os_nodes e" and ok: "trusted e gaps code"
  shows "follows e (curve_log (os_ext e) (os_abi e) n pick l)"
proof (rule followsI)
  fix s :: indexer_state and w :: cb_world and r w'
  assume run: "curve_log (os_ext e) (os_abi e) n pick l w = (r, w')"
    and w: "w_db w = is_db s" "known_curves w = is_known s"
  obtain v w1 where vet: "vet_emitter (os_ext e) (os_abi e) n pick l w = (v, w1)" by fastforce
  let ?s1 = "s\<lparr>is_db := w_db w1, is_known := known_curves w1\<rparr>"
  have first: "process_reach e s ?s1" if "trade_topic (os_abi e) l"
    by (rule one_step, rule process_step.vetted [OF l that n vet w])
  consider (ignored) "\<not> trade_topic (os_abi e) l" | (rejected) "trade_topic (os_abi e) l" "v \<noteq> Inr True"
    | (trusted) "trade_topic (os_abi e) l" "v = Inr True" by blast
  then show "process_reach e s (s\<lparr>is_db := w_db w', is_known := known_curves w'\<rparr>)"
  proof cases
    case ignored
    with run w show ?thesis by (simp add: curve_log_alt ret_io_def process_reach.start)
  next
    case rejected
    with run vet have "w' = w1"
      by (cases v) (auto simp: curve_log_alt bind_io_def ret_io_def split: if_splits)
    with first [OF rejected(1)] show ?thesis by simp
  next
    case trusted
    with run vet obtain q where "bind_io (lift_io (trade_row (os_ext e) (os_abi e) l)) record_trade w1 = (q, w')"
      by (auto simp: curve_log_alt bind_io_def discard_def ret_io_def split: sum.splits prod.splits)
    from follows_record [OF this l, of ?s1] vetted_known [OF vet [unfolded trusted(2)]]
    have "process_step e ?s1 (?s1\<lparr>is_db := w_db w', is_known := known_curves w'\<rparr>)" by simp
    with first [OF trusted(1)] show ?thesis
      using process_reach.step by fastforce
  qed
qed

lemma follows_chunk:
  assumes n: "n \<in> os_nodes e" and ok: "trusted e gaps code"
  shows "follows e (run_chunk (os_ext e) (os_abi e) n pick backoff (os_factory e) lo hi)"
  unfolding run_chunk_def
proof (intro follows_lift_bind follows_bind follows_for)
  fix ls l
  assume ls: "cb_retried backoff (logs_in_range n lo hi (Some (os_factory e))) = Inr ls" "l \<in> set ls"
  obtain k where "logs_in_range n lo hi (Some (os_factory e)) k = Inr ls"
    using cb_retried_Inr [OF ls(1)] by blast
  with ls(2) n have "logged e (Some (os_factory e)) l"
    unfolding logged_def by blast
  then show "follows e (factory_log (os_ext e) (os_abi e) l)" by (rule follows_factory_log)
next
  fix ls l
  assume ls: "cb_retried backoff (logs_in_range n lo hi None) = Inr ls" "l \<in> set ls"
  obtain k where "logs_in_range n lo hi None k = Inr ls"
    using cb_retried_Inr [OF ls(1)] by blast
  with ls(2) n have "logged e None l"
    unfolding logged_def by blast
  from follows_curve_log [OF this n ok] show "follows e (curve_log (os_ext e) (os_abi e) n pick l)" .
qed

lemma follows_catch:
  assumes m: "follows e m" and g: "follows e g"
  shows "follows e (\<lambda>w. case m w of (Inl err, w') \<Rightarrow> (Inr (h err), w') | (Inr v, w') \<Rightarrow> g w')"
proof (rule followsI)
  fix s :: indexer_state and w :: cb_world and r w'
  assume run: "(case m w of (Inl err, w') \<Rightarrow> (Inr (h err), w') | (Inr v, w') \<Rightarrow> g w') = (r, w')"
    and w: "w_db w = is_db s" "known_curves w = is_known s"
  obtain q w1 where 1: "m w = (q, w1)" by fastforce
  note first = followsD [OF m 1 w]
  show "process_reach e s (s\<lparr>is_db := w_db w', is_known := known_curves w'\<rparr>)"
  proof (cases q)
    case (Inl err)
    with run 1 first show ?thesis by simp
  next
    case (Inr v)
    with run 1 have "g w1 = (r, w')" by simp
    from followsD [OF g this, of "s\<lparr>is_db := w_db w1, is_known := known_curves w1\<rparr>"] first show ?thesis
      using reach_trans by fastforce
  qed
qed

lemma follows_turn:
  assumes "n \<in> os_nodes e" "trusted e gaps code"
  shows "follows e (worker_turn (os_ext e) (os_abi e) pick (os_factory e) cfg n)"
  unfolding worker_turn_def Let_def
  by (intro follows_intros) (auto intro!: follows_basic follows_catch follows_chunk [OF assms] follows_bind follows_cursor)

lemma worker_loop_path:
  fixes w :: cb_world
  assumes "worker_loop x a pick factory cfg turns w = (r, w')" and "x = os_ext e" "a = os_abi e" "factory = os_factory e"
    and "\<forall>(c, n)\<in>set turns. n \<in> os_nodes e" "trusted e gaps code"
    and "w_db w = is_db s" "known_curves w = is_known s"
  shows "process_reach e s (s\<lparr>is_db := w_db w', is_known := known_curves w'\<rparr>)"
  using assms
proof (induction x a pick factory cfg turns w arbitrary: s rule: worker_loop.induct)
  case (1 x a pick factory cfg w)
  then show ?case by (auto simp: process_reach.start)
next
  case (2 x a pick factory cfg c n turns w)
  obtain q w1 where turn: "worker_turn x a pick factory cfg n w = (q, w1)" by fastforce
  let ?s1 = "s\<lparr>is_db := w_db w1, is_known := known_curves w1\<rparr>"
  have n: "n \<in> os_nodes e" using "2.prems"(5) by simp
  from followsD [OF follows_turn [OF n "2.prems"(6)] turn [unfolded "2.prems"(2-4)] "2.prems"(7,8)]
  have first: "process_reach e s ?s1" .
  show ?case
  proof (cases "c \<or> (\<exists>err. q = Inl err)")
    case True
    with "2.prems"(1,7,8) turn first show ?thesis by (auto simp: process_reach.start split: if_splits)
  next
    case False
    then obtain v where v: "q = Inr v" by (cases q) auto
    with False "2.prems"(1) turn have "worker_loop x a pick factory cfg turns w1 = (r, w')" by simp
    from "2.IH" [OF _ turn [symmetric] v this "2.prems"(2-4) _ "2.prems"(6), of ?s1] False "2.prems"(5) first
    show ?thesis using reach_trans by fastforce
  qed
qed

lemma run_coinblast_path:
  fixes w :: cb_world
  assumes run: "run_coinblast_worker (os_ext e) (os_abi e) pick (os_factory e) cfg turns w = (r, w')"
    and turns: "\<forall>(c, n)\<in>set turns. n \<in> os_nodes e" "trusted e gaps code" and w: "w_db w = is_db s"
  shows "\<exists>known. process_reach e s (s\<lparr>is_db := w_db w', is_known := known\<rparr>)"
proof -
  obtain q w1 where h: "hydrate_known_curves w = (q, w1)" by fastforce
  show ?thesis
  proof (cases q)
    case (Inl err)
    with run h hydrate_spec(1) [OF h] w show ?thesis
      by (intro exI [of _ "is_known s"]) (auto simp: run_coinblast_worker_def process_reach.start)
  next
    case (Inr u)
    let ?s1 = "s\<lparr>is_known := known_curves w1\<rparr>"
    from process_step.hydrated [of w w1 s e] h Inr w have "process_reach e s ?s1"
      by (intro one_step) simp
    moreover from run h Inr have "worker_loop (os_ext e) (os_abi e) pick (os_factory e) cfg turns w1 = (r, w')"
      by (simp add: run_coinblast_worker_def)
    from worker_loop_path [OF this refl refl refl turns, of ?s1] hydrate_spec(1) [OF h] w
    have "process_reach e ?s1 (?s1\<lparr>is_db := w_db w', is_known := known_curves w'\<rparr>)" by simp
    ultimately show ?thesis
      using reach_trans by (intro exI [of _ "known_curves w'"]) fastforce
  qed
qed

section \<open>Detector and seeding\<close>

lemma sweep_path:
  fixes w :: world
  assumes "\<And>i. ns i \<in> os_nodes e" "w_db w = is_db s"
  shows "process_reach e s (s\<lparr>is_db := w_db (snd (sweep (os_ext e) (os_alloy e) ns cancel i addrs w))\<rparr>)"
  using assms(2)
proof (induction addrs arbitrary: i w s)
  case Nil
  then show ?case by (simp add: process_reach.start)
next
  case (Cons a addrs)
  obtain r w1 where 1: "classify_one (os_ext e) (os_alloy e) (ns i) a w = (r, w1)" by fastforce
  from process_step.classified [OF assms(1) 1 Cons.prems]
  have "process_step e s (s\<lparr>is_db := w_db w1\<rparr>)" .
  from reach_step [OF this] Cons.IH [of w1 "s\<lparr>is_db := w_db w1\<rparr>" "Suc i"]
  have "process_reach e s (s\<lparr>is_db := w_db (snd (sweep (os_ext e) (os_alloy e) ns cancel (Suc i) addrs w1))\<rparr>)" by simp
  with 1 Cons.prems show ?case by (simp add: process_reach.start)
qed

lemma detector_path:
  fixes w :: world
  assumes "\<And>t i. t \<in> set ts \<Longrightarrow> si_nodes t i \<in> os_nodes e" "w_db w = is_db s"
  shows "process_reach e s (s\<lparr>is_db := w_db (snd (run_contract_detector (os_ext e) (os_alloy e) batch ts w))\<rparr>)"
  using assms
proof (induction ts arbitrary: w s)
  case Nil
  then show ?case by (simp add: process_reach.start)
next
  case (Cons t ts)
  obtain c w1 where q: "unclassified_batch batch w = (c, w1)" by fastforce
  have db: "w_db w1 = is_db s"
    using q Cons.prems(2) by (auto simp: unclassified_batch_def query_def map_err_io_def request_def statement_def
        split: list.splits pg_outcome.splits sum.splits prod.splits if_splits)
  show ?case
  proof (cases "si_cancelled t \<or> (\<exists>err. c = Inl err)")
    case True
    with q db Cons.prems(2) show ?thesis by (auto simp: process_reach.start)
  next
    case False
    then obtain addrs where c: "c = Inr addrs" by (cases c) auto
    obtain b w2 where sw: "sweep (os_ext e) (os_alloy e) (si_nodes t) (si_cancel t) 0 addrs w1 = (b, w2)" by fastforce
    have first: "process_reach e s (s\<lparr>is_db := w_db w2\<rparr>)"
      using sweep_path [of "si_nodes t" e w1 s "si_cancel t" 0 addrs] Cons.prems(1) [of t] db sw by simp
    show ?thesis
    proof (cases b)
      case True
      with q c sw False first show ?thesis by simp
    next
      case not: False
      have "process_reach e (s\<lparr>is_db := w_db w2\<rparr>)
          (s\<lparr>is_db := w_db (snd (run_contract_detector (os_ext e) (os_alloy e) batch ts w2))\<rparr>)"
        using Cons.IH [of w2 "s\<lparr>is_db := w_db w2\<rparr>"] Cons.prems(1) by simp
      with reach_trans first q c sw False not show ?thesis by simp
    qed
  qed
qed

lemma address_history_path:
  fixes w :: world
  assumes "w_db w = is_db s"
  shows "process_reach e s (s\<lparr>is_db := w_db (address_history w)\<rparr>)"
proof -
  obtain c w1 where q: "addresses_count w = (c, w1)" by fastforce
  have db: "w_db w1 = is_db s"
    using q assms by (auto simp: addresses_count_def query_def map_err_io_def request_def statement_def
        split: list.splits pg_outcome.splits sum.splits prod.splits if_splits)
  obtain r w2 where b: "backfill_from_transactions w1 = (r, w2)" by fastforce
  from one_step [OF process_step.seeded [OF b db]] q b db show ?thesis
    by (auto simp: address_history_def process_reach.start split: sum.splits)
qed

end
