(* ===== verification/Process_Theorems.thy ===== *)
theory Process_Theorems
  imports Process_Runs Worker_Theorems
begin

text \<open>
  The properties of the indexer as a whole: all processes of \<open>bin/indexer.rs\<close> on one database.
\<close>

section \<open>Sample data\<close>

definition s_outside :: outside where
  "s_outside = \<lparr>os_ext = ext_ref, os_abi = s_abi, os_alloy = s_alloy, os_factory = s_factory,
     os_nodes = {s_node 9, s_cb_node}\<rparr>"

definition s_gaps :: "i64 \<Rightarrow> bool" where
  "s_gaps h \<longleftrightarrow> node_gaps (s_node 9) h \<or> node_gaps s_cb_node h"

definition s_start :: indexer_state where
  "s_start = \<lparr>is_db = empty_db, is_next = (\<lambda>_. 0), is_buf = (\<lambda>_. []), is_known = {}\<rparr>"

lemma s_start_sel [simp]:
  "is_db s_start = empty_db" "is_next s_start = (\<lambda>_. 0)" "is_buf s_start = (\<lambda>_. [])" "is_known s_start = {}"
  by (simp_all add: s_start_def)

lemma s_trusted: "trusted s_outside s_gaps (\<lambda>_. [])"
proof -
  have "honest_node s_cb_node"
    using s_node_honest [of 1178700] by (simp add: honest_node_def s_cb_node_def)
  moreover have "factory_behaves ext_ref s_abi s_factory (s_node 9)"
    by (auto simp: factory_behaves_def logs_in_range_def s_node_def bind_result_Inr split: if_splits)
  moreover have "code_node (\<lambda>_. []) (s_node k)" "code_node (\<lambda>_. []) s_cb_node" for k
    by (simp_all add: code_node_def s_cb_node_def s_node_def)
  ultimately show ?thesis
    using s_node_honest [of 9] s_factory_behaves
    by (auto simp: trusted_def s_outside_def s_gaps_def ext_ref_hex keccak_laws_def s_alloy_def)
qed

lemma s_data_ok: "data_ok s_outside gaps code empty_db"
  by (simp add: data_ok_def sync_inv_empty db_wf_empty lowercase_curves_def classes_right_def)
    (simp add: empty_db_def)

lemma s_state_ok: "state_ok s_outside gaps code s_start"
  by (simp add: state_ok_def s_data_ok pending_empty)

section \<open>Properties\<close>

text \<open>C8: The whole indexer keeps its data right. Backfill, tail, launchpad worker, contract detector and
  the seeding of the addresses run on one database in any interleaving of their requests and
  transactions, with any failures and restarts; if the nodes answer for one chain, then always: every
  height up to the cursor is stored or a gap, the schema holds, the aggregates of every token are those
  of its trades and every classified address carries its class. The cursor never goes down and no
  block, curve or trade is ever lost.\<close>

theorem indexer_processes_safe:
  assumes "process_reach e s s'" and "trusted e gaps code" and "data_ok e gaps code (is_db s)"
    and "\<And>p. is_next s p = cursor_pos (is_db s) + 1" and "\<And>p. is_buf s p = []" and "is_known s = {}"
  shows "data_ok e gaps code (is_db s') \<and> nothing_lost (is_db s) (is_db s')"
proof -
  have sync: "sync_inv gaps (is_db s)" using assms(3) by (simp add: data_ok_def)
  have "state_ok e gaps code s"
    using assms(3-6) cursor_pos_range [OF sync_inv_cursor [OF sync]] sync
    by (auto simp: state_ok_def pending_empty sync_inv_def covered_def)
  from process_reach_ok [OF assms(1,2) this] show ?thesis by (simp add: state_ok_def)
qed

theorem indexer_processes_safe_witness:
  "\<exists>s'. process_reach s_outside s_start s' \<and> is_known s' \<noteq> {} \<and> is_buf s' 1 \<noteq> [] \<and> is_db s' \<noteq> empty_db \<and>
     data_ok s_outside s_gaps (\<lambda>_. []) (is_db s')"
proof -
  let ?l = "s_curve_log 2 5" and ?w = "s_cb_world empty_db []"
  obtain r w' where vet: "vet_emitter ext_ref s_abi s_cb_node hd ?l ?w = (r, w')" by fastforce
  have "(case vet_emitter ext_ref s_abi s_cb_node hd ?l ?w of (r, w') \<Rightarrow> length (tbl_cb_tokens (w_db w'))) = 1"
    by code_simp
  then have rows: "length (tbl_cb_tokens (w_db w')) = 1" by (simp add: vet)
  have "(case vet_emitter ext_ref s_abi s_cb_node hd ?l ?w of (r, w') \<Rightarrow> r) = Inr True"
    by code_simp
  then have known: "known_curves w' \<noteq> {}"
    using vet by (auto simp: vet_emitter_def Let_def split: if_splits sum.splits prod.splits bool.splits)
  obtain b where b: "fetch_one ext_ref (s_node 9) backoff_default (BlockHeight 0) = Inr (Some b)"
    using s_fetch_0 by (auto split: sum.splits option.splits)
  let ?s1 = "s_start\<lparr>is_next := (is_next s_start)(1 := is_next s_start 1 + 1), is_buf := (is_buf s_start)(1 := is_buf s_start 1 @ [b])\<rparr>"
  have "fetches s_outside (is_next s_start 1) (Some b)"
    using b by (auto simp: fetches_def s_outside_def rust_arith)
  then have 1: "process_step s_outside s_start ?s1" by (rule process_step.fetched)
  have "logs_in_range s_cb_node (BlockHeight 0) (BlockHeight 9) None 0 = Inr [?l]"
    by (simp add: logs_in_range_def s_cb_node_def bind_result_def ok_or_def as_u64_def u64_try_from_i64_def map_err_def rust_arith)
  then have l: "logged s_outside None ?l"
    unfolding logged_def by (intro bexI [of _ s_cb_node] exI) (auto simp: s_outside_def)
  have "process_step s_outside ?s1 (?s1\<lparr>is_db := w_db w', is_known := known_curves w'\<rparr>)"
    by (rule process_step.vetted [OF l, where n = s_cb_node and pick = hd and w = ?w])
      (use vet in \<open>simp_all add: s_outside_def trade_topic_def s_curve_log_def s_abi_def\<close>)
  with 1 have reach: "process_reach s_outside s_start (?s1\<lparr>is_db := w_db w', is_known := known_curves w'\<rparr>)"
    by (meson process_reach.start process_reach.step)
  from indexer_processes_safe [OF reach s_trusted s_data_ok [of s_gaps, folded s_start_sel(1)]]
  have "data_ok s_outside s_gaps (\<lambda>_. []) (w_db w')"
    by (simp add: cursor_empty)
  with reach known rows show ?thesis
    by (intro exI [of _ "?s1\<lparr>is_db := w_db w', is_known := known_curves w'\<rparr>"]) (auto simp: empty_db_def)
qed

text \<open>C9: The code stays within these steps. From any state the processes may be in, a run of the backfill
  loop, of the tail loop, of the launchpad worker, of the detector and the seeding of the addresses,
  under whatever faults, is a path of the step relation: nothing the processes do to the database is
  outside of what the theorem above speaks of.\<close>

theorem process_runs_are_paths:
  fixes w :: sync_world and u :: cb_world and v :: world
  assumes "trusted e gaps code" and "state_ok e gaps code s"
    and "w_db w = is_db s" "w_db u = is_db s" "w_db v = is_db s"
  shows "((\<forall>t\<in>set turns. bt_node t \<in> os_nodes e) \<longrightarrow>
      gets_to e p s (w_db (snd (backfill_daemon (os_ext e) var an turns w)))) \<and>
    ((\<forall>t\<in>set sessions. \<forall>i\<in>set (ss_inputs t). ti_node i \<in> os_nodes e) \<longrightarrow>
      gets_to e p s (w_db (snd (snd (tail_daemon (os_ext e) an sessions g w))))) \<and>
    ((\<forall>(c, n)\<in>set rounds. n \<in> os_nodes e) \<longrightarrow>
      (\<exists>known. process_reach e s (s\<lparr>is_db := w_db (snd (run_coinblast_worker (os_ext e) (os_abi e) pick
         (os_factory e) cfg rounds u)), is_known := known\<rparr>))) \<and>
    ((\<forall>t\<in>set sweeps. \<forall>i. si_nodes t i \<in> os_nodes e) \<longrightarrow>
      process_reach e s (s\<lparr>is_db := w_db (snd (run_contract_detector (os_ext e) (os_alloy e) batch sweeps v))\<rparr>)) \<and>
    process_reach e s (s\<lparr>is_db := w_db (address_history v)\<rparr>)"
  using backfill_daemon_path [OF _ assms(1-3)] tail_daemon_path [OF _ assms(1-3)]
    run_coinblast_path [OF prod.collapse [symmetric] _ assms(1,4)] detector_path [OF _ assms(5)]
    address_history_path [OF assms(5)] by simp

theorem process_runs_are_paths_witness:
  "gets_to s_outside 0 s_start (w_db (snd (backfill_daemon ext_ref None True
     [\<lparr>bt_cancelled = False, bt_node = s_node 9, bt_cancel = (\<lambda>_. False)\<rparr>] (s_world empty_db [Done, Done, Refused]))))"
proof -
  have "os_ext s_outside = ext_ref" "s_node 9 \<in> os_nodes s_outside" by (simp_all add: s_outside_def)
  with process_runs_are_paths [OF s_trusted s_state_ok, where w = "s_world empty_db [Done, Done, Refused]"
      and u = "s_cb_world empty_db []" and v = "world.truncate (s_world empty_db [])" and p = 0 and var = None and an = True
      and turns = "[\<lparr>bt_cancelled = False, bt_node = s_node 9, bt_cancel = (\<lambda>_. False)\<rparr>]"
      and sessions = "[]" and rounds = "[]" and sweeps = "[]"]
  show ?thesis by (simp add: world.defs)
qed

end
