(* ===== verification/Observability.thy ===== *)
theory Observability
  imports Router
begin

text \<open>
  \<open>crates/api/src/observability.rs\<close> and \<open>routes/metrics.rs\<close>: the metrics layer of the API and the endpoint
  that shows it. The registry of the \<open>metrics\<close> crate is a map from label values to a counter and the
  recorded durations, in nanoseconds; rendering it as text is the exporter's. The layer sits inside
  the guard and the limiter, around every route.
\<close>

section \<open>The registry\<close>

type_synonym labels = "string \<times> string \<times> string"

record series =
  se_requests :: nat
  se_seconds :: "nat list"

type_synonym registry = "(labels \<times> series) list"

definition latency_buckets :: "nat list" where
  "latency_buckets = [1000000, 5000000, 25000000, 100000000, 500000000, 2500000000]"

text \<open>The cumulative buckets the exporter shows for one histogram, the last of them \<open>+Inf\<close>.\<close>

definition bucket_counts :: "nat list \<Rightarrow> nat list" where
  "bucket_counts samples = map (\<lambda>b. length (filter (\<lambda>s. s \<le> b) samples)) latency_buckets @ [length samples]"

fun observe :: "labels \<Rightarrow> nat \<Rightarrow> registry \<Rightarrow> registry" where
  "observe l elapsed [] = [(l, \<lparr>se_requests = 1, se_seconds = [elapsed]\<rparr>)]"
| "observe l elapsed ((k, s) # reg) =
     (if k = l then (k, \<lparr>se_requests = se_requests s + 1, se_seconds = se_seconds s @ [elapsed]\<rparr>) # reg
      else (k, s) # observe l elapsed reg)"

section \<open>The layer\<close>

text \<open>A request with what the clock says about it: \<open>ob_method\<close> is the text of its method.\<close>

record observed =
  ob_request :: http_request
  ob_method :: string
  ob_elapsed :: nat

definition track_request :: "observed \<Rightarrow> ('w \<Rightarrow> response \<times> 'w) \<Rightarrow> 'w \<times> registry \<Rightarrow> response \<times> 'w \<times> registry" where
  "track_request ob run wr =
     (let path = rq_path (ob_request ob);
          (resp, w') = run (fst wr);
          status = dec_nat (fst resp)
      in (resp, w', observe (ob_method ob, path, status) (ob_elapsed ob) (snd wr)))"

text \<open>The layers of \<open>make_router\<close> with this one in its place.\<close>

definition observed_router :: "app_state \<Rightarrow> router_config \<Rightarrow> observed \<Rightarrow> 'z api_world_scheme \<times> registry \<Rightarrow>
    response \<times> 'z api_world_scheme \<times> registry" where
  "observed_router st cfg ob wr =
     (let rq = ob_request ob in
      if \<not> require_bearer (rc_auth_token cfg) (rq_path rq) (rq_authorization rq)
      then ((fst unauthorized, JsonBody (snd unauthorized)), wr)
      else if \<not> rq_admitted rq then ((429, NoBody), wr)
      else track_request ob (dispatch_route st rq) wr)"

fun serve_observed :: "app_state \<Rightarrow> router_config \<Rightarrow> observed list \<Rightarrow> 'z api_world_scheme \<times> registry \<Rightarrow>
    response list \<times> 'z api_world_scheme \<times> registry" where
  "serve_observed st cfg [] wr = ([], wr)"
| "serve_observed st cfg (ob # obs) wr =
     (case observed_router st cfg ob wr of (resp, wr1) \<Rightarrow>
      case serve_observed st cfg obs wr1 of (resps, wr2) \<Rightarrow> (resp # resps, wr2))"

section \<open>The endpoint\<close>

text \<open>\<open>metrics_router\<close> serves one route, without the layers of the public one.\<close>

definition metrics_content_type :: string where
  "metrics_content_type = ''text/plain; version=0.0.4; charset=utf-8''"

definition metrics_handler :: "(registry \<Rightarrow> string) \<Rightarrow> registry \<Rightarrow> nat \<times> string \<times> string" where
  "metrics_handler render reg = (200, metrics_content_type, render reg)"

definition metrics_router :: "(registry \<Rightarrow> string) \<Rightarrow> registry \<Rightarrow> http_method \<Rightarrow> string \<Rightarrow>
    nat + nat \<times> string \<times> string" where
  "metrics_router render reg meth path =
     (if path \<noteq> ''/metrics'' then Inl 404
      else if meth \<noteq> GetMethod then Inl 405
      else Inr (metrics_handler render reg))"

section \<open>Facts\<close>

definition passes :: "router_config \<Rightarrow> http_request \<Rightarrow> bool" where
  "passes cfg rq \<longleftrightarrow> require_bearer (rc_auth_token cfg) (rq_path rq) (rq_authorization rq) \<and> rq_admitted rq"

definition total_requests :: "registry \<Rightarrow> nat" where
  "total_requests reg = sum_list (map (se_requests \<circ> snd) reg)"

definition counted :: "registry \<Rightarrow> bool" where
  "counted reg \<longleftrightarrow> distinct (map fst reg) \<and> (\<forall>(l, s)\<in>set reg. se_requests s = length (se_seconds s))"

lemma observe_total: "total_requests (observe l t reg) = Suc (total_requests reg)"
  by (induction l t reg rule: observe.induct) (simp_all add: total_requests_def)

lemma observe_labels: "fst ` set (observe l t reg) = insert l (fst ` set reg)"
  by (induction l t reg rule: observe.induct) auto

lemma observe_counted: "counted reg \<Longrightarrow> counted (observe l t reg)"
proof (induction l t reg rule: observe.induct)
  case (2 l t k s reg)
  then show ?case
    using observe_labels [of l t reg] by (auto simp: counted_def)
qed (simp add: counted_def)

text \<open>The layer is invisible to clients: forgetting the registry gives the router without it.\<close>

lemma observed_router_forget:
  "observed_router st cfg ob (w, reg) = (resp, w', reg') \<Longrightarrow> layered st cfg (ob_request ob) w = (resp, w')"
  by (auto simp: observed_router_def layered_def track_request_def Let_def split: if_splits prod.splits)

text \<open>
  It counts the requests that pass the guard and the limiter, \<open>/health\<close> among them, each in one series;
  each histogram has as many samples as its counter says.
\<close>

lemma metrics_count_requests:
  assumes "serve_observed st cfg obs (w, reg) = (resps, w', reg')" "counted reg"
  shows "total_requests reg' = total_requests reg + length (filter (\<lambda>ob. passes cfg (ob_request ob)) obs) \<and> counted reg'"
  using assms
proof (induction obs arbitrary: w reg resps)
  case (Cons ob obs)
  obtain resp w1 reg1 where one: "observed_router st cfg ob (w, reg) = (resp, w1, reg1)" by (metis prod_cases3)
  with Cons.prems(1) obtain rs where rest: "serve_observed st cfg obs (w1, reg1) = (rs, w', reg')"
    by (auto split: prod.splits)
  have "total_requests reg1 = total_requests reg + (if passes cfg (ob_request ob) then 1 else 0) \<and> counted reg1"
    using one Cons.prems(2) observe_total observe_counted
    by (auto simp: observed_router_def passes_def track_request_def Let_def split: if_splits prod.splits)
  with Cons.IH [OF rest] show ?case by simp
qed simp

text \<open>
  The label \<open>path\<close> is the path as requested, not the route: every block height or hash a client asks
  for stays in the registry as a series of its own.
\<close>

definition series_paths :: "registry \<Rightarrow> string set" where
  "series_paths reg = fst ` snd ` fst ` set reg"

lemma observe_paths: "series_paths (observe (m, path, status) t reg) = insert path (series_paths reg)"
  by (simp add: series_paths_def observe_labels)

lemma paths_become_series:
  assumes "serve_observed st cfg obs (w, reg) = (resps, w', reg')"
  shows "series_paths reg \<subseteq> series_paths reg' \<and>
    (\<forall>ob\<in>set obs. passes cfg (ob_request ob) \<longrightarrow> rq_path (ob_request ob) \<in> series_paths reg')"
  using assms
proof (induction obs arbitrary: w reg resps)
  case (Cons ob obs)
  obtain resp w1 reg1 where one: "observed_router st cfg ob (w, reg) = (resp, w1, reg1)" by (metis prod_cases3)
  with Cons.prems(1) obtain rs where rest: "serve_observed st cfg obs (w1, reg1) = (rs, w', reg')"
    by (auto split: prod.splits)
  have "reg1 = reg \<and> \<not> passes cfg (ob_request ob) \<or>
      (\<exists>status. reg1 = observe (ob_method ob, rq_path (ob_request ob), status) (ob_elapsed ob) reg)"
    using one by (auto simp: observed_router_def passes_def track_request_def Let_def split: if_splits prod.splits)
  then have "series_paths reg \<subseteq> series_paths reg1 \<and>
      (passes cfg (ob_request ob) \<longrightarrow> rq_path (ob_request ob) \<in> series_paths reg1)"
    by (auto simp: observe_paths)
  with Cons.IH [OF rest] show ?case by auto
qed simp

lemma health_is_counted:
  assumes "rq_path (ob_request ob) = ''/health''" "rq_method (ob_request ob) = GetMethod" "rq_admitted (ob_request ob)"
  shows "observed_router st cfg ob (w, []) = ((200, JsonBody health), w,
    [((ob_method ob, ''/health'', ''200''), \<lparr>se_requests = 1, se_seconds = [ob_elapsed ob]\<rparr>)])"
proof -
  have "route ''/health'' = Some EHealth" by code_simp
  moreover have "dec_nat 200 = ''200''" by code_simp
  ultimately show ?thesis
    using assms by (simp add: observed_router_def require_bearer_def track_request_def dispatch_route_def
        route_method_def handle_def Let_def)
qed

lemma bucket_counts_cumulative: "sorted (bucket_counts samples)"
proof -
  have le: "length (filter (\<lambda>s. s \<le> b) samples) \<le> length (filter (\<lambda>s. s \<le> c) samples)" if "b \<le> c" for b c
    using that by (induction samples) auto
  have "length (filter (\<lambda>s. s \<le> b) samples) \<le> length samples" for b
    by (rule length_filter_le)
  with le show ?thesis by (simp add: bucket_counts_def latency_buckets_def)
qed

end
