(* ===== verification/Startup.thy ===== *)
theory Startup
  imports Router Daemon
begin

text \<open>
  The configuration and the start of the two binaries, \<open>bin/indexer.rs\<close> and \<open>bin/api.rs\<close>, with
  \<open>PoolConfig\<close> of \<open>crates/db\<close>, the gRPC client of \<open>crates/chain\<close> and the text form of \<open>Wei\<close>. Reading the
  environment is figment's; the defaults are those of the \<open>default_*\<close> functions. What a connection
  attempt gives is an input.
\<close>

section \<open>Pool\<close>

record pool_config =
  pl_url :: string
  pl_max_connections :: u32
  pl_min_connections :: u32
  pl_acquire_timeout :: nat

definition pool_config_from_url :: "string \<Rightarrow> pool_config" where
  "pool_config_from_url url = \<lparr>pl_url = url, pl_max_connections = 20, pl_min_connections = 2,
     pl_acquire_timeout = 5 * 10 ^ 9\<rparr>"

text \<open>\<open>connector\<close> is sqlx's \<open>PgPoolOptions\<close>: the three limits and the address to a pool; \<open>run\<close> is the migrator's.\<close>

definition db_connect :: "(u32 \<Rightarrow> u32 \<Rightarrow> nat \<Rightarrow> string \<Rightarrow> sqlx_error + 'p) \<Rightarrow> pool_config \<Rightarrow> db_error + 'p" where
  "db_connect connector cfg =
     map_err DbSqlx (connector (pl_max_connections cfg) (pl_min_connections cfg) (pl_acquire_timeout cfg) (pl_url cfg))"

definition db_migrate :: "('p \<Rightarrow> string + unit) \<Rightarrow> 'p \<Rightarrow> db_error + unit" where
  "db_migrate run pool = map_err DbMigrate (run pool)"

section \<open>gRPC client\<close>

text \<open>\<open>from_shared\<close>, \<open>tls\<close> and \<open>dial\<close> are tonic's \<open>Endpoint::from_shared\<close>, \<open>tls_config\<close> and \<open>connect\<close>.\<close>

definition grpc_connect :: "(string \<Rightarrow> string + 'e) \<Rightarrow> ('e \<Rightarrow> string + 'e) \<Rightarrow> ('e \<Rightarrow> string + 'c) \<Rightarrow> string \<Rightarrow>
    chain_error + 'c" where
  "grpc_connect from_shared tls dial url =
     bind_result (map_err (\<lambda>e. InvalidArgument (''bad grpc url: '' @ e)) (from_shared url)) (\<lambda>endpoint.
     bind_result (if starts_with ''https://'' url
                  then map_err (\<lambda>e. InvalidArgument (''grpc tls config: '' @ e)) (tls endpoint)
                  else Inr endpoint) (\<lambda>endpoint.
       map_err GrpcTransport (dial endpoint)))"

definition stream_events :: "grpc_code + 's \<Rightarrow> chain_error + 's" where
  "stream_events answer = map_err Grpc answer"

section \<open>Text of amounts\<close>

definition wei_from_str :: "ext \<Rightarrow> string \<Rightarrow> string + wei" where
  "wei_from_str x s = bind_result (map_err (\<lambda>e. ''Wei parse failed: '' @ e) (u256_from_dec x s)) (\<lambda>u. Inr (Wei u))"

definition wei_to_string :: "ext \<Rightarrow> wei \<Rightarrow> string" where
  "wei_to_string x v = u256_to_string x (wei_val v)"

definition wei_serialize :: "ext \<Rightarrow> wei \<Rightarrow> json" where
  "wei_serialize x v = JString (u256_to_string x (wei_val v))"

definition wei_deserialize :: "ext \<Rightarrow> json \<Rightarrow> string + wei" where
  "wei_deserialize x j = (case j of JString s \<Rightarrow> wei_from_str x s | _ \<Rightarrow> Inl ''expected a string'')"

lemma wei_text_roundtrip:
  assumes "dec_laws x"
  shows "wei_from_str x (wei_to_string x v) = Inr v" "wei_deserialize x (wei_serialize x v) = Inr v"
  using assms by (cases v; simp add: wei_deserialize_def wei_serialize_def wei_from_str_def wei_to_string_def dec_laws_def)+

section \<open>Indexer\<close>

record indexer_config =
  ix_database_url :: string
  ix_rpc_url :: string
  ix_rest_url :: "string option"
  ix_grpc_url :: "string option"
  ix_clickhouse_url :: "string option"
  ix_clickhouse_raw_tx_table :: string
  ix_network :: string
  ix_pg_max_connections :: u32
  ix_backfill_loop_secs :: u64
  ix_analytics_flush_secs :: u64
  ix_stats_refresh_secs :: u64
  ix_contract_detect_interval_secs :: u64
  ix_contract_detect_batch :: i64

text \<open>Only the two mandatory variables are set.\<close>

definition indexer_defaults :: "string \<Rightarrow> string \<Rightarrow> indexer_config" where
  "indexer_defaults database_url rpc_url =
     \<lparr>ix_database_url = database_url, ix_rpc_url = rpc_url, ix_rest_url = None, ix_grpc_url = None,
       ix_clickhouse_url = None, ix_clickhouse_raw_tx_table = ''raw_tx'', ix_network = ''testnet'',
       ix_pg_max_connections = 10, ix_backfill_loop_secs = 5, ix_analytics_flush_secs = 15,
       ix_stats_refresh_secs = 300, ix_contract_detect_interval_secs = 4, ix_contract_detect_batch = 10\<rparr>"

datatype boot_error = BootText string | BootDb db_error | BootChain chain_error

text \<open>
  \<open>main\<close> up to the spawned loops: the first failing step ends the process. \<open>connect\<close> and \<open>migrate\<close> are
  the answers of the database; the address history starts after the migrations.
\<close>

definition indexer_boot :: "(string \<Rightarrow> string + unit) \<Rightarrow> rest_error + unit \<Rightarrow> (pool_config \<Rightarrow> db_error + unit) \<Rightarrow>
    db_error + unit \<Rightarrow> indexer_config \<Rightarrow> 'z world_scheme \<Rightarrow>
    (boot_error + network \<times> endpoints \<times> endpoints) \<times> 'z world_scheme" where
  "indexer_boot parse_url http connect migrate cfg w =
     (case bind_result (map_err BootText (parse_network (ix_network cfg))) (\<lambda>network.
           bind_result (map_err BootDb (connect ((pool_config_from_url (ix_database_url cfg))
             \<lparr>pl_max_connections := ix_pg_max_connections cfg\<rparr>))) (\<lambda>_.
           bind_result (map_err BootDb migrate) (\<lambda>_. Inr network))) of
        Inl e \<Rightarrow> (Inl e, w)
      | Inr network \<Rightarrow>
          (bind_result (map_err BootChain (chain_provider_http parse_url (ix_rpc_url cfg))) (\<lambda>provider.
           bind_result (map_err BootChain (rest_client_new parse_url http
               (case ix_rest_url cfg of None \<Rightarrow> ix_rpc_url cfg | Some u \<Rightarrow> u))) (\<lambda>rest.
             Inr (network, provider, rest))), address_history w))"

text \<open>
  The flusher and the tail loop only run when their address is set. \<open>indexer_tasks\<close> are the tasks in
  the order in which the shutdown awaits them, and \<open>outcome\<close> is how each of them ended.
\<close>

datatype task = StatsTask | DetectorTask | BackfillTask | CoinblastTask | TailTask | FlusherTask

definition flusher_task :: "indexer_config \<Rightarrow> task option" where
  "flusher_task cfg = (case ix_clickhouse_url cfg of Some url \<Rightarrow> Some FlusherTask | None \<Rightarrow> None)"

definition tail_task :: "indexer_config \<Rightarrow> task option" where
  "tail_task cfg = (case ix_grpc_url cfg of Some url \<Rightarrow> Some TailTask | None \<Rightarrow> None)"

definition indexer_tasks :: "indexer_config \<Rightarrow> task list" where
  "indexer_tasks cfg = [StatsTask, DetectorTask, BackfillTask, CoinblastTask] @ option_list (tail_task cfg) @
     option_list (flusher_task cfg)"

definition indexer_exit :: "(task \<Rightarrow> ('e, unit) joined) \<Rightarrow> indexer_config \<Rightarrow> string + 'e option" where
  "indexer_exit outcome cfg = indexer_shutdown (outcome StatsTask) (outcome DetectorTask) (outcome BackfillTask)
     (outcome CoinblastTask) (map_option outcome (tail_task cfg)) (map_option outcome (flusher_task cfg))"

section \<open>API\<close>

record api_config =
  ap_database_url :: string
  ap_bind :: string
  ap_max_connections :: u32
  ap_bearer_token :: "string option"
  ap_redis_url :: "string option"
  ap_cache_namespace :: "string option"
  ap_rate_per_sec :: u64
  ap_rate_burst :: u32
  ap_metrics_bind :: string

definition api_defaults :: "string \<Rightarrow> api_config" where
  "api_defaults database_url =
     \<lparr>ap_database_url = database_url, ap_bind = ''0.0.0.0:8080'', ap_max_connections = 20,
       ap_bearer_token = None, ap_redis_url = None, ap_cache_namespace = None, ap_rate_per_sec = 50,
       ap_rate_burst = 50, ap_metrics_bind = ''127.0.0.1:9080''\<rparr>"

text \<open>\<open>connect\<close> is \<open>cache_connect\<close> with the answers of Redis; a failure leaves the API without a cache.\<close>

definition api_cache :: "(cache_config \<Rightarrow> cache_error + string \<times> circuit_breaker) \<Rightarrow> api_config \<Rightarrow>
    (string \<times> circuit_breaker) option" where
  "api_cache connect cfg =
     (case ap_redis_url cfg of
        None \<Rightarrow> None
      | Some url \<Rightarrow>
          (let cc = cache_config_new url (case ap_cache_namespace cfg of
                      None \<Rightarrow> ''sentrix:idx:api'' | Some ns \<Rightarrow> ns) in
           case connect cc of Inl _ \<Rightarrow> None | Inr client \<Rightarrow> Some client))"

text \<open>\<open>parse_addr\<close> parses a socket address and tells whether its IP is a loopback address.\<close>

definition metrics_listener :: "(string \<Rightarrow> string + bool) \<Rightarrow> string \<Rightarrow> string + string option" where
  "metrics_listener parse_addr bind =
     (if bind = [] then Inr None
      else bind_result (map_err (\<lambda>e. ''INDEXER_API_METRICS_BIND parse: '' @ e) (parse_addr bind)) (\<lambda>loopback.
        if \<not> loopback
        then Inl (''INDEXER_API_METRICS_BIND='' @ bind @ '' must be loopback (127.0.0.1/::1). '' @
          ''/metrics is unauthenticated; binding to a non-loopback address would re-expose it via the edge proxy.'')
        else Inr (Some bind)))"

definition api_boot :: "(string \<Rightarrow> string + bool) \<Rightarrow> (pool_config \<Rightarrow> db_error + unit) \<Rightarrow>
    (cache_config \<Rightarrow> cache_error + string \<times> circuit_breaker) \<Rightarrow> api_config \<Rightarrow>
    boot_error + (string \<times> circuit_breaker) option \<times> string option \<times> router_config" where
  "api_boot parse_addr connect redis cfg =
     bind_result (map_err BootDb (connect ((pool_config_from_url (ap_database_url cfg))
       \<lparr>pl_max_connections := ap_max_connections cfg\<rparr>))) (\<lambda>_.
     bind_result (map_err BootText (metrics_listener parse_addr (ap_metrics_bind cfg))) (\<lambda>metrics.
       Inr (api_cache redis cfg, metrics,
         \<lparr>rc_auth_token = ap_bearer_token cfg, rc_rate_per_sec = ap_rate_per_sec cfg, rc_rate_burst = ap_rate_burst cfg\<rparr>)))"

lemma metrics_never_public:
  "api_boot parse_addr connect redis cfg = Inr (cache, Some addr, rc) \<Longrightarrow> parse_addr addr = Inr True"
  by (auto simp: api_boot_def metrics_listener_def bind_result_Inr split: if_splits)

lemma api_cache_closed:
  "api_cache (cache_connect from_url build init) cfg = Some (ns, br) \<Longrightarrow> is_open t br = (False, br) \<and> cb_threshold br = 5"
  by (auto simp: api_cache_def cache_connect_def bind_result_Inr cache_config_new_def breaker_new_def is_open_def
      Let_def split: option.splits sum.splits)

text \<open>The process reports failure exactly when a task it spawned has panicked; errors of the tasks are not failures.\<close>

lemma exit_fails_on_panic:
  "(\<exists>e. indexer_exit outcome cfg = Inl e) \<longleftrightarrow> (\<exists>t\<in>set (indexer_tasks cfg). outcome t = TaskPanicked)"
proof -
  let ?ts = "map outcome (indexer_tasks cfg)"
  have "(\<exists>e. indexer_exit outcome cfg = Inl e) \<longleftrightarrow> await_tasks ?ts \<noteq> Inr ()"
    unfolding indexer_exit_def indexer_shutdown_def indexer_tasks_def option_list_def
    by (cases "tail_task cfg"; cases "flusher_task cfg") (auto simp: bind_result_def split: sum.splits)
  also have "\<dots> \<longleftrightarrow> (\<exists>t\<in>set (indexer_tasks cfg). outcome t = TaskPanicked)"
    unfolding await_tasks_Inr by force
  finally show ?thesis .
qed

text \<open>No data is touched before the pool is open and the migrations have run.\<close>

lemma unmigrated_untouched:
  assumes "\<And>pl. connect pl = Inr () \<Longrightarrow> db_migrate run () = Inl e"
  shows "snd (indexer_boot parse_url http connect (db_migrate run ()) cfg w) = w"
  using assms by (fastforce simp: indexer_boot_def bind_result_def map_err_def split: sum.splits)

lemma boot_failure_leaves_data:
  "indexer_boot parse_url http connect migrate cfg w = (Inl (BootText e), w') \<Longrightarrow> w' = w"
  by (auto simp: indexer_boot_def bind_result_def map_err_def split: sum.splits)

end
