(* ===== verification/Openapi.thy ===== *)
theory Openapi
  imports Router_Theorems
begin

text \<open>
  \<open>crates/api/src/routes/openapi.rs\<close> and the document it embeds, \<open>crates/api/openapi.json\<close>: what the
  document promises of the API, against the router. Where a path, its method and the statuses of its
  answers stand in the document, they are data here; descriptions and schemas are left out.
\<close>

section \<open>Served documents\<close>

text \<open>A content type and a body; \<open>spec\<close> is the text embedded by \<open>include_str!\<close>.\<close>

definition openapi_json :: "string \<Rightarrow> string \<times> string" where
  "openapi_json spec = (''application/json; charset=utf-8'', spec)"

definition docs :: "string \<Rightarrow> string \<times> string" where
  "docs swagger_html = (''text/html; charset=utf-8'', swagger_html)"

definition openapi_routes :: "(string list \<times> endpoint) list" where
  "openapi_routes = [([''openapi.json''], EOpenapi), ([''docs''], EDocs)]"

text \<open>The address from which the page of \<open>/docs\<close> loads the document.\<close>

definition swagger_spec_url :: string where
  "swagger_spec_url = ''/openapi.json''"

section \<open>The document\<close>

datatype segment = Lit string | Param string

record operation =
  op_method :: http_method
  op_template :: "segment list"
  op_statuses :: "nat list"

definition op :: "http_method \<Rightarrow> segment list \<Rightarrow> nat list \<Rightarrow> operation" where
  "op m t ss = \<lparr>op_method = m, op_template = t, op_statuses = ss\<rparr>"

definition documented :: "operation list" where
  "documented =
     [op GetMethod [Lit ''health''] [200],
      op GetMethod [Lit ''readyz''] [200, 503],
      op GetMethod [Lit ''blocks''] [200, 400],
      op GetMethod [Lit ''blocks'', Param ''height''] [200, 400, 404],
      op GetMethod [Lit ''tx'', Param ''hash''] [200, 404],
      op GetMethod [Lit ''address'', Param ''addr'', Lit ''txs''] [200],
      op GetMethod [Lit ''address'', Param ''addr'', Lit ''transfers''] [200],
      op GetMethod [Lit ''accounts'', Lit ''active''] [200],
      op GetMethod [Lit ''whale'', Lit ''transfers''] [200],
      op GetMethod [Lit ''coinblast'', Lit ''tokens''] [200],
      op GetMethod [Lit ''coinblast'', Lit ''tokens'', Param ''curve''] [200, 404],
      op GetMethod [Lit ''coinblast'', Lit ''trades''] [200],
      op GetMethod [Lit ''stats'', Lit ''daily''] [200],
      op GetMethod [Lit ''api''] [200],
      op PostMethod [Lit ''graphql''] [200],
      op GetMethod [Lit ''metrics''] [200]]"

text \<open>The codes an error body may carry, by the schema \<open>Error\<close>, which requires one.\<close>

definition documented_codes :: "string list" where
  "documented_codes = [''invalid_query'', ''not_found'', ''internal'', ''unauthorized'']"

text \<open>The segments of a path that a template describes: a parameter is any segment that is not empty.\<close>

fun fills :: "segment list \<Rightarrow> string list \<Rightarrow> bool" where
  "fills [] [] = True"
| "fills (Lit s # t) (x # xs) = (x = s \<and> fills t xs)"
| "fills (Param p # t) (x # xs) = (x \<noteq> [] \<and> CHR ''/'' \<notin> set x \<and> fills t xs)"
| "fills t xs = False"

definition path_of :: "string list \<Rightarrow> string" where
  "path_of segments = concat (map (\<lambda>s. CHR ''/'' # s) segments)"

lemma fills_simps [simp]:
  "fills [] segs \<longleftrightarrow> segs = []"
  "fills (Lit s # t) segs \<longleftrightarrow> (\<exists>xs. segs = s # xs \<and> fills t xs)"
  "fills (Param p # t) segs \<longleftrightarrow> (\<exists>x xs. segs = x # xs \<and> x \<noteq> [] \<and> CHR ''/'' \<notin> set x \<and> fills t xs)"
  by (cases segs; auto)+

section \<open>Paths and routes\<close>

lemma split_on_append: "sep \<notin> set s \<Longrightarrow> split_on sep (s @ sep # r) = s # split_on sep r"
  by (induction s) auto

lemma split_on_single: "sep \<notin> set s \<Longrightarrow> split_on sep s = [s]"
  by (induction s) auto

lemma split_segments:
  "\<forall>s\<in>set (x # xs). CHR ''/'' \<notin> set s \<Longrightarrow> split_on CHR ''/'' (x @ path_of xs) = x # xs"
proof (induction xs arbitrary: x)
  case Nil
  then show ?case by (simp add: path_of_def split_on_single)
next
  case (Cons y ys)
  have "path_of (y # ys) = CHR ''/'' # (y @ path_of ys)" by (simp add: path_of_def)
  with Cons show ?case by (simp add: split_on_append)
qed

lemma route_path_of:
  assumes "segs \<noteq> []" "\<forall>s\<in>set segs. CHR ''/'' \<notin> set s"
  shows "route (path_of segs) = (case map_of static_routes segs of Some e \<Rightarrow> Some e | None \<Rightarrow> param_route segs)"
proof -
  have "split_on CHR ''/'' (path_of segs) = [] # segs"
    using assms by (cases segs) (simp_all add: path_of_def split_segments [unfolded path_of_def])
  then show ?thesis by (simp add: route_def)
qed

text \<open>What a handler may answer when the database answers: the statuses other than 500.\<close>

definition endpoint_statuses :: "endpoint \<Rightarrow> nat set" where
  "endpoint_statuses e = (case e of
      EReadyz \<Rightarrow> {200, 503} | EBlocks \<Rightarrow> {200, 400} | EBlock _ \<Rightarrow> {200, 400, 404}
    | ETx _ \<Rightarrow> {200, 404} | EToken _ \<Rightarrow> {200, 404} | _ \<Rightarrow> {200})"

definition plain :: "segment list \<Rightarrow> bool" where
  "plain t \<longleftrightarrow> list_all (\<lambda>p. case p of Lit s \<Rightarrow> s \<noteq> [] \<and> CHR ''/'' \<notin> set s | Param _ \<Rightarrow> True) t"

lemma fills_plain: "fills t segs \<Longrightarrow> plain t \<Longrightarrow> \<forall>s\<in>set segs. CHR ''/'' \<notin> set s"
  by (induction t segs rule: fills.induct) (auto simp: plain_def)

lemma documented_plain: "oper \<in> set documented \<Longrightarrow> plain (op_template oper) \<and> op_template oper \<noteq> []"
proof -
  have "\<forall>oper\<in>set documented. plain (op_template oper) \<and> op_template oper \<noteq> []"
    unfolding documented_def op_def plain_def by simp
  then show "oper \<in> set documented \<Longrightarrow> plain (op_template oper) \<and> op_template oper \<noteq> []" by blast
qed

lemma documented_path:
  assumes "oper \<in> set documented" "fills (op_template oper) segs"
  shows "segs \<noteq> []" "\<forall>s\<in>set segs. CHR ''/'' \<notin> set s"
proof -
  note d = documented_plain [OF assms(1)]
  show "segs \<noteq> []" using assms(2) d by (cases "op_template oper"; cases "hd (op_template oper)") auto
  show "\<forall>s\<in>set segs. CHR ''/'' \<notin> set s" using fills_plain [OF assms(2)] d by blast
qed

lemma documented_routes:
  "\<forall>oper\<in>set documented. \<forall>segs. fills (op_template oper) segs \<longrightarrow> op_template oper \<noteq> [Lit ''metrics''] \<longrightarrow>
     (case (case map_of static_routes segs of Some e \<Rightarrow> Some e | None \<Rightarrow> param_route segs) of
        None \<Rightarrow> False
      | Some e \<Rightarrow> route_method e = op_method oper \<and> endpoint_statuses e = set (op_statuses oper))"
  unfolding documented_def op_def list.set ball_simps operation.select_convs
  by (intro conjI TrueI allI impI)
    (clarsimp simp: static_routes_def param_route_def route_method_def endpoint_statuses_def)+

lemma documented_routed:
  assumes "oper \<in> set documented" "fills (op_template oper) segs" "op_template oper \<noteq> [Lit ''metrics'']"
  shows "\<exists>e. route (path_of segs) = Some e \<and> route_method e = op_method oper \<and> endpoint_statuses e = set (op_statuses oper)"
  unfolding route_path_of [OF documented_path [OF assms(1,2)]] using documented_routes assms by (fastforce split: option.splits)

lemma metrics_unrouted: "route (path_of [''metrics'']) = None"
  by (simp add: route_path_of static_routes_def param_route_def)

text \<open>What the router serves and the document leaves out.\<close>

definition documents :: "string list \<Rightarrow> endpoint \<Rightarrow> bool" where
  "documents segs e \<longleftrightarrow> list_ex (\<lambda>oper. fills (op_template oper) segs \<and> op_method oper = route_method e) documented"

definition undocumented :: "string list \<Rightarrow> endpoint \<Rightarrow> bool" where
  "undocumented segs e \<longleftrightarrow> segs = [''whale'', ''tx''] \<or>
     (case e of EOpenapi \<Rightarrow> True | EDocs \<Rightarrow> True | EPlayground \<Rightarrow> True | EContracts _ \<Rightarrow> True | _ \<Rightarrow> False)"

lemma static_routes_documented:
  "list_all (\<lambda>(segs, e). documents segs e \<or> undocumented segs e) static_routes"
  by code_simp

lemma param_routes_documented:
  assumes "param_route segs = Some e" "\<forall>s\<in>set segs. CHR ''/'' \<notin> set s"
  shows "documents segs e"
  using assms
  by (auto simp: param_route_def documents_def documented_def op_def route_method_def split: list.splits if_splits)

lemma undocumented_endpoints:
  assumes "route (path_of segs) = Some e" "segs \<noteq> []" "\<forall>s\<in>set segs. CHR ''/'' \<notin> set s"
  shows "documents segs e \<or> undocumented segs e"
proof (cases "map_of static_routes segs")
  case None
  with assms(1) route_path_of [OF assms(2,3)] param_routes_documented [OF _ assms(3)] show ?thesis by simp
next
  case (Some f)
  with assms(1) route_path_of [OF assms(2,3)] have "(segs, e) \<in> set static_routes" by (simp add: map_of_SomeD)
  with static_routes_documented show ?thesis by (auto simp: list_all_iff)
qed

section \<open>Statuses of the handlers\<close>

named_theorems errs_intros

definition errs :: "nat set \<Rightarrow> ('w, api_error, 'a) io \<Rightarrow> bool" where
  "errs S m \<longleftrightarrow> (\<forall>w e w'. m w = (Inl e, w') \<longrightarrow> api_error_status e \<in> S)"

lemma errs_bind [errs_intros]: "errs S m \<Longrightarrow> (\<And>a. errs S (k a)) \<Longrightarrow> errs S (bind_io m k)"
  by (auto simp: errs_def bind_io_def split: prod.splits sum.splits)

lemma errs_ret [errs_intros]: "errs S (ret_io v)"
  by (simp add: errs_def ret_io_def)

lemma errs_db [errs_intros]: "500 \<in> S \<Longrightarrow> errs S (map_err_io ApiDb m)"
  by (auto simp: errs_def map_err_io_def map_err_def split: prod.splits sum.splits)

lemma errs_input [errs_intros]:
  "400 \<in> S \<Longrightarrow> errs S (lift_io (parse_height s))" "400 \<in> S \<Longrightarrow> errs S (lift_io (parse_before raw))"
  "404 \<in> S \<Longrightarrow> errs S (lift_io (ok_or (ResourceNotFound what) found))"
  by (auto simp: errs_def lift_io_def parse_height_def parse_before_def bind_result_def ok_or_def
      split: option.splits sum.splits)

lemma errs_load [errs_intros]: "errs S loader \<Longrightarrow> errs S (get_or_load cache c key tier loader)"
  by (fastforce simp: errs_def get_or_load_def split: option.splits prod.splits sum.splits)

lemma respond_status: "errs S m \<Longrightarrow> insert 200 S \<subseteq> T \<Longrightarrow> fst (fst (respond body m w)) \<in> T"
  by (auto simp: errs_def respond_def error_response_def split: prod.splits sum.splits)

lemmas api_routes = blocks_list_def block_detail_def tx_detail_def address_txs_def address_transfers_def
  accounts_active_def whale_transfers_def coinblast_tokens_def coinblast_token_detail_def coinblast_trades_def
  stats_daily_route_def contracts_pioneers_def contracts_recent_def contracts_stats_def contracts_route_def
  load_blocks_def load_active_def load_whales_def load_contracts_def load_tokens_def Let_def

lemma errs_routes:
  "errs {400, 500} (blocks_list cache c lim before)" "errs {400, 404, 500} (block_detail s)"
  "errs {404, 500} (tx_detail s)" "errs {404, 500} (coinblast_token_detail s)"
  "errs {500} (address_txs a lim)" "errs {500} (address_transfers a std lim)"
  "errs {500} (accounts_active cache ca lim)" "errs {500} (whale_transfers cache cw lim)"
  "errs {500} (coinblast_tokens cache ct lim)" "errs {500} (coinblast_trades cv lim)"
  "errs {500} (stats_daily_route to_date cache cs lim)" "errs {500} (contracts_pioneers cache cc lim)"
  "errs {500} (contracts_recent cache cc lim)" "errs {500} (contracts_stats cache cc lim)"
  unfolding api_routes by (intro errs_intros insertI1 insertI2 singletonI)+

lemma errs_contracts:
  "errs {500} ((if a then contracts_pioneers else if b then contracts_recent else contracts_stats) cache cc lim)"
  by (simp add: errs_routes)

text \<open>axum's extractors accept the request.\<close>

definition extracted :: "http_request \<Rightarrow> bool" where
  "extracted rq \<longleftrightarrow> rq_query rq \<noteq> None \<and> (\<forall>s. rq_decode rq s \<noteq> None) \<and> rq_gql rq \<noteq> None"

lemma extracted_query: "extracted rq \<Longrightarrow> with_query rq h w = h (the (rq_query rq)) w"
  by (auto simp: extracted_def with_query_def)

lemma extracted_segment:
  "extracted rq \<Longrightarrow> with_segment rq raw h w = h (the (rq_decode rq raw)) w"
  by (auto simp: extracted_def with_segment_def dest: spec [of _ raw])

lemma readyz_status:
  "fst (fst (case readyz t c k w of ((status, j), w') \<Rightarrow> ((status, JsonBody j), w'))) \<in> {500, 200, 503}"
  by (auto simp: readyz_def Let_def split: prod.splits)

lemma graphql_status:
  assumes "extracted rq"
  shows "fst (fst (case rq_gql rq of None \<Rightarrow> ((400, NoBody), w)
      | Some fs \<Rightarrow> (case gql_execute x fs w of (vs, w') \<Rightarrow> ((200, GqlBody vs), w')))) \<in> {500, 200}"
  using assms by (auto simp: extracted_def split: prod.splits)

lemma handle_status:
  fixes w :: api_world
  assumes ok: "extracted rq"
  shows "fst (fst (handle st rq e w)) \<in> insert 500 (endpoint_statuses e)"
  by (cases e; simp only: handle_def endpoint.case extracted_query [OF ok] extracted_segment [OF ok] endpoint_statuses_def)
    ((rule respond_status, rule errs_routes errs_contracts, simp; fail) | (rule readyz_status; fail)
      | (rule graphql_status [OF ok]; fail) | (simp split: prod.split; fail))+

text \<open>Error bodies carry a documented code, except that of the guard, which has none.\<close>

lemma error_codes_documented:
  "api_error_code e \<in> set documented_codes"
  "snd unauthorized = JObject fs \<Longrightarrow> map_of fs ''code'' = None"
  by (cases e; simp add: documented_codes_def) (auto simp: unauthorized_def)

text \<open>The page of \<open>/docs\<close> finds the document.\<close>

lemma docs_load_spec: "route swagger_spec_url = Some EOpenapi" "set openapi_routes \<subseteq> set static_routes"
  by (simp_all add: swagger_spec_url_def route_def static_routes_def openapi_routes_def)

section \<open>The document holds\<close>

text \<open>C38: The OpenAPI document is true of the router. A request for a documented path with the documented
  method that passes the guard, the limiter and axum's extractors is answered with a documented status or
  with the 500 of a failing database, in every state of the database and the cache. The one exception is
  \<open>/metrics\<close>, which the document offers on the public address and the public router answers with 404.\<close>

theorem documented_operations_answered:
  fixes w :: api_world
  assumes oper: "oper \<in> set documented" "fills (op_template oper) segs"
    and rq: "rq_path rq = path_of segs" "rq_method rq = op_method oper" "extracted rq"
    and passed: "require_bearer (rc_auth_token cfg) (rq_path rq) (rq_authorization rq)" "rq_admitted rq"
  shows "case make_router st cfg rq seq w of ((rid, status, body), seq', w') \<Rightarrow>
    status \<in> (if op_template oper = [Lit ''metrics''] then {404} else insert 500 (set (op_statuses oper)))"
proof -
  have "fst (fst (dispatch_route st rq w)) \<in>
      (if op_template oper = [Lit ''metrics''] then {404} else insert 500 (set (op_statuses oper)))"
  proof (cases "op_template oper = [Lit ''metrics'']")
    case True
    with oper(2) have "segs = [''metrics'']" by simp
    with rq(1) True show ?thesis by (simp add: dispatch_route_def metrics_unrouted)
  next
    case False
    from documented_routed [OF oper False] obtain e where e: "route (path_of segs) = Some e"
      "route_method e = op_method oper" "endpoint_statuses e = set (op_statuses oper)" by blast
    with rq False handle_status [OF rq(3), of st e w] show ?thesis by (simp add: dispatch_route_def)
  qed
  with passed show ?thesis
    by (auto simp: make_router_def layered_def Let_def split: prod.splits)
qed

theorem documented_operations_answered_witness:
  "fst (snd (fst (make_router s_app s_config ((s_request ''/metrics'' (Some ''Bearer t''))\<lparr>rq_gql := Some []\<rparr>) 0 s_down))) = 404 \<and>
   fst (snd (fst (make_router s_app s_config ((s_request ''/tx/ab'' (Some ''Bearer t''))\<lparr>rq_gql := Some []\<rparr>) 0 s_down))) \<in> {200, 404, 500}"
proof -
  let ?rq = "\<lambda>path. (s_request path (Some ''Bearer t''))\<lparr>rq_gql := Some []\<rparr>"
  have ops: "op GetMethod [Lit ''metrics''] [200] \<in> set documented"
    "op GetMethod [Lit ''tx'', Param ''hash''] [200, 404] \<in> set documented"
    by (simp_all add: documented_def)
  have bearer: "require_bearer (Some ''t'') ''/metrics'' (Some ''Bearer t'')"
    "require_bearer (Some ''t'') ''/tx/ab'' (Some ''Bearer t'')" by code_simp+
  note run = documented_operations_answered [where cfg = s_config and st = s_app and seq = 0 and w = s_down]
  show ?thesis
    using run [OF ops(1), where segs = "[''metrics'']" and rq = "?rq ''/metrics''"]
      run [OF ops(2), where segs = "[''tx'', ''ab'']" and rq = "?rq ''/tx/ab''"] bearer
    by (auto simp: op_def path_of_def s_request_def extracted_def s_config_def split: prod.splits)
qed

end
