(* ===== verification/Spec2Isabelle.thy ===== *)
theory Spec2Isabelle
  imports Writer_Theorems Sync_Theorems Chain_Theorems Codec_Theorems Coinblast_Theorems Api_Theorems Cache_Theorems
    Router_Theorems Worker_Theorems Process_Theorems Observability Startup
    Openapi
begin

text \<open>
  The Sentrix indexer (\<open>crates/*\<close>, \<open>bin/*\<close>): it follows a blockchain through its JSON-RPC, REST and gRPC
  interfaces, stores blocks, transactions, logs, token transfers, addresses and the trades of the
  CoinBlast launchpad in PostgreSQL, pushes raw transactions to ClickHouse, and serves the tables over
  REST and GraphQL through a Redis cache. The development is a shallow embedding of the code: a
  definition per function, named as in the source, with every error path a value.

  \<^bold>\<open>How the code is represented.\<close> An operation is a function from the world it runs in to a result
  \<open>error + 'a\<close> and the new world (\<open>io\<close> in theory \<open>Prelude\<close>; \<open>bind_io\<close> is \<open>?\<close>). The world is a record:
  the database and the outcomes the connection will have (\<open>world\<close>), extended by the analytics channel
  (\<open>sync_world\<close>), the statistics view (\<open>stats_world\<close>) and Redis, the breaker and the clock
  (\<open>api_world\<close>). PostgreSQL is a record of tables (\<open>Postgres\<close>); its statements check keys, foreign keys
  and column widths and a transaction rolls back on error. Each request to a server consumes one
  outcome: answered, refused, or performed with the answer lost; so a theorem over all worlds holds for
  every pattern of faults. The node is a record of its answers. Rust's \<open>i64\<close>, \<open>i32\<close> are \<open>int\<close> with the
  casts and saturations written out; \<open>u8\<close>, \<open>u32\<close>, \<open>u64\<close>, \<open>U256\<close> are words; strings are lists of
  characters.

  \<^bold>\<open>Parameters.\<close> Third-party code is an argument: hex, big-endian and decimal coding of \<open>U256\<close> (record
  \<open>ext\<close> with \<open>hex_laws\<close>, \<open>be_laws\<close>, \<open>dec_laws\<close> and the instance \<open>ext_ref\<close>), the ABI coder (\<open>abi\<close>),
  address parsing and Keccak (\<open>alloy\<close>), URL parsing, JSON coding of cached values (\<open>codec\<close>), date
  formatting, the verdict of the rate limiter, what axum and async-graphql extract from a request.

  \<^bold>\<open>Theories and sources.\<close>
  \<^item> \<open>Prelude\<close>, \<open>Rust_Text\<close>, \<open>Externals\<close>: integers, results, stateful operations, text of the standard
    library, parameters;
  \<^item> \<open>Domain\<close> (\<open>crates/domain\<close>); \<open>Postgres\<close>, \<open>Tables\<close>, \<open>Tables_Laws\<close>, \<open>Queries\<close> (\<open>crates/db\<close> with its
    migrations): rows, statements, the schema invariant \<open>db_wf\<close>, the read queries and the daily view;
  \<^item> \<open>Chain\<close>, \<open>Chain_Laws\<close> (\<open>crates/chain\<close>): errors, retries with backoff, round robin, REST and
    JSON-RPC;
  \<^item> \<open>Convert\<close> (\<open>sync/src/convert.rs\<close>, \<open>token_decode.rs\<close>): rows from native blocks, decoding of
    transfers;
  \<^item> \<open>Writer\<close>, \<open>Writer_Laws\<close>, \<open>Writer_Replay\<close>, \<open>Writer_Props\<close>, \<open>Writer_Batch\<close> (\<open>block_writer.rs\<close>,
    \<open>cursor.rs\<close>): one block and a batch of blocks in one transaction, the cursor as a maximum register;
  \<^item> \<open>Backfill\<close>, \<open>Backfill_Props\<close>, \<open>Gate\<close>, \<open>Tail\<close>, \<open>Reorg\<close>, \<open>Detector\<close> (the loops of \<open>crates/sync\<close>);
  \<^item> \<open>Coinblast\<close>, \<open>Coinblast_Laws\<close> (\<open>crates/coinblast\<close>, \<open>cb_tokens.rs\<close>, \<open>cb_trades.rs\<close>);
  \<^item> \<open>Flusher\<close> (\<open>crates/analytics\<close>); \<open>Daemon\<close> (the loops and the shutdown of \<open>bin/indexer.rs\<close>);
    \<open>Processes\<close>, \<open>Process_Runs\<close> (its tasks side by side on one database, as a step relation, and the
    proof that the code's runs are paths of it); \<open>Startup\<close> (configuration and start of both binaries,
    \<open>grpc.rs\<close>, \<open>PoolConfig\<close>);
  \<^item> \<open>Cache\<close>, \<open>Cache_Laws\<close> (\<open>crates/cache\<close>, \<open>cached.rs\<close>), \<open>Serialise\<close>, \<open>Api\<close>, \<open>Router\<close>, \<open>Observability\<close>,
    \<open>Openapi\<close> (\<open>crates/api\<close>): breaker and read-through cache, wire rows, handlers, the API as one
    operation with its layers, the metrics of its requests, the document that describes it.

  The modules meet where the code calls: \<open>Daemon\<close> runs \<open>run_backfill\<close>, \<open>run_tail\<close>, the detector and the
  refreshes on one database; the writers own the cursor; \<open>Router\<close> composes guard, limiter, cache and
  queries over the tables the writers filled.

  \<^bold>\<open>What the theorems show.\<close>
  \<^item> \<open>Writer_Theorems\<close>: a block is written completely or not at all, repeated attempts count once, the
    batch writer agrees with the single writer except in \<open>last_seen_block\<close>;
  \<^item> \<open>Sync_Theorems\<close>: the cursor is never ahead of the data under any faults, cancellations and
    interleavings; what a finished backfill, a handled tip and a reorg check leave; the gate excludes
    and keeps tips; the schema is kept by every operation; and where the code falls short (a rewind is
    never refilled, a failed tail keeps the gate, a stash can be stranded);
  \<^item> \<open>Chain_Theorems\<close>, \<open>Codec_Theorems\<close>: retries end with the first decisive answer, answers are
    classified, transfers, bundles and stored rows survive encoding and decoding;
  \<^item> \<open>Coinblast_Theorems\<close>: aggregates agree with trades, known trades are recorded, and three ways in
    which trades or progress are lost;
  \<^item> \<open>Worker_Theorems\<close>: the backfill loop recovers from failed turns, the detector classifies rightly and
    can be starved, every accepted analytics row is accounted for, seeding equals upserting, the
    statistics partition the blocks;
  \<^item> \<open>Process_Theorems\<close>: all processes of the indexer together, in any interleaving of their requests and
    under any faults, keep cursor, schema, aggregates and classes right and lose nothing; what each
    process does is a path of the relation this is proved for;
  \<^item> \<open>Api_Theorems\<close>, \<open>Cache_Theorems\<close>, \<open>Router_Theorems\<close>: written blocks are served, pages enumerate,
    REST and GraphQL agree, cached pages are recent, a dead Redis is called a bounded number of times,
    the API only reads, its responses have fixed shapes, a token guards everything but \<open>/health\<close>;
  \<^item> \<open>Openapi\<close>: the documented operations are served with the documented statuses, except \<open>/metrics\<close>.

  Locales state the interfaces: tables with an insert (\<open>Tables_Laws\<close>), invariants that survive rollbacks
  (\<open>Postgres\<close>), invariants of the block writers and of the launchpad worker (\<open>Processes\<close>, extending the
  former), the single-flight gate (\<open>Gate\<close>) and cached routes (\<open>Cache_Laws\<close>); each is interpreted on the
  model's own operations.

  \<^bold>\<open>Bounds.\<close> No definition uses fuel: the retry loop recurses on the attempts left, the walk back of the
  reorg checker on the height, the loops of workers on the list of turns they are given, the inner loop
  of the tail on the tips still to arrive (a measure).

  \<^bold>\<open>Not modelled.\<close> Tracing and the text format of the Prometheus exporter, the schemas of the
  OpenAPI document, the playground page, signals, the generated gRPC stub, the schema engine of
  async-graphql and the accounting of
  the rate limiter: they are libraries or do not touch the state. Concurrency is modelled where the code
  relies on it: the processes of the indexer (requests and transactions interleave), the gate (atomic
  actions interleave), the flusher (its awaits). The order PostgreSQL leaves open between rows of equal
  sort keys is taken to be the order of insertion.
\<close>

end
